theory Spec2Isabelle
  imports Main "HOL-Library.Sublist" "HOL-Library.AList"
begin

section \<open>Values handled by the export script\<close>

text \<open>
  The script \<^verbatim>\<open>nnunetv2/model_sharing/onnx_export.py\<close> holds one function,
  \<^verbatim>\<open>export_onnx_model\<close>. It reads two JSON files per configuration, asks the predictor
  for the trained parameters, and for every checkpoint and fold writes an ONNX file and a
  \<^verbatim>\<open>config.json\<close> below the output directory.

  JSON values are the objects \<^verbatim>\<open>json.load\<close> returns: a dictionary is an association list
  in insertion order, with string keys. Floating point numbers are carried as their
  literal and never computed with.
\<close>

datatype json =
    JNull
  | JBool bool
  | JInt int
  | JFloat string
  | JStr string
  | JList "json list"
  | JObj "(string \<times> json) list"

text \<open>
  Tensors, network parameters and serialised ONNX graphs are opaque: the script only hands
  them from one library call to the next. A tensor keeps its shape; the number stands for
  its floating point contents.
\<close>

datatype tensor = Tensor (shape: "int list") (values_id: nat)

datatype params = Params nat

datatype onnx_model = OnnxModel nat

datatype dataset_ref = DatasetId int | DatasetName string

text \<open>A fold is \<^verbatim>\<open>Union[int, str]\<close> (the string is \<^verbatim>\<open>"all"\<close> in practice).\<close>

datatype fold = FoldInt int | FoldStr string

subsection \<open>Decimal rendering of integers, as \<^verbatim>\<open>str(int)\<close> does it\<close>

definition digit_char :: "nat \<Rightarrow> char" where
  "digit_char d = ''0123456789'' ! (d mod 10)"

function show_nat :: "nat \<Rightarrow> string" where
  "show_nat n = (if n < 10 then [digit_char n] else show_nat (n div 10) @ [digit_char (n mod 10)])"
  by pat_completeness auto
termination
  by (relation "measure (\<lambda>n. n)") auto

declare show_nat.simps [simp del]

definition show_int :: "int \<Rightarrow> string" where
  "show_int i = (if i < 0 then CHR ''-'' # show_nat (nat (- i)) else show_nat (nat i))"

definition fold_str :: "fold \<Rightarrow> string" where
  "fold_str f = (case f of FoldInt i \<Rightarrow> show_int i | FoldStr s \<Rightarrow> s)"

definition fold_json :: "fold \<Rightarrow> json" where
  "fold_json f = (case f of FoldInt i \<Rightarrow> JInt i | FoldStr s \<Rightarrow> JStr s)"

section \<open>The file system\<close>

text \<open>
  A path is a \<^verbatim>\<open>Path\<close> object or a path string, kept as the list of the segments it was made
  from: \<^verbatim>\<open>output_dir / c / "fold_0"\<close> is \<open>output_dir @ [c, ''fold_0'']\<close>, and so is
  \<^verbatim>\<open>join(d, "dataset.json")\<close>. A segment is any string. Where a path leads is decided by the
  file operation that receives it: \<open>parse\<close> reads the segments as \<^verbatim>\<open>pathlib\<close> and the
  operating system do, and \<open>walk\<close> follows the components through the directories.
\<close>

type_synonym path = "string list"

datatype content =
    EmptyFile
  | JsonText json
  | OnnxBytes onnx_model
  | OtherBytes nat

datatype node = File content | Dir "(string \<times> node) list"

datatype error =
    ValueError string
  | RuntimeError string
  | FileNotFoundError path
  | NotADirectoryError path
  | IsADirectoryError path
  | FileExistsError path
  | JSONDecodeError path
  | KeyError string
  | TypeError string
  | AttributeError string
  | IndexError
  | Raised string

text \<open>
  \<open>Raised\<close> is an exception that leaves one of the library calls the script makes
  (\<^verbatim>\<open>torch\<close>, \<^verbatim>\<open>onnx\<close>, \<^verbatim>\<open>onnxruntime\<close>, the predictor); the other constructors are the
  exceptions of the script's own statements and of the file operations.
\<close>

text \<open>
  \<open>is_value_error e\<close>: the exception is an instance of \<^verbatim>\<open>ValueError\<close>, as
  \<^verbatim>\<open>isinstance(e, ValueError)\<close> tells it. \<^verbatim>\<open>json.JSONDecodeError\<close> is a subclass of
  \<^verbatim>\<open>ValueError\<close>. The class of an exception raised inside a library call is not recorded
  (\<open>Raised\<close> carries its message only), so no such exception is counted.
\<close>

definition is_value_error :: "error \<Rightarrow> bool" where
  "is_value_error e = (case e of ValueError m \<Rightarrow> True | JSONDecodeError p \<Rightarrow> True | _ \<Rightarrow> False)"

text \<open>The exceptions of the file operations.\<close>

definition os_error :: "error \<Rightarrow> bool" where
  "os_error e =
     (case e of
        FileNotFoundError p \<Rightarrow> True
      | NotADirectoryError p \<Rightarrow> True
      | IsADirectoryError p \<Rightarrow> True
      | FileExistsError p \<Rightarrow> True
      | _ \<Rightarrow> False)"

subsection \<open>Segments and components\<close>

text \<open>
  A segment is cut at every \<^verbatim>\<open>/\<close>; empty pieces and \<^verbatim>\<open>.\<close> are dropped, \<^verbatim>\<open>..\<close> is kept. A
  segment that starts with \<^verbatim>\<open>/\<close> is absolute: it replaces everything joined before it.
  \<open>parse\<close> yields whether the path is absolute, and its components.
\<close>

fun split_at :: "char \<Rightarrow> string \<Rightarrow> string list" where
  "split_at d [] = [[]]"
| "split_at d (x # xs) =
     (if x = d then [] # split_at d xs
      else (case split_at d xs of [] \<Rightarrow> [[x]] | w # ws \<Rightarrow> (x # w) # ws))"

definition components :: "string \<Rightarrow> string list" where
  "components s = filter (\<lambda>x. x \<noteq> [] \<and> x \<noteq> ''.'') (split_at (CHR ''/'') s)"

definition absolute :: "string \<Rightarrow> bool" where
  "absolute s = (case s of [] \<Rightarrow> False | x # xs \<Rightarrow> x = CHR ''/'')"

definition join_segment :: "bool \<times> string list \<Rightarrow> string \<Rightarrow> bool \<times> string list" where
  "join_segment pc s =
     (if absolute s then (True, components s) else (fst pc, snd pc @ components s))"

definition parse :: "path \<Rightarrow> bool \<times> string list" where
  "parse p = foldl join_segment (False, []) p"

text \<open>How a path is printed inside a message (\<^verbatim>\<open>str\<close> of a \<^verbatim>\<open>Path\<close>).\<close>

fun join_slash :: "string list \<Rightarrow> string" where
  "join_slash [] = []"
| "join_slash [x] = x"
| "join_slash (x # y # ys) = x @ ''/'' @ join_slash (y # ys)"

definition path_str :: "path \<Rightarrow> string" where
  "path_str p =
     (case parse p of
        (ab, cs) \<Rightarrow>
          if ab then CHR ''/'' # join_slash cs
          else if cs = [] then ''.'' else join_slash cs)"

subsection \<open>The tree of directories\<close>

text \<open>
  The file system is the tree below the root directory, together with the working
  directory of the process, given by its names from the root. \<open>lookup\<close> follows names from
  a node.
\<close>

record filesystem =
  tree :: node
  cwd :: "string list"

fun lookup :: "node \<Rightarrow> string list \<Rightarrow> node option" where
  "lookup n [] = Some n"
| "lookup (File c) (x # xs) = None"
| "lookup (Dir es) (x # xs) = (case map_of es x of None \<Rightarrow> None | Some n \<Rightarrow> lookup n xs)"

text \<open>
  \<open>walk t p cur cs\<close> follows the components \<open>cs\<close> from the directory \<open>cur\<close>, as the
  operating system resolves a path: every component is looked up in a directory that
  exists (\<^verbatim>\<open>ENOENT\<close> and \<^verbatim>\<open>ENOTDIR\<close> otherwise), and \<^verbatim>\<open>..\<close> leads to the parent, which for the
  root is the root. The result is the place the path leads to, by its names from the root;
  nothing need exist there. \<open>p\<close> is the path named in the exception. A relative path starts
  in the working directory, an absolute one at the root.
\<close>

fun walk :: "node \<Rightarrow> path \<Rightarrow> string list \<Rightarrow> string list \<Rightarrow> error + string list" where
  "walk t p cur [] = Inr cur"
| "walk t p cur (x # xs) =
     (case lookup t cur of
        None \<Rightarrow> Inl (FileNotFoundError p)
      | Some (File c) \<Rightarrow> Inl (NotADirectoryError p)
      | Some (Dir es) \<Rightarrow> walk t p (if x = ''..'' then butlast cur else cur @ [x]) xs)"

definition start :: "filesystem \<Rightarrow> bool \<Rightarrow> string list" where
  "start r ab = (if ab then [] else cwd r)"

definition locate :: "filesystem \<Rightarrow> path \<Rightarrow> error + string list" where
  "locate r p = (case parse p of (ab, cs) \<Rightarrow> walk (tree r) p (start r ab) cs)"

text \<open>
  \<^verbatim>\<open>Path.exists\<close> and \<^verbatim>\<open>os.path.isdir\<close> answer \<^verbatim>\<open>False\<close> when the path cannot be
  followed.
\<close>

definition path_exists :: "filesystem \<Rightarrow> path \<Rightarrow> bool" where
  "path_exists r p =
     (case locate r p of Inl e \<Rightarrow> False | Inr q \<Rightarrow> lookup (tree r) q \<noteq> None)"

definition isdir :: "filesystem \<Rightarrow> path \<Rightarrow> bool" where
  "isdir r p =
     (case locate r p of
        Inl e \<Rightarrow> False
      | Inr q \<Rightarrow> (case lookup (tree r) q of Some (Dir es) \<Rightarrow> True | _ \<Rightarrow> False))"

definition iterdir :: "filesystem \<Rightarrow> path \<Rightarrow> error + string list" where
  "iterdir r p =
     (case locate r p of
        Inl e \<Rightarrow> Inl e
      | Inr q \<Rightarrow>
          (case lookup (tree r) q of
             None \<Rightarrow> Inl (FileNotFoundError p)
           | Some (File c) \<Rightarrow> Inl (NotADirectoryError p)
           | Some (Dir es) \<Rightarrow> Inr (map fst es)))"

definition open_read :: "filesystem \<Rightarrow> path \<Rightarrow> error + content" where
  "open_read r p =
     (case locate r p of
        Inl e \<Rightarrow> Inl e
      | Inr q \<Rightarrow>
          (case lookup (tree r) q of
             None \<Rightarrow> Inl (FileNotFoundError p)
           | Some (Dir es) \<Rightarrow> Inl (IsADirectoryError p)
           | Some (File c) \<Rightarrow> Inr c))"

text \<open>
  Opening a file for writing creates it in an existing directory or replaces its content;
  it never creates a directory.
\<close>

fun put_file :: "node \<Rightarrow> string list \<Rightarrow> content \<Rightarrow> node option" where
  "put_file (File c0) [] c = Some (File c)"
| "put_file (Dir es) [] c = None"
| "put_file (File c0) (x # xs) c = None"
| "put_file (Dir es) (x # xs) c =
     (case map_of es x of
        None \<Rightarrow> (if xs = [] then Some (Dir (es @ [(x, File c)])) else None)
      | Some n \<Rightarrow>
          (case put_file n xs c of
             None \<Rightarrow> None
           | Some n' \<Rightarrow> Some (Dir (AList.update x n' es))))"

definition open_write :: "filesystem \<Rightarrow> path \<Rightarrow> content \<Rightarrow> error + filesystem" where
  "open_write r p c =
     (case locate r p of
        Inl e \<Rightarrow> Inl e
      | Inr q \<Rightarrow>
          (case put_file (tree r) q c of
             Some t \<Rightarrow> Inr (r\<lparr>tree := t\<rparr>)
           | None \<Rightarrow> Inl (IsADirectoryError p)))"

text \<open>
  \<^verbatim>\<open>os.mkdir\<close> creates one directory inside an existing one. \<^verbatim>\<open>Path.mkdir(parents=True)\<close>
  tries \<^verbatim>\<open>os.mkdir\<close>; on \<^verbatim>\<open>FileNotFoundError\<close> it first makes the parent (the path without
  its last component) in the same way, accepting that it exists, and then tries once more;
  any other error is passed on, unless an existing directory is accepted.
\<close>

fun put_dir :: "node \<Rightarrow> string list \<Rightarrow> node option" where
  "put_dir n [] = None"
| "put_dir (File c) (x # xs) = None"
| "put_dir (Dir es) (x # xs) =
     (case map_of es x of
        None \<Rightarrow> (if xs = [] then Some (Dir (es @ [(x, Dir [])])) else None)
      | Some n \<Rightarrow>
          (if xs = [] then None
           else (case put_dir n xs of
                   None \<Rightarrow> None
                 | Some n' \<Rightarrow> Some (Dir (AList.update x n' es)))))"

definition os_mkdir :: "filesystem \<Rightarrow> path \<Rightarrow> bool \<Rightarrow> string list \<Rightarrow> error + filesystem" where
  "os_mkdir r p ab cs =
     (case walk (tree r) p (start r ab) cs of
        Inl e \<Rightarrow> Inl e
      | Inr q \<Rightarrow>
          (case lookup (tree r) q of
             Some n \<Rightarrow> Inl (FileExistsError p)
           | None \<Rightarrow>
               (case put_dir (tree r) q of
                  Some t \<Rightarrow> Inr (r\<lparr>tree := t\<rparr>)
                | None \<Rightarrow> Inl (FileNotFoundError p))))"

definition is_dir_at :: "filesystem \<Rightarrow> path \<Rightarrow> bool \<Rightarrow> string list \<Rightarrow> bool" where
  "is_dir_at r p ab cs =
     (case walk (tree r) p (start r ab) cs of
        Inl e \<Rightarrow> False
      | Inr q \<Rightarrow> (case lookup (tree r) q of Some (Dir es) \<Rightarrow> True | _ \<Rightarrow> False))"

definition not_found :: "error \<Rightarrow> bool" where
  "not_found e = (case e of FileNotFoundError p \<Rightarrow> True | _ \<Rightarrow> False)"

definition mkdir_once ::
  "filesystem \<Rightarrow> path \<Rightarrow> bool \<Rightarrow> string list \<Rightarrow> bool \<Rightarrow> error + filesystem" where
  "mkdir_once r p ab cs exist_ok =
     (case os_mkdir r p ab cs of
        Inr r' \<Rightarrow> Inr r'
      | Inl e \<Rightarrow>
          (if not_found e then Inl e
           else if exist_ok \<and> is_dir_at r p ab cs then Inr r else Inl e))"

function mkdir_all ::
  "filesystem \<Rightarrow> path \<Rightarrow> bool \<Rightarrow> string list \<Rightarrow> bool \<Rightarrow> error + filesystem" where
  "mkdir_all r p ab cs exist_ok =
     (case os_mkdir r p ab cs of
        Inr r' \<Rightarrow> Inr r'
      | Inl e \<Rightarrow>
          (if not_found e then
             (if cs = [] then Inl e
              else (case mkdir_all r p ab (butlast cs) True of
                      Inl e' \<Rightarrow> Inl e'
                    | Inr r1 \<Rightarrow> mkdir_once r1 p ab cs exist_ok))
           else if exist_ok \<and> is_dir_at r p ab cs then Inr r else Inl e))"
  by pat_completeness auto
termination
  by (relation "measure (\<lambda>(r, p, ab, cs, exist_ok). length cs)") auto

declare mkdir_all.simps [simp del]

definition mkdir_parents :: "filesystem \<Rightarrow> path \<Rightarrow> error + filesystem" where
  "mkdir_parents r p = (case parse p of (ab, cs) \<Rightarrow> mkdir_all r p ab cs False)"

section \<open>Effects, state and the library calls\<close>

text \<open>
  Every call that leaves the script and every file operation is recorded, in the order in
  which the script performs it. The file system and the record of calls make up the state;
  \<open>rng\<close> counts the random tensors drawn so far.
\<close>

datatype event =
    EvPrint string
  | EvConvertDatasetName dataset_ref
  | EvGetOutputFolder string string string string
  | EvLoadJson path
  | EvInitialize path "fold list" string
  | EvLoadStateDict params
  | EvNetworkEval
  | EvMkdir path
  | EvTorchRand "int list"
  | EvNetworkCall params tensor
  | EvOnnxExport path params tensor bool
  | EvOnnxLoad path
  | EvCheckModel onnx_model
  | EvInferenceSession path "string list"
  | EvSessionRun path tensor
  | EvAssertAllclose tensor tensor
  | EvOpenWrite path
  | EvJsonDump path json

record state =
  fs :: filesystem
  trace :: "event list"
  rng :: nat

text \<open>
  The fields of the predictor's configuration manager that the script reads.
\<close>

record configuration_manager =
  patch_size :: "int list"
  spacing :: json
  normalization_schemes :: json
  UNet_class_name :: json
  UNet_base_num_features :: json
  unet_max_num_features :: json
  conv_kernel_sizes :: json
  pool_op_kernel_sizes :: json
  num_pool_per_axis :: json

text \<open>
  The functions the script imports. None of them is defined in the script, so each is a
  parameter: a result \<open>Inl m\<close> (or \<open>Some m\<close>) is an exception raised inside the call.
  \<open>initialize_from_trained_model_folder\<close> reads the trained model folder and yields
  \<^verbatim>\<open>predictor.list_of_parameters\<close> and \<^verbatim>\<open>predictor.configuration_manager\<close>;
  \<open>assert_allclose\<close> is \<^verbatim>\<open>np.testing.assert_allclose\<close> with the script's tolerances and
  yields the text of the \<^verbatim>\<open>AssertionError\<close> when the outputs differ.
\<close>

record env =
  maybe_convert_to_dataset_name :: "dataset_ref \<Rightarrow> string + string"
  get_output_folder :: "string \<Rightarrow> string \<Rightarrow> string \<Rightarrow> string \<Rightarrow> path"
  initialize_from_trained_model_folder ::
    "filesystem \<Rightarrow> path \<Rightarrow> fold list \<Rightarrow> string \<Rightarrow> string + (params list \<times> configuration_manager)"
  torch_rand :: "nat \<Rightarrow> int list \<Rightarrow> string + tensor"
  network_call :: "params \<Rightarrow> tensor \<Rightarrow> string + tensor"
  torch_onnx_export :: "params \<Rightarrow> tensor \<Rightarrow> bool \<Rightarrow> bool \<Rightarrow> string + onnx_model"
  check_model :: "onnx_model \<Rightarrow> string option"
  inference_session :: "onnx_model \<Rightarrow> string list \<Rightarrow> string option"
  session_run :: "onnx_model \<Rightarrow> tensor \<Rightarrow> string + tensor list"
  assert_allclose :: "tensor \<Rightarrow> tensor \<Rightarrow> string option"

record args =
  dataset_name_or_id :: dataset_ref
  output_dir :: path
  configurations :: "string list"
  batch_size :: int
  trainer :: string
  plans_identifier :: string
  folds :: "fold list"
  strict :: bool
  save_checkpoints :: "string list"
  output_names :: "string list option"
  verbose :: bool

subsection \<open>Sequencing\<close>

text \<open>
  A statement maps a state to a result and the state it leaves behind; an exception
  (\<open>Inl\<close>) ends the statements that follow it. A \<^verbatim>\<open>for\<close> loop runs its body on each
  element in turn and stops at the first exception.
\<close>

definition and_then ::
  "('s \<Rightarrow> (error + 'a) \<times> 's) \<Rightarrow> ('a \<Rightarrow> 's \<Rightarrow> (error + 'b) \<times> 's) \<Rightarrow> 's \<Rightarrow> (error + 'b) \<times> 's" where
  "and_then m f s = (case m s of (Inl e, s') \<Rightarrow> (Inl e, s') | (Inr x, s') \<Rightarrow> f x s')"

primrec for_each ::
  "('a \<Rightarrow> 's \<Rightarrow> (error + unit) \<times> 's) \<Rightarrow> 'a list \<Rightarrow> 's \<Rightarrow> (error + unit) \<times> 's" where
  "for_each body [] s = (Inr (), s)"
| "for_each body (x # xs) s =
     (case body x s of (Inl e, s') \<Rightarrow> (Inl e, s') | (Inr u, s') \<Rightarrow> for_each body xs s')"

definition ret :: "'a \<Rightarrow> 's \<Rightarrow> (error + 'a) \<times> 's" where
  "ret x s = (Inr x, s)"

definition raise :: "error \<Rightarrow> 's \<Rightarrow> (error + 'a) \<times> 's" where
  "raise e s = (Inl e, s)"

definition emit :: "event \<Rightarrow> state \<Rightarrow> (error + unit) \<times> state" where
  "emit ev st = (Inr (), st\<lparr>trace := trace st @ [ev]\<rparr>)"

definition callee :: "string + 'a \<Rightarrow> 's \<Rightarrow> (error + 'a) \<times> 's" where
  "callee r s = (case r of Inl m \<Rightarrow> (Inl (Raised m), s) | Inr x \<Rightarrow> (Inr x, s))"

definition callee_check :: "string option \<Rightarrow> 's \<Rightarrow> (error + unit) \<times> 's" where
  "callee_check r s = (case r of Some m \<Rightarrow> (Inl (Raised m), s) | None \<Rightarrow> (Inr (), s))"

definition print :: "string \<Rightarrow> state \<Rightarrow> (error + unit) \<times> state" where
  "print s = emit (EvPrint s)"

section \<open>The metadata dictionary (lines 155 to 190)\<close>

text \<open>
  \<open>getitem d k\<close> is the subscription \<^verbatim>\<open>d[k]\<close> with a string key, \<open>dict_items\<close> is what
  \<^verbatim>\<open>.keys()\<close> and \<^verbatim>\<open>.items()\<close> need: both fail on a value that is not a dictionary.
\<close>

definition getitem :: "json \<Rightarrow> string \<Rightarrow> error + json" where
  "getitem d k =
     (case d of
        JObj kvs \<Rightarrow> (case map_of kvs k of None \<Rightarrow> Inl (KeyError k) | Some v \<Rightarrow> Inr v)
      | _ \<Rightarrow> Inl (TypeError ''subscript''))"

definition dict_items :: "json \<Rightarrow> error + (string \<times> json) list" where
  "dict_items d = (case d of JObj kvs \<Rightarrow> Inr kvs | _ \<Rightarrow> Inl (AttributeError ''keys''))"

text \<open>
  The comprehension \<^verbatim>\<open>{k: {"name": v, "foreground_properties": props[k]} for k, v in items}\<close>.
  A key that comes again keeps its place and takes the new value, as in a Python dictionary.
\<close>

fun channels_dict ::
  "json \<Rightarrow> (string \<times> json) list \<Rightarrow> (string \<times> json) list \<Rightarrow> error + (string \<times> json) list" where
  "channels_dict props [] acc = Inr acc"
| "channels_dict props ((k, v) # rest) acc =
     (case getitem props k of
        Inl e \<Rightarrow> Inl e
      | Inr p \<Rightarrow>
          channels_dict props rest
            (AList.update k (JObj [(''name'', v), (''foreground_properties'', p)]) acc))"

text \<open>
  The comprehension \<^verbatim>\<open>{v: k for k, v in labels.items()}\<close> uses the label values as keys:
  a list or a dictionary is not hashable. The keys are compared as values (Python's
  \<^verbatim>\<open>1 == True == 1.0\<close> is left out), and \<^verbatim>\<open>json.dump\<close> writes each key as a string.
\<close>

definition hashable :: "json \<Rightarrow> bool" where
  "hashable v = (case v of JList xs \<Rightarrow> False | JObj kvs \<Rightarrow> False | _ \<Rightarrow> True)"

fun class_names_dict ::
  "(string \<times> json) list \<Rightarrow> (json \<times> json) list \<Rightarrow> error + (json \<times> json) list" where
  "class_names_dict [] acc = Inr acc"
| "class_names_dict ((k, v) # rest) acc =
     (if hashable v then class_names_dict rest (AList.update v (JStr k) acc)
      else Inl (TypeError ''unhashable''))"

definition dump_key :: "json \<Rightarrow> string" where
  "dump_key k =
     (case k of
        JStr s \<Rightarrow> s
      | JInt i \<Rightarrow> show_int i
      | JBool b \<Rightarrow> (if b then ''true'' else ''false'')
      | JNull \<Rightarrow> ''null''
      | JFloat s \<Rightarrow> s
      | _ \<Rightarrow> [])"

definition use_dynamic_axes :: "args \<Rightarrow> bool" where
  "use_dynamic_axes a = (batch_size a = 0)"

definition model_parameters :: "args \<Rightarrow> configuration_manager \<Rightarrow> json" where
  "model_parameters a config =
     JObj [
       (''batch_size'', if \<not> use_dynamic_axes a then JInt (batch_size a) else JStr ''dynamic''),
       (''patch_size'', JList (map JInt (patch_size config))),
       (''spacing'', spacing config),
       (''normalization_schemes'', normalization_schemes config),
       (''UNet_class_name'', UNet_class_name config),
       (''UNet_base_num_features'', UNet_base_num_features config),
       (''unet_max_num_features'', unet_max_num_features config),
       (''conv_kernel_sizes'', conv_kernel_sizes config),
       (''pool_op_kernel_sizes'', pool_op_kernel_sizes config),
       (''num_pool_per_axis'', num_pool_per_axis config)]"

definition dataset_parameters :: "string \<Rightarrow> json \<Rightarrow> json \<Rightarrow> error + json" where
  "dataset_parameters dataset_name dataset_json props =
     (case getitem dataset_json ''channel_names'' of Inl e \<Rightarrow> Inl e | Inr cn \<Rightarrow>
      case dict_items cn of Inl e \<Rightarrow> Inl e | Inr cn_items \<Rightarrow>
      case channels_dict props cn_items [] of Inl e \<Rightarrow> Inl e | Inr channels \<Rightarrow>
      case getitem dataset_json ''labels'' of Inl e \<Rightarrow> Inl e | Inr lb \<Rightarrow>
      case dict_items lb of Inl e \<Rightarrow> Inl e | Inr lb_items \<Rightarrow>
      case class_names_dict lb_items [] of Inl e \<Rightarrow> Inl e | Inr class_names \<Rightarrow>
        Inr (JObj [
          (''dataset_name'', JStr dataset_name),
          (''num_channels'', JInt (int (length cn_items))),
          (''channels'', JObj channels),
          (''num_classes'', JInt (int (length lb_items))),
          (''class_names'', JObj (map (\<lambda>(k, v). (dump_key k, v)) class_names))]))"

definition config_dict ::
  "args \<Rightarrow> string \<Rightarrow> fold \<Rightarrow> configuration_manager \<Rightarrow> string \<Rightarrow> json \<Rightarrow> json \<Rightarrow> error + json" where
  "config_dict a c f config dataset_name dataset_json props =
     (case dataset_parameters dataset_name dataset_json props of
        Inl e \<Rightarrow> Inl e
      | Inr dp \<Rightarrow>
          Inr (JObj [
            (''configuration'', JStr c),
            (''fold'', fold_json f),
            (''model_parameters'', model_parameters a config),
            (''dataset_parameters'', dp)]))"

section \<open>The statements of \<^verbatim>\<open>export_onnx_model\<close>\<close>

subsection \<open>File and library calls\<close>

text \<open>\<^verbatim>\<open>load_json\<close> opens the file and parses it.\<close>

definition load_json :: "path \<Rightarrow> state \<Rightarrow> (error + json) \<times> state" where
  "load_json p =
     and_then (emit (EvLoadJson p)) (\<lambda>_ st.
       case open_read (fs st) p of
         Inl e \<Rightarrow> (Inl e, st)
       | Inr (JsonText j) \<Rightarrow> (Inr j, st)
       | Inr _ \<Rightarrow> (Inl (JSONDecodeError p), st))"

definition write_to :: "path \<Rightarrow> content \<Rightarrow> state \<Rightarrow> (error + unit) \<times> state" where
  "write_to p c st =
     (case open_write (fs st) p c of
        Inl e \<Rightarrow> (Inl e, st)
      | Inr r \<Rightarrow> (Inr (), st\<lparr>fs := r\<rparr>))"

definition draw_rand :: "env \<Rightarrow> int list \<Rightarrow> state \<Rightarrow> (error + tensor) \<times> state" where
  "draw_rand env shp =
     and_then (emit (EvTorchRand shp)) (\<lambda>_ st.
       callee (torch_rand env (rng st) shp) (st\<lparr>rng := Suc (rng st)\<rparr>))"

definition call_network :: "env \<Rightarrow> params \<Rightarrow> tensor \<Rightarrow> state \<Rightarrow> (error + tensor) \<times> state" where
  "call_network env prm x =
     and_then (emit (EvNetworkCall prm x)) (\<lambda>_. callee (network_call env prm x))"

text \<open>
  \<^verbatim>\<open>torch.onnx.export(network, rand_input, path, ...)\<close>: the exporter serialises the
  network and writes the result to the path.
\<close>

definition onnx_export ::
  "env \<Rightarrow> params \<Rightarrow> tensor \<Rightarrow> bool \<Rightarrow> bool \<Rightarrow> path \<Rightarrow> state \<Rightarrow> (error + unit) \<times> state" where
  "onnx_export env prm x dyn vb p =
     and_then (emit (EvOnnxExport p prm x dyn)) (\<lambda>_.
     and_then (callee (torch_onnx_export env prm x dyn vb)) (\<lambda>m.
       write_to p (OnnxBytes m)))"

definition read_onnx :: "path \<Rightarrow> state \<Rightarrow> (error + onnx_model) \<times> state" where
  "read_onnx p st =
     (case open_read (fs st) p of
        Inl e \<Rightarrow> (Inl e, st)
      | Inr (OnnxBytes m) \<Rightarrow> (Inr m, st)
      | Inr _ \<Rightarrow> (Inl (Raised ''DecodeError''), st))"

definition onnx_load :: "path \<Rightarrow> state \<Rightarrow> (error + onnx_model) \<times> state" where
  "onnx_load p = and_then (emit (EvOnnxLoad p)) (\<lambda>_. read_onnx p)"

definition onnx_checker :: "env \<Rightarrow> onnx_model \<Rightarrow> state \<Rightarrow> (error + unit) \<times> state" where
  "onnx_checker env m =
     and_then (emit (EvCheckModel m)) (\<lambda>_. callee_check (check_model env m))"

text \<open>
  \<^verbatim>\<open>onnxruntime.InferenceSession(path, providers=...)\<close> reads the file again; the session
  is the graph it has read.
\<close>

definition create_session ::
  "env \<Rightarrow> path \<Rightarrow> string list \<Rightarrow> state \<Rightarrow> (error + onnx_model) \<times> state" where
  "create_session env p providers =
     and_then (emit (EvInferenceSession p providers)) (\<lambda>_.
     and_then (read_onnx p) (\<lambda>m.
     and_then (callee_check (inference_session env m providers)) (\<lambda>_.
       ret m)))"

definition run_session ::
  "env \<Rightarrow> path \<Rightarrow> onnx_model \<Rightarrow> tensor \<Rightarrow> state \<Rightarrow> (error + tensor list) \<times> state" where
  "run_session env p m x =
     and_then (emit (EvSessionRun p x)) (\<lambda>_. callee (session_run env m x))"

subsection \<open>The body of the loop over the folds (lines 84 to 196)\<close>

text \<open>Lines 88 to 95: the output directory is created, or must be empty.\<close>

definition not_empty_message :: "path \<Rightarrow> string" where
  "not_empty_message d = ''Output directory '' @ path_str d @ '' is not empty''"

definition prepare_output_dir :: "path \<Rightarrow> state \<Rightarrow> (error + unit) \<times> state" where
  "prepare_output_dir d st =
     (if \<not> path_exists (fs st) d then
        and_then (emit (EvMkdir d)) (\<lambda>_ s.
          case mkdir_parents (fs s) d of
            Inl e \<Rightarrow> (Inl e, s)
          | Inr r \<Rightarrow> (Inr (), s\<lparr>fs := r\<rparr>)) st
      else
        (case iterdir (fs st) d of
           Inl e \<Rightarrow> (Inl e, st)
         | Inr names \<Rightarrow>
             if length names > 0 then (Inl (RuntimeError (not_empty_message d)), st)
             else (Inr (), st)))"

text \<open>
  Lines 97 to 126: a random input is drawn, the network is run on it and the exporter is
  called. The two branches differ in the first dimension of the input and in the dynamic
  axes.
\<close>

definition run_and_export ::
  "env \<Rightarrow> args \<Rightarrow> params \<Rightarrow> int list \<Rightarrow> bool \<Rightarrow> path \<Rightarrow> state \<Rightarrow> (error + tensor \<times> tensor) \<times> state" where
  "run_and_export env a prm shp dyn p =
     and_then (draw_rand env shp) (\<lambda>rand_input.
     and_then (call_network env prm rand_input) (\<lambda>torch_output.
     and_then (onnx_export env prm rand_input dyn (verbose a) p) (\<lambda>_.
       ret (rand_input, torch_output))))"

definition export_artifact ::
  "env \<Rightarrow> args \<Rightarrow> configuration_manager \<Rightarrow> params \<Rightarrow> path \<Rightarrow> state \<Rightarrow> (error + tensor \<times> tensor) \<times> state" where
  "export_artifact env a config prm p =
     (if use_dynamic_axes a then run_and_export env a prm (1 # 1 # patch_size config) True p
      else run_and_export env a prm (batch_size a # 1 # patch_size config) False p)"

text \<open>Lines 128 to 135: the exported file is loaded, checked and run on the same input.\<close>

definition reload_and_run ::
  "env \<Rightarrow> path \<Rightarrow> tensor \<Rightarrow> state \<Rightarrow> (error + tensor list) \<times> state" where
  "reload_and_run env p rand_input =
     and_then (onnx_load p) (\<lambda>onnx_model.
     and_then (onnx_checker env onnx_model) (\<lambda>_.
     and_then (create_session env p [''CPUExecutionProvider'']) (\<lambda>ort_session.
       run_session env p ort_session rand_input)))"

text \<open>
  Lines 137 to 150: the two outputs are compared; only the \<^verbatim>\<open>AssertionError\<close> of the
  comparison is caught, and answered with three printed lines.
\<close>

definition warn_head :: string where
  "warn_head = ''WARN: Differences found between torch and onnx:'' @ [CHR 0x0A]"

definition warn_tail :: string where
  "warn_tail =
     CHR 0x0A # ''Export will continue, but please verify that your pipeline matches the original.''"

definition compare_outputs ::
  "env \<Rightarrow> tensor \<Rightarrow> tensor list \<Rightarrow> state \<Rightarrow> (error + unit) \<times> state" where
  "compare_outputs env torch_output ort_outs =
     (case ort_outs of
        [] \<Rightarrow> raise IndexError
      | out0 # _ \<Rightarrow>
          and_then (emit (EvAssertAllclose torch_output out0)) (\<lambda>_.
            case assert_allclose env torch_output out0 of
              None \<Rightarrow> ret ()
            | Some msg \<Rightarrow>
                and_then (print warn_head) (\<lambda>_.
                and_then (print msg) (\<lambda>_.
                  print warn_tail))))"

text \<open>
  Lines 154 to 196: \<^verbatim>\<open>config.json\<close> is opened for writing (which creates or empties it),
  then the dictionary is built, then it is dumped into the open file.
\<close>

definition write_metadata ::
  "args \<Rightarrow> string \<Rightarrow> fold \<Rightarrow> configuration_manager \<Rightarrow> string \<Rightarrow> json \<Rightarrow> json \<Rightarrow> path \<Rightarrow>
   state \<Rightarrow> (error + unit) \<times> state" where
  "write_metadata a c f config dataset_name dataset_json props p =
     and_then (emit (EvOpenWrite p)) (\<lambda>_.
     and_then (write_to p EmptyFile) (\<lambda>_.
       case config_dict a c f config dataset_name dataset_json props of
         Inl e \<Rightarrow> raise e
       | Inr d \<Rightarrow>
           and_then (emit (EvJsonDump p d)) (\<lambda>_.
             write_to p (JsonText d))))"

definition curr_output_dir :: "args \<Rightarrow> string \<Rightarrow> fold \<Rightarrow> path" where
  "curr_output_dir a c f = output_dir a @ [c, ''fold_'' @ fold_str f]"

definition export_fold ::
  "env \<Rightarrow> args \<Rightarrow> string \<Rightarrow> string \<Rightarrow> json \<Rightarrow> json \<Rightarrow> configuration_manager \<Rightarrow> string \<Rightarrow>
   fold \<times> params \<Rightarrow> state \<Rightarrow> (error + unit) \<times> state" where
  "export_fold env a dataset_name c dataset_json props config output_name fp =
     (case fp of (f, prm) \<Rightarrow>
        and_then (emit (EvLoadStateDict prm)) (\<lambda>_.
        and_then (emit EvNetworkEval) (\<lambda>_.
        and_then (prepare_output_dir (curr_output_dir a c f)) (\<lambda>_.
        and_then (export_artifact env a config prm (curr_output_dir a c f @ [output_name]))
          (\<lambda>(rand_input, torch_output).
        and_then (reload_and_run env (curr_output_dir a c f @ [output_name]) rand_input)
          (\<lambda>ort_outs.
        and_then (compare_outputs env torch_output ort_outs) (\<lambda>_.
        and_then (print (''Exported '' @ path_str (curr_output_dir a c f @ [output_name]))) (\<lambda>_.
          write_metadata a c f config dataset_name dataset_json props
            (curr_output_dir a c f @ [''config.json''])))))))))"

subsection \<open>The loop over the checkpoints (lines 71 to 83)\<close>

definition export_checkpoint ::
  "env \<Rightarrow> args \<Rightarrow> string \<Rightarrow> string \<Rightarrow> path \<Rightarrow> json \<Rightarrow> json \<Rightarrow> string \<times> string \<Rightarrow>
   state \<Rightarrow> (error + unit) \<times> state" where
  "export_checkpoint env a dataset_name c trainer_output_dir dataset_json props cn =
     (case cn of (checkpoint_name, output_name) \<Rightarrow>
        and_then (emit (EvInitialize trainer_output_dir (folds a) checkpoint_name)) (\<lambda>_ st.
        and_then
          (callee (initialize_from_trained_model_folder env (fs st) trainer_output_dir (folds a)
             checkpoint_name))
          (\<lambda>(list_of_parameters, config).
             for_each (export_fold env a dataset_name c dataset_json props config output_name)
               (zip (folds a) list_of_parameters)) st))"

subsection \<open>The output names (lines 36 and 37)\<close>

text \<open>
  \<^verbatim>\<open>checkpoint[:-4]\<close> drops the last four characters, and is empty for a shorter name.
  When no names are given, \<^verbatim>\<open>output_names\<close> is a generator expression over the
  checkpoints: a generator is consumed by the \<^verbatim>\<open>zip\<close> that reads it, and stays where
  that \<^verbatim>\<open>zip\<close> left it. A tuple is read from its start by every \<^verbatim>\<open>zip\<close>.
\<close>

definition derived_name :: "string \<Rightarrow> string" where
  "derived_name checkpoint = take (length checkpoint - 4) checkpoint @ ''.onnx''"

datatype name_source = NameTuple "string list" | NameGenerator "string list"

definition initial_names :: "args \<Rightarrow> name_source" where
  "initial_names a =
     (case output_names a of
        None \<Rightarrow> NameGenerator (map derived_name (save_checkpoints a))
      | Some ns \<Rightarrow>
          if ns = [] then NameGenerator (map derived_name (save_checkpoints a))
          else NameTuple ns)"

definition pending :: "name_source \<Rightarrow> string list" where
  "pending names = (case names of NameTuple ns \<Rightarrow> ns | NameGenerator rest \<Rightarrow> rest)"

definition after_zip :: "nat \<Rightarrow> name_source \<Rightarrow> name_source" where
  "after_zip n names =
     (case names of
        NameTuple ns \<Rightarrow> NameTuple ns
      | NameGenerator rest \<Rightarrow> NameGenerator (drop n rest))"

subsection \<open>The body of the loop over the configurations (lines 46 to 196)\<close>

definition lift :: "error + 'a \<Rightarrow> 's \<Rightarrow> (error + 'a) \<times> 's" where
  "lift r s = (r, s)"

definition missing_model_message :: "string \<Rightarrow> string \<Rightarrow> string" where
  "missing_model_message dataset_name c =
     dataset_name @ '' is missing the trained model of configuration '' @ c"

definition skipping_message :: "string \<Rightarrow> string" where
  "skipping_message c = ''Skipping configuration '' @ c @ '', does not exist''"

definition configuration_body ::
  "env \<Rightarrow> args \<Rightarrow> string \<Rightarrow> string \<Rightarrow> name_source \<Rightarrow> state \<Rightarrow> (error + name_source) \<times> state" where
  "configuration_body env a dataset_name c names =
     and_then (print (''Configuration '' @ c)) (\<lambda>_.
     and_then (emit (EvGetOutputFolder dataset_name (trainer a) (plans_identifier a) c)) (\<lambda>_.
     let trainer_output_dir = get_output_folder env dataset_name (trainer a) (plans_identifier a) c in
     and_then (load_json (trainer_output_dir @ [''dataset.json''])) (\<lambda>dataset_json.
     and_then (load_json (trainer_output_dir @ [''plans.json''])) (\<lambda>plans.
     and_then (lift (getitem plans ''foreground_intensity_properties_per_channel'')) (\<lambda>props st.
       if \<not> isdir (fs st) trainer_output_dir then
         (if strict a then raise (RuntimeError (missing_model_message dataset_name c)) st
          else and_then (print (skipping_message c)) (\<lambda>_. ret names) st)
       else
         and_then
           (for_each
              (export_checkpoint env a dataset_name c trainer_output_dir dataset_json props)
              (zip (save_checkpoints a) (pending names)))
           (\<lambda>_. ret (after_zip (length (save_checkpoints a)) names)) st)))))"

definition export_configuration ::
  "env \<Rightarrow> args \<Rightarrow> string \<Rightarrow> string \<Rightarrow> name_source \<times> state \<Rightarrow>
   (error + unit) \<times> (name_source \<times> state)" where
  "export_configuration env a dataset_name c ns =
     (case ns of (names, st) \<Rightarrow>
        (case configuration_body env a dataset_name c names st of
           (Inl e, st') \<Rightarrow> (Inl e, (names, st'))
         | (Inr names', st') \<Rightarrow> (Inr (), (names', st'))))"

subsection \<open>The function\<close>

definition batch_size_message :: string where
  "batch_size_message = ''batch_size must be non-negative''"

definition export_onnx_model :: "env \<Rightarrow> args \<Rightarrow> state \<Rightarrow> (error + unit) \<times> state" where
  "export_onnx_model env a st =
     (let names = initial_names a in
      if batch_size a < 0 then raise (ValueError batch_size_message) st
      else
        (case and_then (emit (EvConvertDatasetName (dataset_name_or_id a))) (\<lambda>_.
                callee (maybe_convert_to_dataset_name env (dataset_name_or_id a))) st of
           (Inl e, st1) \<Rightarrow> (Inl e, st1)
         | (Inr dataset_name, st1) \<Rightarrow>
             (case for_each (export_configuration env a dataset_name) (configurations a)
                     (names, st1) of
                (r, (names', st2)) \<Rightarrow> (r, st2))))"

section \<open>A small installation, used to run the function\<close>

text \<open>
  One dataset with two trained configurations, each with a \<^verbatim>\<open>dataset.json\<close> and a
  \<^verbatim>\<open>plans.json\<close>; library calls that all succeed; the arguments are the defaults of the
  function restricted to the two trained configurations and one fold.
\<close>

definition demo_config :: configuration_manager where
  "demo_config = \<lparr> patch_size = [4, 4], spacing = JList [JFloat ''1.0'', JFloat ''1.0''],
     normalization_schemes = JList [JStr ''ZScoreNormalization''],
     UNet_class_name = JStr ''PlainConvUNet'', UNet_base_num_features = JInt 32,
     unet_max_num_features = JInt 512, conv_kernel_sizes = JList [JList [JInt 3, JInt 3]],
     pool_op_kernel_sizes = JList [JList [JInt 1, JInt 1]],
     num_pool_per_axis = JList [JInt 0, JInt 0] \<rparr>"

definition demo_env :: env where
  "demo_env = \<lparr>
     maybe_convert_to_dataset_name =
       (\<lambda>r. case r of DatasetId i \<Rightarrow> Inr ''Dataset001_Demo'' | DatasetName s \<Rightarrow> Inr s),
     get_output_folder = (\<lambda>ds tr pl c. [''results'', ds, tr @ ''__'' @ pl @ ''__'' @ c]),
     initialize_from_trained_model_folder =
       (\<lambda>r d fl ck. Inr (map Params [0..<length fl], demo_config)),
     torch_rand = (\<lambda>n shp. Inr (Tensor shp n)),
     network_call = (\<lambda>prm x. Inr (Tensor (shape x) 100)),
     torch_onnx_export = (\<lambda>prm x dyn vb. Inr (OnnxModel 7)),
     check_model = (\<lambda>m. None),
     inference_session = (\<lambda>m ps. None),
     session_run = (\<lambda>m x. Inr [Tensor (shape x) 101]),
     assert_allclose = (\<lambda>x y. None) \<rparr>"

definition demo_dataset_json :: json where
  "demo_dataset_json = JObj [(''channel_names'', JObj [(''0'', JStr ''CT'')]),
     (''labels'', JObj [(''background'', JInt 0), (''tumour'', JInt 1)])]"

definition demo_plans :: json where
  "demo_plans = JObj [(''foreground_intensity_properties_per_channel'',
      JObj [(''0'', JObj [(''mean'', JFloat ''0.5'')])])]"

definition model_folder :: node where
  "model_folder = Dir [(''dataset.json'', File (JsonText demo_dataset_json)),
                       (''plans.json'', File (JsonText demo_plans))]"

definition demo_fs :: node where
  "demo_fs = Dir [(''results'', Dir [(''Dataset001_Demo'',
       Dir [(''nnUNetTrainer__nnUNetPlans__2d'', model_folder),
            (''nnUNetTrainer__nnUNetPlans__3d_fullres'', model_folder)])])]"

definition demo_args :: args where
  "demo_args = \<lparr> dataset_name_or_id = DatasetId 1, output_dir = [''out''],
     configurations = [''2d'', ''3d_fullres''], batch_size = 0, trainer = ''nnUNetTrainer'',
     plans_identifier = ''nnUNetPlans'', folds = [FoldInt 0], strict = True,
     save_checkpoints = [''checkpoint_final.pth''], output_names = None, verbose = False \<rparr>"

text \<open>The process runs in the directory \<^verbatim>\<open>/work\<close>, which holds the tree \<open>t\<close>.\<close>

definition in_workdir :: "node \<Rightarrow> filesystem" where
  "in_workdir t = \<lparr> tree = Dir [(''work'', t)], cwd = [''work''] \<rparr>"

definition demo_state :: state where
  "demo_state = \<lparr> fs = in_workdir demo_fs, trace = [], rng = 0 \<rparr>"

text \<open>An output tree in which the directory of configuration 2d, fold 0 holds a file.\<close>

definition used_fs :: filesystem where
  "used_fs =
     in_workdir
       (Dir [(''out'', Dir [(''2d'', Dir [(''fold_0'', Dir [(''old.txt'', File (OtherBytes 0))])])])])"

text \<open>
  Variants of the installation: \<open>installation m out\<close> has the folder \<open>m\<close> as the trained
  model of configuration 2d and the entries \<open>out\<close> beside the results. In the first the
  \<^verbatim>\<open>dataset.json\<close> of 2d is an empty file; in the second its labels are region-based (the
  value of a label is a list of integers); in the third the output directory of
  configuration 3d_fullres, fold 0 holds a file.
\<close>

definition installation :: "node \<Rightarrow> (string \<times> node) list \<Rightarrow> filesystem" where
  "installation m out =
     in_workdir
       (Dir ((''results'', Dir [(''Dataset001_Demo'',
               Dir [(''nnUNetTrainer__nnUNetPlans__2d'', m),
                    (''nnUNetTrainer__nnUNetPlans__3d_fullres'', model_folder)])]) # out))"

definition unparsable_fs :: filesystem where
  "unparsable_fs =
     installation (Dir [(''dataset.json'', File EmptyFile),
                        (''plans.json'', File (JsonText demo_plans))]) []"

definition region_dataset_json :: json where
  "region_dataset_json = JObj [(''channel_names'', JObj [(''0'', JStr ''CT'')]),
     (''labels'', JObj [(''background'', JInt 0), (''whole_tumour'', JList [JInt 1, JInt 2])])]"

definition region_fs :: filesystem where
  "region_fs =
     installation (Dir [(''dataset.json'', File (JsonText region_dataset_json)),
                        (''plans.json'', File (JsonText demo_plans))]) []"

definition later_used_fs :: filesystem where
  "later_used_fs =
     installation model_folder
       [(''out'', Dir [(''3d_fullres'',
           Dir [(''fold_0'', Dir [(''old.txt'', File (OtherBytes 0))])])])]"

subsection \<open>The calls of one pass through the loop over the folds\<close>

text \<open>
  The events one pass through the body of the fold loop records when nothing fails, up to
  the message that the artifact has been exported: the parameters are loaded, the output
  directory is created (\<open>mk\<close>, empty when it exists), the input is drawn, the network is
  run, the exporter is called, the exported file is loaded, checked and run, the outputs are
  compared, and the warning (\<open>warn\<close>, empty when the outputs agree) is printed.
\<close>

definition export_events :: "int list \<Rightarrow> params \<Rightarrow> tensor \<Rightarrow> path \<Rightarrow> bool \<Rightarrow> event list" where
  "export_events shp prm x p dyn = [EvTorchRand shp, EvNetworkCall prm x, EvOnnxExport p prm x dyn]"

definition reload_events :: "path \<Rightarrow> onnx_model \<Rightarrow> tensor \<Rightarrow> event list" where
  "reload_events p m x =
     [EvOnnxLoad p, EvCheckModel m, EvInferenceSession p [''CPUExecutionProvider''], EvSessionRun p x]"

definition warning_events :: "string \<Rightarrow> event list" where
  "warning_events msg = [EvPrint warn_head, EvPrint msg, EvPrint warn_tail]"

definition input_shape :: "args \<Rightarrow> configuration_manager \<Rightarrow> int list" where
  "input_shape a config =
     (if use_dynamic_axes a then 1 # 1 # patch_size config else batch_size a # 1 # patch_size config)"

definition exported_message :: "path \<Rightarrow> string" where
  "exported_message q = ''Exported '' @ path_str q"

definition verify_events ::
  "path \<Rightarrow> params \<Rightarrow> string \<Rightarrow> event list \<Rightarrow> int list \<Rightarrow> bool \<Rightarrow> tensor \<Rightarrow> onnx_model \<Rightarrow>
   tensor \<Rightarrow> tensor \<Rightarrow> event list \<Rightarrow> event list" where
  "verify_events d prm oname mk shp dyn x m y out0 warn =
     [EvLoadStateDict prm, EvNetworkEval] @ mk @ export_events shp prm x (d @ [oname]) dyn @
     reload_events (d @ [oname]) m x @ [EvAssertAllclose y out0] @ warn @
     [EvPrint (exported_message (d @ [oname]))]"

text \<open>
  The result is a \<^verbatim>\<open>ValueError\<close> raised by a statement of the script itself (line 40 is
  the only one).
\<close>

definition script_value_error :: "error + 'a \<Rightarrow> bool" where
  "script_value_error r = (\<exists>m. r = Inl (ValueError m))"

subsection \<open>Exported files are loaded again\<close>

text \<open>
  \<open>resp_ok finished l\<close>: in the record \<open>l\<close>, every call of the exporter comes right after the
  call of the network on the same input, and is followed by the four calls that load, check
  and run the exported file; when the run has not \<open>finished\<close>, the record may end inside
  these four calls.
\<close>

definition is_export :: "event \<Rightarrow> bool" where
  "is_export ev = (case ev of EvOnnxExport q prm x dyn \<Rightarrow> True | _ \<Rightarrow> False)"

definition resp_ok :: "bool \<Rightarrow> event list \<Rightarrow> bool" where
  "resp_ok finished l =
     (\<forall>pre q prm x dyn post. l = pre @ EvOnnxExport q prm x dyn # post \<longrightarrow>
        (\<exists>pre'. pre = pre' @ [EvNetworkCall prm x]) \<and>
        (\<exists>m. prefix (reload_events q m x) post \<or>
             (\<not> finished \<and> prefix post (reload_events q m x))))"

text \<open>
  \<open>opens_ok finished l\<close>: in the record \<open>l\<close>, every opening of a metadata file is followed
  directly by the dump of a dictionary into that file; when the run has not \<open>finished\<close>, the
  record may end with the opening.
\<close>

definition is_open :: "event \<Rightarrow> bool" where
  "is_open ev = (case ev of EvOpenWrite p \<Rightarrow> True | _ \<Rightarrow> False)"

definition opens_ok :: "bool \<Rightarrow> event list \<Rightarrow> bool" where
  "opens_ok finished l =
     (\<forall>pre p post. l = pre @ EvOpenWrite p # post \<longrightarrow>
        (\<exists>j post'. post = EvJsonDump p j # post') \<or> (\<not> finished \<and> post = []))"

definition answered :: "bool \<Rightarrow> event list \<Rightarrow> bool" where
  "answered finished l = (resp_ok finished l \<and> opens_ok finished l)"

subsection \<open>Predicates on the record of calls\<close>

text \<open>
  \<open>hist_from R l es\<close>: every event of \<open>es\<close> satisfies \<open>R\<close> together with the record that
  precedes it, where \<open>es\<close> itself is preceded by \<open>l\<close>.
\<close>

definition hist_from :: "(event list \<Rightarrow> event \<Rightarrow> bool) \<Rightarrow> event list \<Rightarrow> event list \<Rightarrow> bool" where
  "hist_from R l es = (\<forall>pre ev post. es = pre @ ev # post \<longrightarrow> R (l @ pre) ev)"

definition hist :: "(event list \<Rightarrow> event \<Rightarrow> bool) \<Rightarrow> event list \<Rightarrow> bool" where
  "hist R l = hist_from R [] l"

text \<open>The checkpoint name of the latest call that initialised the predictor.\<close>

definition last_checkpoint :: "event list \<Rightarrow> string option" where
  "last_checkpoint l =
     foldl (\<lambda>acc ev. case ev of EvInitialize d fl ck \<Rightarrow> Some ck | _ \<Rightarrow> acc) None l"

definition default_names :: "args \<Rightarrow> bool" where
  "default_names a = (output_names a = None \<or> output_names a = Some [])"

text \<open>
  What the function is working on after the record \<open>l\<close>: the configuration of the latest
  call of \<^verbatim>\<open>get_output_folder\<close>, and the parameters of the latest call of
  \<^verbatim>\<open>load_state_dict\<close>.
\<close>

definition current_configuration :: "event list \<Rightarrow> string option" where
  "current_configuration l =
     foldl (\<lambda>acc ev. case ev of EvGetOutputFolder dn tr pl c \<Rightarrow> Some c | _ \<Rightarrow> acc) None l"

definition current_params :: "event list \<Rightarrow> params option" where
  "current_params l =
     foldl (\<lambda>acc ev. case ev of EvLoadStateDict prm \<Rightarrow> Some prm | _ \<Rightarrow> acc) None l"

text \<open>
  \<open>processing env a pre c f\<close>: after the record \<open>pre\<close> the function is in the pass of its
  loops for the configuration \<open>c\<close> and the fold \<open>f\<close>. The configuration is a requested one
  and the one whose trained model folder was resolved last; the parameters loaded last are
  those that the predictor, initialised with the latest checkpoint, has returned for the
  fold \<open>f\<close> (\<^verbatim>\<open>zip(folds, list_of_parameters)\<close>).
\<close>

definition processing :: "env \<Rightarrow> args \<Rightarrow> event list \<Rightarrow> string \<Rightarrow> fold \<Rightarrow> bool" where
  "processing env a pre c f =
     (c \<in> set (configurations a) \<and> current_configuration pre = Some c \<and>
      (\<exists>prm ck r dir lop config.
         current_params pre = Some prm \<and> last_checkpoint pre = Some ck \<and>
         initialize_from_trained_model_folder env r dir (folds a) ck = Inr (lop, config) \<and>
         (f, prm) \<in> set (zip (folds a) lop)))"

text \<open>
  Where the function writes: the paths it hands to \<^verbatim>\<open>mkdir\<close>, to the exporter and to
  \<^verbatim>\<open>open\<close> are the output directory of the configuration and the fold it is processing,
  joined with one of the output names or with \<^verbatim>\<open>config.json\<close>; the exporter gets the
  parameters loaded last; the metadata names the same configuration and fold.
\<close>

definition placed :: "env \<Rightarrow> args \<Rightarrow> event list \<Rightarrow> event \<Rightarrow> bool" where
  "placed env a pre ev =
     (case ev of
        EvOnnxExport q prm x dyn \<Rightarrow>
          (\<exists>c f n. processing env a pre c f \<and> current_params pre = Some prm \<and>
             n \<in> set (pending (initial_names a)) \<and> q = curr_output_dir a c f @ [n])
      | EvMkdir d \<Rightarrow> (\<exists>c f. processing env a pre c f \<and> d = curr_output_dir a c f)
      | EvOpenWrite p \<Rightarrow>
          (\<exists>c f. processing env a pre c f \<and> p = curr_output_dir a c f @ [''config.json''])
      | EvJsonDump p j \<Rightarrow>
          (\<exists>c f. processing env a pre c f \<and> p = curr_output_dir a c f @ [''config.json''] \<and>
             getitem j ''configuration'' = Inr (JStr c) \<and>
             getitem j ''fold'' = Inr (fold_json f))
      | _ \<Rightarrow> True)"

text \<open>
  A plain name is one component: it is not empty, holds no \<^verbatim>\<open>/\<close>, and is neither \<^verbatim>\<open>.\<close> nor
  \<^verbatim>\<open>..\<close>. \<open>plain_names a\<close>: the configurations, the directory names of the folds and the
  output names of the call are plain names.
\<close>

definition plain_name :: "string \<Rightarrow> bool" where
  "plain_name n = (n \<noteq> [] \<and> CHR ''/'' \<notin> set n \<and> n \<noteq> ''.'' \<and> n \<noteq> ''..'')"

definition plain_names :: "args \<Rightarrow> bool" where
  "plain_names a =
     ((\<forall>c\<in>set (configurations a). plain_name c) \<and>
      (\<forall>f\<in>set (folds a). CHR ''/'' \<notin> set (fold_str f)) \<and>
      (\<forall>n\<in>set (pending (initial_names a)). plain_name n))"

text \<open>
  \<open>inside d n q\<close>: the path \<open>q\<close> leads to the entry named \<open>n\<close> of the directory that \<open>d\<close>
  leads to, in every file system in which \<open>d\<close> leads to a directory.
  \<open>in_scheme a c f\<close>: the output directory of \<open>c\<close> and \<open>f\<close> is the entry \<^verbatim>\<open>fold_f\<close> of the
  entry \<open>c\<close> of \<open>output_dir\<close>.
\<close>

definition inside :: "path \<Rightarrow> string \<Rightarrow> path \<Rightarrow> bool" where
  "inside d n q =
     (plain_name n \<and>
      (\<forall>r D es. locate r d = Inr D \<longrightarrow> lookup (tree r) D = Some (Dir es) \<longrightarrow>
         locate r q = Inr (D @ [n])))"

definition in_scheme :: "args \<Rightarrow> string \<Rightarrow> fold \<Rightarrow> bool" where
  "in_scheme a c f =
     (inside (output_dir a) c (output_dir a @ [c]) \<and>
      inside (output_dir a @ [c]) (''fold_'' @ fold_str f) (curr_output_dir a c f))"

text \<open>
  \<open>located env a pre ev\<close>: a call that creates a directory or writes a file is made for
  the configuration and the fold being processed, and goes to the output directory of that
  pair: the directory itself, an artifact inside it, or the \<^verbatim>\<open>config.json\<close> inside it.
\<close>

definition located :: "env \<Rightarrow> args \<Rightarrow> event list \<Rightarrow> event \<Rightarrow> bool" where
  "located env a pre ev =
     (case ev of
        EvOnnxExport q prm x dyn \<Rightarrow>
          (\<exists>c f n. processing env a pre c f \<and> current_params pre = Some prm \<and>
             in_scheme a c f \<and> inside (curr_output_dir a c f) n q)
      | EvMkdir d \<Rightarrow>
          (\<exists>c f. processing env a pre c f \<and> in_scheme a c f \<and> d = curr_output_dir a c f)
      | EvOpenWrite p \<Rightarrow>
          (\<exists>c f. processing env a pre c f \<and> in_scheme a c f \<and>
             inside (curr_output_dir a c f) ''config.json'' p)
      | EvJsonDump p j \<Rightarrow>
          (\<exists>c f. processing env a pre c f \<and> in_scheme a c f \<and>
             inside (curr_output_dir a c f) ''config.json'' p \<and>
             getitem j ''configuration'' = Inr (JStr c) \<and>
             getitem j ''fold'' = Inr (fold_json f))
      | _ \<Rightarrow> True)"

text \<open>The keys of the metadata dictionary.\<close>

definition dict_keys :: "json \<Rightarrow> string list option" where
  "dict_keys j = (case j of JObj kvs \<Rightarrow> Some (map fst kvs) | _ \<Rightarrow> None)"

definition channel_entry :: "string \<times> json \<Rightarrow> bool" where
  "channel_entry kv = (dict_keys (snd kv) = Some [''name'', ''foreground_properties''])"

definition documented :: "json \<Rightarrow> bool" where
  "documented j =
     (dict_keys j = Some [''configuration'', ''fold'', ''model_parameters'', ''dataset_parameters''] \<and>
      (case getitem j ''model_parameters'' of
         Inl e \<Rightarrow> False
       | Inr mp \<Rightarrow>
           dict_keys mp = Some [''batch_size'', ''patch_size'', ''spacing'', ''normalization_schemes'',
             ''UNet_class_name'', ''UNet_base_num_features'', ''unet_max_num_features'',
             ''conv_kernel_sizes'', ''pool_op_kernel_sizes'', ''num_pool_per_axis'']) \<and>
      (case getitem j ''dataset_parameters'' of
         Inl e \<Rightarrow> False
       | Inr dp \<Rightarrow>
           dict_keys dp = Some [''dataset_name'', ''num_channels'', ''channels'', ''num_classes'',
             ''class_names''] \<and>
           (case getitem dp ''channels'' of
              Inr (JObj chs) \<Rightarrow> list_all channel_entry chs
            | _ \<Rightarrow> False)))"

text \<open>
  \<open>verified_before a pre p\<close>: the record \<open>pre\<close> ends with the calls of one pass through the
  fold loop, for the directory of \<open>p\<close>, up to the message that the artifact has been
  exported; before them, the dataset name and the trained model folder of the configuration
  have been resolved and the predictor has been initialised.
\<close>

definition verified_before :: "args \<Rightarrow> event list \<Rightarrow> path \<Rightarrow> bool" where
  "verified_before a pre p =
     (\<exists>pre0 c f prm oname mk shp dyn x m y out0 warn.
        p = curr_output_dir a c f @ [''config.json''] \<and>
        pre = pre0 @ verify_events (curr_output_dir a c f) prm oname mk shp dyn x m y out0 warn \<and>
        (mk = [] \<or> mk = [EvMkdir (curr_output_dir a c f)]) \<and>
        (warn = [] \<or> (\<exists>msg. warn = warning_events msg)) \<and>
        (\<exists>r dn tr pl dir fl ck.
           subseq [EvConvertDatasetName r, EvGetOutputFolder dn tr pl c, EvInitialize dir fl ck] pre0))"

definition named_after :: "args \<Rightarrow> event list \<Rightarrow> path \<Rightarrow> bool" where
  "named_after a pre q =
     (default_names a \<longrightarrow>
        (\<exists>ck. last_checkpoint pre = Some ck \<and> q \<noteq> [] \<and> last q = derived_name ck))"

definition ok :: "env \<Rightarrow> args \<Rightarrow> event list \<Rightarrow> event \<Rightarrow> bool" where
  "ok env a pre ev =
     (placed env a pre ev \<and>
      (case ev of
         EvJsonDump p j \<Rightarrow> documented j \<and> (\<exists>pre'. pre = pre' @ [EvOpenWrite p])
       | EvOpenWrite p \<Rightarrow> verified_before a pre p
       | EvOnnxExport q prm x dyn \<Rightarrow> named_after a pre q
       | EvInitialize d fl ck \<Rightarrow> ck \<in> set (save_checkpoints a)
       | _ \<Rightarrow> True))"

definition ctx_fold :: "string \<Rightarrow> string \<Rightarrow> event list \<Rightarrow> bool" where
  "ctx_fold c ck l =
     ((\<exists>r dn tr pl dir fl.
         subseq [EvConvertDatasetName r, EvGetOutputFolder dn tr pl c, EvInitialize dir fl ck] l) \<and>
      last_checkpoint l = Some ck \<and> current_configuration l = Some c)"

definition ctx_config :: "string \<Rightarrow> event list \<Rightarrow> bool" where
  "ctx_config c l =
     ((\<exists>r dn tr pl. subseq [EvConvertDatasetName r, EvGetOutputFolder dn tr pl c] l) \<and>
      current_configuration l = Some c)"

definition ctx_top :: "event list \<Rightarrow> bool" where
  "ctx_top l = (\<exists>r. subseq [EvConvertDatasetName r] l)"

definition names_ok :: "args \<Rightarrow> name_source \<Rightarrow> bool" where
  "names_ok a names =
     ((default_names a \<longrightarrow>
         names = NameGenerator (map derived_name (save_checkpoints a)) \<or> names = NameGenerator []) \<and>
      set (pending names) \<subseteq> set (pending (initial_names a)))"

definition is_init :: "event \<Rightarrow> bool" where
  "is_init ev = (case ev of EvInitialize d fl ck \<Rightarrow> True | _ \<Rightarrow> False)"

definition is_context :: "event \<Rightarrow> bool" where
  "is_context ev =
     (case ev of
        EvGetOutputFolder dn tr pl c \<Rightarrow> True
      | EvInitialize d fl ck \<Rightarrow> True
      | EvLoadStateDict prm \<Rightarrow> True
      | _ \<Rightarrow> False)"

subsection \<open>The record of the run on the small installation\<close>

text \<open>
  The record of the run on the small installation, in the order of the statements: the
  paths are resolved, the predictor is initialised, the parameters are loaded and the
  network is run, the exporter is called, the exported file is loaded again, the outputs are
  compared, the metadata is written, and the second configuration is entered.
\<close>

definition demo_artifact :: path where
  "demo_artifact = [''out'', ''2d'', ''fold_0'', ''checkpoint_final.onnx'']"

definition demo_config_json :: path where
  "demo_config_json = [''out'', ''2d'', ''fold_0'', ''config.json'']"

definition demo_input :: tensor where
  "demo_input = Tensor [1, 1, 4, 4] 0"

definition demo_metadata :: json where
  "demo_metadata =
     JObj [(''configuration'', JStr ''2d''), (''fold'', JInt 0),
       (''model_parameters'',
        JObj [(''batch_size'', JStr ''dynamic''),
          (''patch_size'', JList [JInt 4, JInt 4]),
          (''spacing'', JList [JFloat ''1.0'', JFloat ''1.0'']),
          (''normalization_schemes'', JList [JStr ''ZScoreNormalization'']),
          (''UNet_class_name'', JStr ''PlainConvUNet''),
          (''UNet_base_num_features'', JInt 32),
          (''unet_max_num_features'', JInt 512),
          (''conv_kernel_sizes'', JList [JList [JInt 3, JInt 3]]),
          (''pool_op_kernel_sizes'', JList [JList [JInt 1, JInt 1]]),
          (''num_pool_per_axis'', JList [JInt 0, JInt 0])]),
       (''dataset_parameters'',
        JObj [(''dataset_name'', JStr ''Dataset001_Demo''),
          (''num_channels'', JInt 1),
          (''channels'',
           JObj [(''0'', JObj [(''name'', JStr ''CT''),
                   (''foreground_properties'', JObj [(''mean'', JFloat ''0.5'')])])]),
          (''num_classes'', JInt 2),
          (''class_names'', JObj [(''0'', JStr ''background''), (''1'', JStr ''tumour'')])])]"

definition demo_resolved :: "event list" where
  "demo_resolved =
     [EvConvertDatasetName (DatasetId 1), EvPrint ''Configuration 2d'',
      EvGetOutputFolder ''Dataset001_Demo'' ''nnUNetTrainer'' ''nnUNetPlans'' ''2d'',
      EvLoadJson [''results'', ''Dataset001_Demo'', ''nnUNetTrainer__nnUNetPlans__2d'',
        ''dataset.json''],
      EvLoadJson [''results'', ''Dataset001_Demo'', ''nnUNetTrainer__nnUNetPlans__2d'',
        ''plans.json''],
      EvInitialize [''results'', ''Dataset001_Demo'', ''nnUNetTrainer__nnUNetPlans__2d'']
        [FoldInt 0] ''checkpoint_final.pth'']"

definition demo_loaded :: "event list" where
  "demo_loaded =
     [EvLoadStateDict (Params 0), EvNetworkEval, EvMkdir [''out'', ''2d'', ''fold_0''],
      EvTorchRand [1, 1, 4, 4]]"

definition demo_reloaded :: "event list" where
  "demo_reloaded =
     [EvOnnxLoad demo_artifact, EvCheckModel (OnnxModel 7),
      EvInferenceSession demo_artifact [''CPUExecutionProvider''],
      EvSessionRun demo_artifact demo_input]"

definition demo_compared :: "event list" where
  "demo_compared =
     [EvAssertAllclose (Tensor [1, 1, 4, 4] 100) (Tensor [1, 1, 4, 4] 101),
      EvPrint ''Exported out/2d/fold_0/checkpoint_final.onnx'']"

definition demo_second :: "event list" where
  "demo_second =
     [EvPrint ''Configuration 3d_fullres'',
      EvGetOutputFolder ''Dataset001_Demo'' ''nnUNetTrainer'' ''nnUNetPlans'' ''3d_fullres'',
      EvLoadJson [''results'', ''Dataset001_Demo'', ''nnUNetTrainer__nnUNetPlans__3d_fullres'',
        ''dataset.json''],
      EvLoadJson [''results'', ''Dataset001_Demo'', ''nnUNetTrainer__nnUNetPlans__3d_fullres'',
        ''plans.json'']]"

definition demo_trace :: "event list" where
  "demo_trace =
     demo_resolved @ demo_loaded @
     [EvNetworkCall (Params 0) demo_input, EvOnnxExport demo_artifact (Params 0) demo_input True] @
     demo_reloaded @ demo_compared @
     [EvOpenWrite demo_config_json, EvJsonDump demo_config_json demo_metadata] @ demo_second"

subsection \<open>Runs that differ in the comparison only\<close>

text \<open>
  The library functions of \<open>env\<close>, with a comparison that finds no difference.
\<close>

definition passing :: "env \<Rightarrow> env" where
  "passing env = env\<lparr>assert_allclose := (\<lambda>y out0. None)\<rparr>"

text \<open>
  The three lines printed after a comparison that has found a difference, and a record with
  these lines put in after each such comparison.
\<close>

definition warning_after :: "(tensor \<Rightarrow> tensor \<Rightarrow> string option) \<Rightarrow> event \<Rightarrow> event list" where
  "warning_after cmp ev =
     (case ev of
        EvAssertAllclose y out0 \<Rightarrow> (case cmp y out0 of None \<Rightarrow> [] | Some msg \<Rightarrow> warning_events msg)
      | _ \<Rightarrow> [])"

definition with_warnings :: "(tensor \<Rightarrow> tensor \<Rightarrow> string option) \<Rightarrow> event list \<Rightarrow> event list" where
  "with_warnings cmp l = concat (map (\<lambda>ev. ev # warning_after cmp ev) l)"

text \<open>
  Two states with the same files and random numbers, the record of the second being the
  record of the first with the warnings; and two statements that take such states to such
  states, with the same result.
\<close>

definition warned :: "(tensor \<Rightarrow> tensor \<Rightarrow> string option) \<Rightarrow> state \<Rightarrow> state \<Rightarrow> bool" where
  "warned cmp s0 s = (fs s = fs s0 \<and> rng s = rng s0 \<and> trace s = with_warnings cmp (trace s0))"

definition agree ::
  "('s \<Rightarrow> 't \<Rightarrow> bool) \<Rightarrow> ('s \<Rightarrow> (error + 'a) \<times> 's) \<Rightarrow> ('t \<Rightarrow> (error + 'a) \<times> 't) \<Rightarrow> bool" where
  "agree R m0 m = (\<forall>s0 s. R s0 s \<longrightarrow> fst (m s) = fst (m0 s0) \<and> R (snd (m0 s0)) (snd (m s)))"

text \<open>The small installation with a comparison that always finds a difference.\<close>

definition failing_env :: env where
  "failing_env = demo_env\<lparr>assert_allclose := (\<lambda>y out0. Some ''Not equal to tolerance'')\<rparr>"

section \<open>Properties of the function\<close>

lemma show_nat_digit: "n < 10 \<Longrightarrow> show_nat n = [digit_char n]"
  by (simp add: show_nat.simps)

subsection \<open>A non-empty output directory\<close>

text \<open>
  When the body of the loop over the folds is entered for configuration \<open>c\<close> and
  fold \<open>f\<close>, and the directory \<open>output_dir/c/fold_f\<close> exists and has at least one entry, the
  body raises the \<^verbatim>\<open>RuntimeError\<close> "Output directory ... is not empty". Up to that point it
  has only loaded the parameters into the network and switched it to evaluation mode: the
  file system is the one it found, and no exporter call, no directory creation and no
  write to \<^verbatim>\<open>config.json\<close> has been made.
\<close>

lemma fold_body_raises_on_nonempty_dir:
  "iterdir (fs st) (curr_output_dir a c f) = Inr names \<Longrightarrow> names \<noteq> [] \<Longrightarrow>
   export_fold env a dn c dj props config oname (f, prm) st =
     (Inl (RuntimeError (not_empty_message (curr_output_dir a c f))),
      st\<lparr>trace := trace st @ [EvLoadStateDict prm, EvNetworkEval]\<rparr>)"
  by (auto simp: export_fold_def and_then_def emit_def prepare_output_dir_def path_exists_def
      iterdir_def split: sum.splits option.splits node.splits)

lemma fold_body_raises_on_nonempty_dir_demo:
  "(case export_fold demo_env demo_args ''Dataset001_Demo'' ''2d'' demo_dataset_json demo_plans
          demo_config ''checkpoint_final.onnx'' (FoldInt 0, Params 0)
          \<lparr>fs = used_fs, trace = [], rng = 0\<rparr> of
      (r, st') \<Rightarrow>
        r = Inl (RuntimeError ''Output directory out/2d/fold_0 is not empty'') \<and>
        fs st' = used_fs \<and> trace st' = [EvLoadStateDict (Params 0), EvNetworkEval])"
  by code_simp

text \<open>
  Claim C3, at a concrete input: two trained configurations, one fold, no output names
  given, and the output directory of configuration \<^verbatim>\<open>3d_fullres\<close>, fold 0 holds a file. The
  run ends without an exception: the generator of line 37 is used up by the first
  configuration, so the body of the fold loop, with its test of lines 91 to 95, is never
  entered for \<^verbatim>\<open>3d_fullres\<close>. The directory is left as it was.
\<close>

theorem nonempty_output_dir_of_later_configuration_not_reported:
  "(case export_onnx_model demo_env demo_args \<lparr>fs = later_used_fs, trace = [], rng = 0\<rparr> of
      (r, st') \<Rightarrow>
        r = Inr () \<and>
        iterdir (fs st') [''out'', ''3d_fullres'', ''fold_0''] = Inr [''old.txt''] \<and>
        path_exists (fs st') [''out'', ''2d'', ''fold_0'', ''config.json''])"
  by code_simp

subsection \<open>A missing trained model directory\<close>

text \<open>
  Claim C1, at a concrete input: the configuration \<^verbatim>\<open>3d_lowres\<close> has no trained model
  directory and \<^verbatim>\<open>strict\<close> is false. The function does not skip the configuration: it
  ends with the \<^verbatim>\<open>FileNotFoundError\<close> of \<^verbatim>\<open>load_json\<close> on \<^verbatim>\<open>dataset.json\<close>, which line 50
  reads before line 57 tests the directory.
\<close>

theorem missing_folder_not_skipped:
  "fst (export_onnx_model demo_env
          (demo_args\<lparr>configurations := [''3d_lowres''], strict := False\<rparr>) demo_state) =
     Inl (FileNotFoundError [''results'', ''Dataset001_Demo'',
            ''nnUNetTrainer__nnUNetPlans__3d_lowres'', ''dataset.json''])"
  by code_simp

subsection \<open>One output directory per configuration and fold\<close>

text \<open>
  Claim C2, at a concrete input: two trained configurations, one fold, and no output names
  given. The run ends without an exception and has exported configuration \<^verbatim>\<open>2d\<close>, but the
  output directory holds nothing for \<^verbatim>\<open>3d_fullres\<close>: the generator of line 37 is used up
  by the first configuration.
\<close>

theorem generator_exhausted_after_first_configuration:
  "(case export_onnx_model demo_env demo_args demo_state of
      (r, st') \<Rightarrow>
        r = Inr () \<and>
        path_exists (fs st') [''out'', ''2d'', ''fold_0'', ''checkpoint_final.onnx''] \<and>
        path_exists (fs st') [''out'', ''2d'', ''fold_0'', ''config.json''] \<and>
        \<not> path_exists (fs st') [''out'', ''3d_fullres''])"
  by code_simp

subsection \<open>What each statement records\<close>

lemma script_value_error_simps [simp]:
  "\<not> script_value_error (Inr x)"
  "script_value_error (Inl e) = (\<exists>m. e = ValueError m)"
  by (auto simp: script_value_error_def)

lemma os_error_simps [simp]:
  "os_error (FileNotFoundError p)"
  "os_error (NotADirectoryError p)"
  "os_error (IsADirectoryError p)"
  "os_error (FileExistsError p)"
  "\<not> os_error (ValueError m)"
  by (simp_all add: os_error_def)

lemma walk_error: "walk t p cur cs = Inl e \<Longrightarrow> os_error e"
  by (induction cs arbitrary: cur) (auto split: option.splits node.splits)

lemma locate_error: "locate r p = Inl e \<Longrightarrow> os_error e"
  by (auto simp: locate_def split: prod.splits dest: walk_error)

lemma iterdir_error: "iterdir r p = Inl e \<Longrightarrow> os_error e"
  by (auto simp: iterdir_def split: sum.splits option.splits node.splits dest: locate_error)

lemma open_read_error: "open_read r p = Inl e \<Longrightarrow> os_error e"
  by (auto simp: open_read_def split: sum.splits option.splits node.splits dest: locate_error)

lemma open_write_error: "open_write r p c = Inl e \<Longrightarrow> os_error e"
  by (auto simp: open_write_def split: sum.splits option.splits dest: locate_error)

lemma os_mkdir_error: "os_mkdir r p ab cs = Inl e \<Longrightarrow> os_error e"
  by (auto simp: os_mkdir_def split: sum.splits option.splits dest: walk_error)

lemma mkdir_once_error: "mkdir_once r p ab cs eo = Inl e \<Longrightarrow> os_error e"
  by (auto simp: mkdir_once_def split: sum.splits if_splits dest: os_mkdir_error)

lemma mkdir_all_error: "mkdir_all r p ab cs eo = Inl e \<Longrightarrow> os_error e"
proof (induction r p ab cs eo arbitrary: e rule: mkdir_all.induct)
  case (1 r p ab cs exist_ok)
  from "1.prems" show ?case
    by (subst (asm) mkdir_all.simps)
      (auto split: sum.splits if_splits dest: os_mkdir_error mkdir_once_error "1.IH")
qed

lemma mkdir_parents_error: "mkdir_parents r p = Inl e \<Longrightarrow> os_error e"
  by (auto simp: mkdir_parents_def split: prod.splits dest: mkdir_all_error)

lemma os_error_not_value_error: "os_error e \<Longrightarrow> e \<noteq> ValueError m"
  by auto

lemma file_operations_no_value_error [simp]:
  "open_read r p \<noteq> Inl (ValueError m)"
  "open_write r p c \<noteq> Inl (ValueError m)"
  "iterdir r p \<noteq> Inl (ValueError m)"
  "mkdir_parents r p \<noteq> Inl (ValueError m)"
  using open_read_error [of r p "ValueError m"] open_write_error [of r p c "ValueError m"]
    iterdir_error [of r p "ValueError m"] mkdir_parents_error [of r p "ValueError m"]
  by auto

lemma and_then_emit [simp]: "and_then (emit ev) f st = f () (st\<lparr>trace := trace st @ [ev]\<rparr>)"
  by (simp add: and_then_def emit_def)

lemma and_then_print [simp]: "and_then (print s) f st = f () (st\<lparr>trace := trace st @ [EvPrint s]\<rparr>)"
  by (simp add: print_def)

lemma and_then_ret [simp]: "and_then (ret x) f s = f x s"
  by (simp add: and_then_def ret_def)

lemma and_then_raise [simp]: "and_then (raise e) f s = (Inl e, s)"
  by (simp add: and_then_def raise_def)

lemma and_then_assoc [simp]:
  "and_then (and_then m g) f = and_then m (\<lambda>x. and_then (g x) f)"
  by (auto simp: and_then_def fun_eq_iff split: prod.splits sum.splits)

lemma and_then_callee [simp]:
  "and_then (callee c) f s = (case c of Inl m \<Rightarrow> (Inl (Raised m), s) | Inr x \<Rightarrow> f x s)"
  by (simp add: and_then_def callee_def split: sum.splits)

lemma and_then_callee_check [simp]:
  "and_then (callee_check c) f s = (case c of Some m \<Rightarrow> (Inl (Raised m), s) | None \<Rightarrow> f () s)"
  by (simp add: and_then_def callee_check_def split: option.splits)

lemma and_then_lift [simp]:
  "and_then (lift c) f s = (case c of Inl e \<Rightarrow> (Inl e, s) | Inr x \<Rightarrow> f x s)"
  by (simp add: and_then_def lift_def split: sum.splits)

lemmas stmt_defs = and_then_def emit_def ret_def raise_def callee_def callee_check_def lift_def print_def

lemma and_then_cases:
  assumes "and_then m f s = (r, s')"
  obtains (fail) e where "m s = (Inl e, s')" "r = Inl e"
        | (ok) x s1 where "m s = (Inr x, s1)" "f x s1 = (r, s')"
  using assms by (auto simp: and_then_def split: prod.splits sum.splits)

lemma write_to_trace: "write_to p c st = (r, st') \<Longrightarrow> trace st' = trace st \<and> rng st' = rng st \<and> \<not> script_value_error r"
  by (auto simp: write_to_def split: sum.splits dest: open_write_error)

lemma prepare_output_dir_trace:
  assumes "prepare_output_dir d st = (r, st')"
  shows "\<exists>mk. trace st' = trace st @ mk \<and> (mk = [] \<or> mk = [EvMkdir d]) \<and> \<not> script_value_error r"
  using assms
  by (auto simp: prepare_output_dir_def stmt_defs split: if_splits sum.splits
      dest: mkdir_parents_error iterdir_error)

lemma run_and_export_trace:
  assumes "run_and_export env a prm shp dyn p st = (r, st')"
  shows "\<not> script_value_error r \<and>
    (case r of
       Inr (x, y) \<Rightarrow> trace st' = trace st @ export_events shp prm x p dyn
     | Inl e \<Rightarrow> \<exists>es x. trace st' = trace st @ es \<and> prefix es (export_events shp prm x p dyn))"
  using assms
  by (auto simp: run_and_export_def draw_rand_def call_network_def onnx_export_def stmt_defs
      export_events_def write_to_def
      split: sum.splits option.splits if_splits prod.splits dest: open_write_error)

lemma reload_and_run_trace:
  assumes "reload_and_run env p x st = (r, st')"
  shows "\<not> script_value_error r \<and> fs st' = fs st \<and>
    (case r of
       Inr outs \<Rightarrow> \<exists>m. trace st' = trace st @ reload_events p m x
     | Inl e \<Rightarrow> \<exists>es m. trace st' = trace st @ es \<and> prefix es (reload_events p m x))"
  using assms
  by (auto simp: reload_and_run_def onnx_load_def onnx_checker_def create_session_def run_session_def
      read_onnx_def stmt_defs reload_events_def
      split: sum.splits option.splits if_splits content.splits prod.splits dest: open_read_error)

lemma compare_outputs_trace:
  assumes "compare_outputs env y outs st = (r, st')"
  shows "\<not> script_value_error r \<and> fs st' = fs st \<and>
    (case r of
       Inr u \<Rightarrow> \<exists>out0 warn. trace st' = trace st @ EvAssertAllclose y out0 # warn \<and>
                   (warn = [] \<or> (\<exists>msg. warn = warning_events msg))
     | Inl e \<Rightarrow> trace st' = trace st)"
  using assms
  by (auto simp: compare_outputs_def warning_events_def stmt_defs
      split: list.splits option.splits)

lemma getitem_no_value_error: "getitem d k \<noteq> Inl (ValueError m)"
  by (auto simp: getitem_def split: json.splits option.splits)

lemma channels_dict_no_value_error: "channels_dict props kvs acc \<noteq> Inl (ValueError m)"
proof (induction kvs arbitrary: acc)
  case Nil
  then show ?case by simp
next
  case (Cons kv kvs)
  obtain k v where kv: "kv = (k, v)" by (cases kv)
  show ?case
    using Cons.IH getitem_no_value_error [of props k m]
    by (auto simp: kv split: sum.splits)
qed

lemma class_names_dict_no_value_error: "class_names_dict kvs acc \<noteq> Inl (ValueError m)"
proof (induction kvs arbitrary: acc)
  case Nil
  then show ?case by simp
next
  case (Cons kv kvs)
  obtain k v where kv: "kv = (k, v)" by (cases kv)
  show ?case
    using Cons.IH by (auto simp: kv)
qed

lemma config_dict_no_value_error: "\<not> script_value_error (config_dict a c f config dn dj props)"
  using getitem_no_value_error [of dj "''channel_names''"] getitem_no_value_error [of dj "''labels''"]
    channels_dict_no_value_error class_names_dict_no_value_error
  by (auto simp: config_dict_def dataset_parameters_def dict_items_def script_value_error_def
      split: sum.splits json.splits)

lemma write_metadata_trace:
  assumes "write_metadata a c f config dn dj props p st = (r, st')"
  shows "\<not> script_value_error r \<and>
    (trace st' = trace st @ [EvOpenWrite p] \<and> r \<noteq> Inr () \<or>
     (\<exists>j. trace st' = trace st @ [EvOpenWrite p, EvJsonDump p j] \<and>
          config_dict a c f config dn dj props = Inr j))"
proof -
  have nv: "\<not> script_value_error (config_dict a c f config dn dj props)"
    by (rule config_dict_no_value_error)
  show ?thesis
    using assms nv
    by (auto simp: write_metadata_def stmt_defs write_to_def
        split: sum.splits option.splits if_splits prod.splits dest: open_write_error)
qed


lemma export_artifact_trace:
  assumes "export_artifact env a config prm p st = (r, st')"
  shows "\<not> script_value_error r \<and>
    (case r of
       Inr (x, y) \<Rightarrow> trace st' = trace st @ export_events (input_shape a config) prm x p (use_dynamic_axes a)
     | Inl e \<Rightarrow> \<exists>es x. trace st' = trace st @ es \<and>
         prefix es (export_events (input_shape a config) prm x p (use_dynamic_axes a)))"
  using assms run_and_export_trace [of env a prm _ _ p st r st']
  by (auto simp: export_artifact_def input_shape_def split: if_splits)

lemma export_fold_trace:
  assumes "export_fold env a dn c dj props config oname (f, prm) st = (r, st')"
  shows "\<not> script_value_error r \<and>
    (\<exists>es mk x m y out0 warn.
       trace st' = trace st @ es \<and>
       (mk = [] \<or> mk = [EvMkdir (curr_output_dir a c f)]) \<and>
       (warn = [] \<or> (\<exists>msg. warn = warning_events msg)) \<and>
       (r \<noteq> Inr () \<and>
        prefix es (verify_events (curr_output_dir a c f) prm oname mk (input_shape a config)
                     (use_dynamic_axes a) x m y out0 warn @
                   [EvOpenWrite (curr_output_dir a c f @ [''config.json''])]) \<or>
        (\<exists>j. es = verify_events (curr_output_dir a c f) prm oname mk (input_shape a config)
                     (use_dynamic_axes a) x m y out0 warn @
                   [EvOpenWrite (curr_output_dir a c f @ [''config.json'']),
                    EvJsonDump (curr_output_dir a c f @ [''config.json'']) j] \<and>
             config_dict a c f config dn dj props = Inr j)))"
    (is "_ \<and> ?shape")
proof -
  let ?d = "curr_output_dir a c f"
  let ?q = "?d @ [oname]"
  let ?cfg = "?d @ [''config.json'']"
  let ?shp = "input_shape a config"
  let ?dyn = "use_dynamic_axes a"
  let ?V = "\<lambda>mk x m y out0 warn. verify_events ?d prm oname mk ?shp ?dyn x m y out0 warn"
  define st0 where "st0 = st\<lparr>trace := trace st @ [EvLoadStateDict prm, EvNetworkEval]\<rparr>"
  have failI: "?shape"
    if "trace st' = trace st @ es" "mk = [] \<or> mk = [EvMkdir ?d]"
       "warn = [] \<or> (\<exists>msg. warn = warning_events msg)" "r \<noteq> Inr ()"
       "prefix es (?V mk x m y out0 warn @ [EvOpenWrite ?cfg])"
    for es mk x m y out0 warn
    using that by blast
  have st0_trace: "trace st0 = trace st @ [EvLoadStateDict prm, EvNetworkEval]"
    by (simp add: st0_def)
  from assms have E1:
    "and_then (prepare_output_dir ?d) (\<lambda>_.
       and_then (export_artifact env a config prm ?q) (\<lambda>(rand_input, torch_output).
       and_then (reload_and_run env ?q rand_input) (\<lambda>ort_outs.
       and_then (compare_outputs env torch_output ort_outs) (\<lambda>_.
       and_then (print (''Exported '' @ path_str ?q)) (\<lambda>_.
         write_metadata a c f config dn dj props ?cfg))))) st0 = (r, st')"
    by (simp add: export_fold_def st0_def)
  from E1 show ?thesis
  proof (cases rule: and_then_cases)
    case (fail e)
    from prepare_output_dir_trace [OF fail(1)] obtain mk where
      mk: "trace st' = trace st0 @ mk" "mk = [] \<or> mk = [EvMkdir ?d]" and nv: "\<not> script_value_error (Inl e :: error + unit)"
      by auto
    have "?shape"
      by (rule failI [where es = "[EvLoadStateDict prm, EvNetworkEval] @ mk" and mk = mk
            and warn = "[]" and x = "Tensor [] 0" and m = "OnnxModel 0" and y = "Tensor [] 0"
            and ?out0.0 = "Tensor [] 0"])
        (use mk fail in \<open>simp_all add: st0_trace verify_events_def\<close>)
    with nv fail show ?thesis by simp
  next
    case (ok u1 s1)
    from prepare_output_dir_trace [OF ok(1)] obtain mk where
      mk: "trace s1 = trace st0 @ mk" "mk = [] \<or> mk = [EvMkdir ?d]"
      by auto
    from ok(2) show ?thesis
    proof (cases rule: and_then_cases)
      case (fail e)
      from export_artifact_trace [OF fail(1)] obtain es2 x where
        es2: "trace st' = trace s1 @ es2" "prefix es2 (export_events ?shp prm x ?q ?dyn)"
        and nv: "\<not> script_value_error (Inl e :: error + unit)"
        by auto
      have "?shape"
        by (rule failI [where es = "[EvLoadStateDict prm, EvNetworkEval] @ mk @ es2" and mk = mk
              and warn = "[]" and x = x and m = "OnnxModel 0" and y = "Tensor [] 0"
              and ?out0.0 = "Tensor [] 0"])
          (use mk es2 fail in \<open>simp_all add: st0_trace verify_events_def\<close>)
      with nv fail show ?thesis by simp
    next
      case (ok xy s2)
      obtain x y where xy: "xy = (x, y)" by (cases xy)
      from export_artifact_trace [OF ok(1)] have
        s2: "trace s2 = trace s1 @ export_events ?shp prm x ?q ?dyn"
        by (simp add: xy)
      from ok(2) have E3:
        "and_then (reload_and_run env ?q x) (\<lambda>ort_outs.
           and_then (compare_outputs env y ort_outs) (\<lambda>_.
           and_then (print (''Exported '' @ path_str ?q)) (\<lambda>_.
             write_metadata a c f config dn dj props ?cfg))) s2 = (r, st')"
        by (simp add: xy)
      from E3 show ?thesis
      proof (cases rule: and_then_cases)
        case (fail e)
        from reload_and_run_trace [OF fail(1)] obtain es3 m where
          es3: "trace st' = trace s2 @ es3" "prefix es3 (reload_events ?q m x)"
          and nv: "\<not> script_value_error (Inl e :: error + unit)"
          by auto
        have "?shape"
          by (rule failI [where es = "[EvLoadStateDict prm, EvNetworkEval] @ mk @
                  export_events ?shp prm x ?q ?dyn @ es3" and mk = mk
                and warn = "[]" and x = x and m = m and y = "Tensor [] 0"
                and ?out0.0 = "Tensor [] 0"])
            (use mk s2 es3 fail in \<open>simp_all add: st0_trace verify_events_def\<close>)
        with nv fail show ?thesis by simp
      next
        case (ok outs s3)
        from reload_and_run_trace [OF ok(1)] obtain m where
          s3: "trace s3 = trace s2 @ reload_events ?q m x"
          by auto
        from ok(2) show ?thesis
        proof (cases rule: and_then_cases)
          case (fail e)
          from compare_outputs_trace [OF fail(1)] have
            s4: "trace st' = trace s3" and nv: "\<not> script_value_error (Inl e :: error + unit)"
            by auto
          have "?shape"
            by (rule failI [where es = "[EvLoadStateDict prm, EvNetworkEval] @ mk @
                    export_events ?shp prm x ?q ?dyn @ reload_events ?q m x" and mk = mk
                  and warn = "[]" and x = x and m = m and y = "Tensor [] 0"
                  and ?out0.0 = "Tensor [] 0"])
              (use mk s2 s3 s4 fail in \<open>simp_all add: st0_trace verify_events_def\<close>)
          with nv fail show ?thesis by simp
        next
          case (ok u4 s4)
          from compare_outputs_trace [OF ok(1)] obtain out0 warn where
            s4: "trace s4 = trace s3 @ EvAssertAllclose y out0 # warn"
            and warn: "warn = [] \<or> (\<exists>msg. warn = warning_events msg)"
            by auto
          define s5 where "s5 = s4\<lparr>trace := trace s4 @ [EvPrint (''Exported '' @ path_str ?q)]\<rparr>"
          from ok(2) have E5: "write_metadata a c f config dn dj props ?cfg s5 = (r, st')"
            by (simp add: s5_def)
          have s5: "trace s5 = trace st @ ?V mk x m y out0 warn"
            by (simp add: s5_def s4 s3 s2 mk st0_trace verify_events_def exported_message_def)
          from write_metadata_trace [OF E5] have nv: "\<not> script_value_error r"
            and W: "trace st' = trace s5 @ [EvOpenWrite ?cfg] \<and> r \<noteq> Inr () \<or>
              (\<exists>j. trace st' = trace s5 @ [EvOpenWrite ?cfg, EvJsonDump ?cfg j] \<and>
                   config_dict a c f config dn dj props = Inr j)"
            by auto
          from W have "?shape"
          proof
            assume "trace st' = trace s5 @ [EvOpenWrite ?cfg] \<and> r \<noteq> Inr ()"
            then show ?thesis
              using mk(2) warn s5
              by (intro failI [where es = "?V mk x m y out0 warn @ [EvOpenWrite ?cfg]"
                    and mk = mk and warn = warn and x = x and m = m and y = y and ?out0.0 = out0])
                simp_all
          next
            assume "\<exists>j. trace st' = trace s5 @ [EvOpenWrite ?cfg, EvJsonDump ?cfg j] \<and>
                   config_dict a c f config dn dj props = Inr j"
            then obtain j where j: "trace st' = trace s5 @ [EvOpenWrite ?cfg, EvJsonDump ?cfg j]"
              "config_dict a c f config dn dj props = Inr j" by blast
            show ?thesis
              apply (rule exI [where x = "?V mk x m y out0 warn @ [EvOpenWrite ?cfg, EvJsonDump ?cfg j]"])
              apply (rule exI [where x = mk], rule exI [where x = x], rule exI [where x = m])
              apply (rule exI [where x = y], rule exI [where x = out0], rule exI [where x = warn])
              using mk(2) warn s5 j by simp
          qed
          with nv show ?thesis by simp
        qed
      qed
    qed
  qed
qed

subsection \<open>Records in which every export is followed by its reload\<close>

lemma is_export_simps [simp]:
  "is_export (EvOnnxExport q prm x dyn)"
  "\<not> is_export (EvPrint s)"
  "\<not> is_export (EvConvertDatasetName r)"
  "\<not> is_export (EvGetOutputFolder dn tr pl c)"
  "\<not> is_export (EvLoadJson p)"
  "\<not> is_export (EvInitialize d fl ck)"
  "\<not> is_export (EvLoadStateDict prm)"
  "\<not> is_export EvNetworkEval"
  "\<not> is_export (EvMkdir p)"
  "\<not> is_export (EvTorchRand shp)"
  "\<not> is_export (EvNetworkCall prm x)"
  "\<not> is_export (EvOnnxLoad p)"
  "\<not> is_export (EvCheckModel m)"
  "\<not> is_export (EvInferenceSession p ps)"
  "\<not> is_export (EvSessionRun p x)"
  "\<not> is_export (EvAssertAllclose x y)"
  "\<not> is_export (EvOpenWrite p)"
  "\<not> is_export (EvJsonDump p j)"
  by (simp_all add: is_export_def)

lemma first_export_unique:
  assumes "t @ e # u = A @ c # e' # v"
    and "is_export e" "\<forall>z\<in>set A. \<not> is_export z" "\<not> is_export c" "\<forall>z\<in>set v. \<not> is_export z"
  shows "t = A @ [c] \<and> e = e' \<and> u = v"
  using assms
  by (auto simp: append_eq_append_conv2 Cons_eq_append_conv append_eq_Cons_conv)

lemma resp_ok_Nil [simp]: "resp_ok finished []"
  by (simp add: resp_ok_def)

lemma resp_ok_weaken: "resp_ok True l \<Longrightarrow> resp_ok finished l"
  unfolding resp_ok_def by blast

lemma resp_ok_append_quiet:
  assumes "resp_ok True l" "\<forall>z\<in>set es. \<not> is_export z"
  shows "resp_ok True (l @ es)"
  unfolding resp_ok_def
proof (intro allI impI)
  fix pre q prm x dyn post
  assume eq: "l @ es = pre @ EvOnnxExport q prm x dyn # post"
  from eq assms(2) obtain post0 where l: "l = pre @ EvOnnxExport q prm x dyn # post0" "post = post0 @ es"
    by (auto simp: append_eq_append_conv2 Cons_eq_append_conv append_eq_Cons_conv)
  from assms(1) l(1) have "(\<exists>pre'. pre = pre' @ [EvNetworkCall prm x]) \<and>
        (\<exists>m. prefix (reload_events q m x) post0)"
    unfolding resp_ok_def by blast
  then show "(\<exists>pre'. pre = pre' @ [EvNetworkCall prm x]) \<and>
        (\<exists>m. prefix (reload_events q m x) post \<or> \<not> True \<and> prefix post (reload_events q m x))"
    using l(2) by (blast intro: prefix_prefix)
qed

lemma resp_ok_block:
  assumes l: "resp_ok True l"
    and A: "\<forall>z\<in>set A. \<not> is_export z" and C: "\<forall>z\<in>set C. \<not> is_export z"
    and es: "prefix es (A @ [EvNetworkCall prm x, EvOnnxExport q prm x dyn] @ reload_events q m x @ C)"
  shows "resp_ok (es = A @ [EvNetworkCall prm x, EvOnnxExport q prm x dyn] @ reload_events q m x @ C) (l @ es)"
  unfolding resp_ok_def
proof (intro allI impI)
  fix pre q' prm' x' dyn' post
  let ?full = "A @ [EvNetworkCall prm x, EvOnnxExport q prm x dyn] @ reload_events q m x @ C"
  let ?goal = "(\<exists>pre'. pre = pre' @ [EvNetworkCall prm' x']) \<and>
        (\<exists>m'. prefix (reload_events q' m' x') post \<or>
              \<not> (es = ?full) \<and> prefix post (reload_events q' m' x'))"
  assume eq: "l @ es = pre @ EvOnnxExport q' prm' x' dyn' # post"
  from es obtain rest where rest: "?full = es @ rest" by (auto simp: prefix_def)
  from eq consider
    (old) post0 where "l = pre @ EvOnnxExport q' prm' x' dyn' # post0" "post = post0 @ es"
    | (new) t where "pre = l @ t" "es = t @ EvOnnxExport q' prm' x' dyn' # post"
    by (auto simp: append_eq_append_conv2 Cons_eq_append_conv append_eq_Cons_conv)
  then show ?goal
  proof cases
    case old
    from l old(1) have "(\<exists>pre'. pre = pre' @ [EvNetworkCall prm' x']) \<and>
        (\<exists>m'. prefix (reload_events q' m' x') post0)"
      unfolding resp_ok_def by blast
    then show ?thesis using old(2) by (blast intro: prefix_prefix)
  next
    case new
    have noexp: "\<forall>z\<in>set (reload_events q m x @ C). \<not> is_export z"
      using C by (auto simp: reload_events_def)
    from rest new(2) have
      "t @ EvOnnxExport q' prm' x' dyn' # (post @ rest) =
         A @ EvNetworkCall prm x # EvOnnxExport q prm x dyn # (reload_events q m x @ C)"
      by simp
    from first_export_unique [OF this _ A _ noexp] have
      t: "t = A @ [EvNetworkCall prm x]" and same: "EvOnnxExport q' prm' x' dyn' = EvOnnxExport q prm x dyn"
      and tail: "post @ rest = reload_events q m x @ C"
      by simp_all
    from same have [simp]: "q' = q" "prm' = prm" "x' = x" by simp_all
    have pre: "\<exists>pre'. pre = pre' @ [EvNetworkCall prm' x']"
      using new(1) t by simp
    from tail have "prefix (reload_events q m x) post \<or> prefix post (reload_events q m x)"
      by (metis append_eq_append_conv2 prefixI)
    moreover have "prefix (reload_events q m x) post" if "es = ?full"
    proof -
      from that rest have "rest = []" by simp
      with tail show ?thesis by (simp add: prefix_def)
    qed
    ultimately show ?thesis using pre by auto
  qed
qed

subsection \<open>Records and the metadata dictionary\<close>

lemma hist_from_Nil [simp]: "hist_from R l []"
  by (simp add: hist_from_def)

lemma hist_from_Cons [simp]:
  "hist_from R l (ev # es) = (R l ev \<and> hist_from R (l @ [ev]) es)"
proof
  assume h: "hist_from R l (ev # es)"
  have "R l ev" using h [unfolded hist_from_def, rule_format, of "[]" ev es] by simp
  moreover have "hist_from R (l @ [ev]) es"
    unfolding hist_from_def
  proof (intro allI impI)
    fix pre e post assume "es = pre @ e # post"
    then have "ev # es = (ev # pre) @ e # post" by simp
    from h [unfolded hist_from_def, rule_format, OF this] show "R ((l @ [ev]) @ pre) e" by simp
  qed
  ultimately show "R l ev \<and> hist_from R (l @ [ev]) es" ..
next
  assume h: "R l ev \<and> hist_from R (l @ [ev]) es"
  show "hist_from R l (ev # es)"
    unfolding hist_from_def
  proof (intro allI impI)
    fix pre e post assume eq: "ev # es = pre @ e # post"
    show "R (l @ pre) e"
    proof (cases pre)
      case Nil
      with eq h show ?thesis by simp
    next
      case (Cons z zs)
      with eq have "z = ev" "es = zs @ e # post" by simp_all
      with h [THEN conjunct2, unfolded hist_from_def, rule_format, of zs e post] Cons
      show ?thesis by simp
    qed
  qed
qed

lemma hist_from_append:
  "hist_from R l (es @ es') = (hist_from R l es \<and> hist_from R (l @ es) es')"
  by (induction es arbitrary: l) auto

lemma hist_append: "hist R (l @ es) = (hist R l \<and> hist_from R l es)"
  by (simp add: hist_def hist_from_append)

lemma hist_from_prefix: "hist_from R l es \<Longrightarrow> prefix es' es \<Longrightarrow> hist_from R l es'"
  by (auto simp: prefix_def hist_from_append)

lemma hist_Nil [simp]: "hist R []"
  by (simp add: hist_def)

lemma last_checkpoint_append:
  "last_checkpoint (l @ es) =
     foldl (\<lambda>acc ev. case ev of EvInitialize d fl ck \<Rightarrow> Some ck | _ \<Rightarrow> acc) (last_checkpoint l) es"
  by (simp add: last_checkpoint_def)


lemma list_all_update:
  "list_all P al \<Longrightarrow> P (k, v) \<Longrightarrow> list_all P (AList.update k v al)"
  by (induction al) auto

lemma channels_dict_entries:
  "channels_dict props kvs acc = Inr chs \<Longrightarrow> list_all channel_entry acc \<Longrightarrow>
   list_all channel_entry chs"
proof (induction kvs arbitrary: acc)
  case Nil
  then show ?case by simp
next
  case (Cons kv kvs)
  obtain k v where kv: "kv = (k, v)" by (cases kv)
  from Cons.prems(1) obtain p where p: "getitem props k = Inr p"
    and rest: "channels_dict props kvs
                 (AList.update k (JObj [(''name'', v), (''foreground_properties'', p)]) acc) = Inr chs"
    by (auto simp: kv split: sum.splits)
  have "list_all channel_entry
          (AList.update k (JObj [(''name'', v), (''foreground_properties'', p)]) acc)"
    by (rule list_all_update [OF Cons.prems(2)]) (simp add: channel_entry_def dict_keys_def)
  from Cons.IH [OF rest this] show ?case .
qed

lemma config_dict_documented:
  assumes "config_dict a c f config dn dj props = Inr j"
  shows "documented j \<and> getitem j ''configuration'' = Inr (JStr c) \<and>
         getitem j ''fold'' = Inr (fold_json f)"
proof -
  from assms obtain dp where dp: "dataset_parameters dn dj props = Inr dp"
    and j: "j = JObj [(''configuration'', JStr c), (''fold'', fold_json f),
                      (''model_parameters'', model_parameters a config),
                      (''dataset_parameters'', dp)]"
    by (auto simp: config_dict_def split: sum.splits)
  from dp obtain cn_items chs nch ncl cls where
    ch: "channels_dict props cn_items [] = Inr chs"
    and dpv: "dp = JObj [(''dataset_name'', JStr dn), (''num_channels'', nch),
                (''channels'', JObj chs), (''num_classes'', ncl), (''class_names'', cls)]"
    by (auto simp: dataset_parameters_def split: sum.splits)
  from channels_dict_entries [OF ch] have "list_all channel_entry chs" by simp
  then show ?thesis
    by (simp add: j dpv documented_def dict_keys_def getitem_def model_parameters_def)
qed

lemma is_context_simps [simp]:
  "is_context (EvGetOutputFolder dn tr pl c)"
  "is_context (EvInitialize d fl ck)"
  "is_context (EvLoadStateDict prm)"
  "\<not> is_context (EvPrint s)"
  "\<not> is_context (EvConvertDatasetName r)"
  "\<not> is_context (EvLoadJson p)"
  "\<not> is_context EvNetworkEval"
  "\<not> is_context (EvMkdir p)"
  "\<not> is_context (EvTorchRand shp)"
  "\<not> is_context (EvNetworkCall prm x)"
  "\<not> is_context (EvOnnxExport q prm x dyn)"
  "\<not> is_context (EvOnnxLoad p)"
  "\<not> is_context (EvCheckModel m)"
  "\<not> is_context (EvInferenceSession p ps)"
  "\<not> is_context (EvSessionRun p x)"
  "\<not> is_context (EvAssertAllclose x y)"
  "\<not> is_context (EvOpenWrite p)"
  "\<not> is_context (EvJsonDump p j)"
  by (simp_all add: is_context_def)

lemma current_configuration_append:
  "current_configuration (l @ es) =
     foldl (\<lambda>acc ev. case ev of EvGetOutputFolder dn tr pl c \<Rightarrow> Some c | _ \<Rightarrow> acc)
       (current_configuration l) es"
  by (simp add: current_configuration_def)

lemma current_params_append:
  "current_params (l @ es) =
     foldl (\<lambda>acc ev. case ev of EvLoadStateDict prm \<Rightarrow> Some prm | _ \<Rightarrow> acc) (current_params l) es"
  by (simp add: current_params_def)

lemma context_quiet:
  assumes "\<forall>z\<in>set es. \<not> is_context z"
  shows "current_configuration (l @ es) = current_configuration l"
    and "current_params (l @ es) = current_params l"
    and "last_checkpoint (l @ es) = last_checkpoint l"
  using assms
proof (induction es rule: rev_induct)
  case Nil
  {
    case 1 show ?case by simp
  next
    case 2 show ?case by simp
  next
    case 3 show ?case by simp
  }
next
  case (snoc z es)
  {
    case 1
    with snoc(1) have "current_configuration (l @ es) = current_configuration l" by simp
    moreover from 1 have "current_configuration ((l @ es) @ [z]) = current_configuration (l @ es)"
      by (cases z) (simp_all add: current_configuration_append)
    ultimately show ?case by simp
  next
    case 2
    with snoc(2) have "current_params (l @ es) = current_params l" by simp
    moreover from 2 have "current_params ((l @ es) @ [z]) = current_params (l @ es)"
      by (cases z) (simp_all add: current_params_append)
    ultimately show ?case by simp
  next
    case 3
    with snoc(3) have "last_checkpoint (l @ es) = last_checkpoint l" by simp
    moreover from 3 have "last_checkpoint ((l @ es) @ [z]) = last_checkpoint (l @ es)"
      by (cases z) (simp_all add: last_checkpoint_append)
    ultimately show ?case by simp
  }
qed

lemma processing_in_pass:
  assumes "c \<in> set (configurations a)"
    and "initialize_from_trained_model_folder env r0 dir0 (folds a) ck = Inr (lop, config0)"
    and "(f, prm) \<in> set (zip (folds a) lop)"
    and "last_checkpoint l = Some ck" and "current_configuration l = Some c"
    and quiet: "\<forall>z\<in>set es. \<not> is_context z"
  shows "processing env a (l @ EvLoadStateDict prm # es) c f \<and>
         current_params (l @ EvLoadStateDict prm # es) = Some prm"
proof -
  have 1: "current_configuration (l @ EvLoadStateDict prm # es) = Some c"
    using context_quiet(1) [OF quiet, of "l @ [EvLoadStateDict prm]"] assms(5)
    by (simp add: current_configuration_append)
  have 2: "current_params (l @ EvLoadStateDict prm # es) = Some prm"
    using context_quiet(2) [OF quiet, of "l @ [EvLoadStateDict prm]"]
    by (simp add: current_params_append)
  have 3: "last_checkpoint (l @ EvLoadStateDict prm # es) = Some ck"
    using context_quiet(3) [OF quiet, of "l @ [EvLoadStateDict prm]"] assms(4)
    by (simp add: last_checkpoint_append)
  from assms(1,2,3) 1 2 3 show ?thesis
    unfolding processing_def by blast
qed

lemma verify_events_pass:
  assumes "mk = [] \<or> mk = [EvMkdir d]" "warn = [] \<or> (\<exists>msg. warn = warning_events msg)"
  obtains es where "verify_events d prm oname mk shp dyn x m y out0 warn = EvLoadStateDict prm # es"
    and "\<forall>z\<in>set es. \<not> is_context z"
  using assms
  by (auto simp: verify_events_def export_events_def reload_events_def warning_events_def)

lemma ok_verify_events:
  assumes c: "c \<in> set (configurations a)"
    and init: "initialize_from_trained_model_folder env r0 dir0 (folds a) ck = Inr (lop, config0)"
    and fp: "(f, prm) \<in> set (zip (folds a) lop)"
    and mk: "mk = [] \<or> mk = [EvMkdir (curr_output_dir a c f)]"
    and warn: "warn = [] \<or> (\<exists>msg. warn = warning_events msg)"
    and lc: "last_checkpoint l = Some ck"
    and cc: "current_configuration l = Some c"
    and nm: "default_names a \<longrightarrow> oname = derived_name ck"
    and on: "oname \<in> set (pending (initial_names a))"
  shows "hist_from (ok env a) l
           (verify_events (curr_output_dir a c f) prm oname mk shp dyn x m y out0 warn)"
proof -
  let ?d = "curr_output_dir a c f"
  note P = processing_in_pass [OF c init fp lc cc]
  have mkd: "ok env a (l @ [EvLoadStateDict prm, EvNetworkEval]) (EvMkdir ?d)"
    using P [of "[EvNetworkEval]"] by (auto simp: ok_def placed_def)
  have ex: "ok env a (l @ [EvLoadStateDict prm, EvNetworkEval] @ mk @
                [EvTorchRand shp, EvNetworkCall prm x]) (EvOnnxExport (?d @ [oname]) prm x dyn)"
  proof -
    let ?es = "[EvNetworkEval] @ mk @ [EvTorchRand shp, EvNetworkCall prm x]"
    have q: "\<forall>z\<in>set ?es. \<not> is_context z" using mk by auto
    from P [OF q] have pr: "processing env a (l @ EvLoadStateDict prm # ?es) c f"
      and cp: "current_params (l @ EvLoadStateDict prm # ?es) = Some prm" by simp_all
    from context_quiet(3) [OF q, of "l @ [EvLoadStateDict prm]"] lc
    have lc': "last_checkpoint (l @ EvLoadStateDict prm # ?es) = Some ck"
      by (simp add: last_checkpoint_append)
    have "placed env a (l @ EvLoadStateDict prm # ?es) (EvOnnxExport (?d @ [oname]) prm x dyn)"
      using pr cp on unfolding placed_def by auto
    moreover have "named_after a (l @ EvLoadStateDict prm # ?es) (?d @ [oname])"
      using nm lc' by (simp add: named_after_def)
    ultimately show ?thesis by (simp add: ok_def)
  qed
  have quiet: "ok env a pre z"
    if "z \<in> set (reload_events (?d @ [oname]) m x @ [EvAssertAllclose y out0] @ warn @
                  [EvPrint (exported_message (?d @ [oname]))])" for pre z
    using that warn by (auto simp: reload_events_def warning_events_def ok_def placed_def)
  have tl: "hist_from (ok env a) l' (reload_events (?d @ [oname]) m x @ [EvAssertAllclose y out0] @
              warn @ [EvPrint (exported_message (?d @ [oname]))])" for l'
    unfolding hist_from_def using quiet by (metis in_set_conv_decomp)
  have triv: "ok env a pre (EvLoadStateDict prm)" "ok env a pre EvNetworkEval"
    "ok env a pre (EvTorchRand shp)" "ok env a pre (EvNetworkCall prm x)" for pre
    by (simp_all add: ok_def placed_def)
  have hd: "hist_from (ok env a) l ([EvLoadStateDict prm, EvNetworkEval] @ mk @
              [EvTorchRand shp, EvNetworkCall prm x])"
    using mk mkd triv by (auto simp: hist_from_append)
  show ?thesis
    unfolding verify_events_def export_events_def
    using hd ex tl [of "l @ [EvLoadStateDict prm, EvNetworkEval] @ mk @
              [EvTorchRand shp, EvNetworkCall prm x, EvOnnxExport (?d @ [oname]) prm x dyn]"]
    by (simp add: hist_from_append)
qed


lemma last_checkpoint_quiet:
  "\<forall>z\<in>set es. \<not> is_init z \<Longrightarrow> last_checkpoint (l @ es) = last_checkpoint l"
proof (induction es rule: rev_induct)
  case Nil
  then show ?case by simp
next
  case (snoc z es)
  then have "last_checkpoint (l @ es) = last_checkpoint l" by simp
  moreover have "last_checkpoint ((l @ es) @ [z]) = last_checkpoint (l @ es)"
    using snoc.prems by (cases z) (simp_all add: last_checkpoint_append is_init_def)
  ultimately show ?case by simp
qed

lemma resp_ok_False: "resp_ok b l \<Longrightarrow> resp_ok False l"
  unfolding resp_ok_def by blast

lemma is_open_simps [simp]:
  "is_open (EvOpenWrite p)"
  "\<not> is_open (EvPrint s)"
  "\<not> is_open (EvConvertDatasetName r)"
  "\<not> is_open (EvGetOutputFolder dn tr pl c)"
  "\<not> is_open (EvLoadJson p)"
  "\<not> is_open (EvInitialize d fl ck)"
  "\<not> is_open (EvLoadStateDict prm)"
  "\<not> is_open EvNetworkEval"
  "\<not> is_open (EvMkdir p)"
  "\<not> is_open (EvTorchRand shp)"
  "\<not> is_open (EvNetworkCall prm x)"
  "\<not> is_open (EvOnnxExport q prm x dyn)"
  "\<not> is_open (EvOnnxLoad p)"
  "\<not> is_open (EvCheckModel m)"
  "\<not> is_open (EvInferenceSession p ps)"
  "\<not> is_open (EvSessionRun p x)"
  "\<not> is_open (EvAssertAllclose x y)"
  "\<not> is_open (EvJsonDump p j)"
  by (simp_all add: is_open_def)

lemma opens_ok_Nil [simp]: "opens_ok finished []"
  by (simp add: opens_ok_def)

lemma opens_ok_weaken: "opens_ok True l \<Longrightarrow> opens_ok finished l"
  unfolding opens_ok_def by blast

lemma open_in_left:
  assumes "l @ es = pre @ EvOpenWrite p # post" and "\<forall>z\<in>set es. \<not> is_open z"
  obtains post0 where "l = pre @ EvOpenWrite p # post0" "post = post0 @ es"
  using assms
  by (auto simp: append_eq_append_conv2 Cons_eq_append_conv append_eq_Cons_conv)

lemma opens_ok_append_quiet:
  assumes "opens_ok True l" "\<forall>z\<in>set es. \<not> is_open z"
  shows "opens_ok True (l @ es)"
  unfolding opens_ok_def
proof (intro allI impI)
  fix pre p post
  assume eq: "l @ es = pre @ EvOpenWrite p # post"
  from eq assms(2) obtain post0 where l: "l = pre @ EvOpenWrite p # post0" "post = post0 @ es"
    by (rule open_in_left)
  from assms(1) l(1) obtain j post' where "post0 = EvJsonDump p j # post'"
    unfolding opens_ok_def by blast
  with l(2) show "(\<exists>j post'. post = EvJsonDump p j # post') \<or> \<not> True \<and> post = []"
    by simp
qed

lemma opens_ok_dumped:
  assumes "opens_ok True l" "\<forall>z\<in>set V. \<not> is_open z"
  shows "opens_ok True (l @ V @ [EvOpenWrite p, EvJsonDump p j])"
  unfolding opens_ok_def
proof (intro allI impI)
  fix pre p' post
  assume eq: "l @ V @ [EvOpenWrite p, EvJsonDump p j] = pre @ EvOpenWrite p' # post"
  from assms have lv: "opens_ok True (l @ V)" by (rule opens_ok_append_quiet)
  from eq have "((l @ V) @ [EvOpenWrite p]) @ [EvJsonDump p j] = pre @ EvOpenWrite p' # post"
    by simp
  then obtain post0 where
    l: "(l @ V) @ [EvOpenWrite p] = pre @ EvOpenWrite p' # post0" "post = post0 @ [EvJsonDump p j]"
    by (rule open_in_left) simp
  show "(\<exists>j post'. post = EvJsonDump p' j # post') \<or> \<not> True \<and> post = []"
  proof (cases post0 rule: rev_cases)
    case Nil
    with l show ?thesis by simp
  next
    case (snoc post1 z)
    with l(1) have "l @ V = pre @ EvOpenWrite p' # post1" by simp
    with lv obtain j' post' where "post1 = EvJsonDump p' j' # post'"
      unfolding opens_ok_def by blast
    with snoc l(2) show ?thesis by simp
  qed
qed

lemma opens_ok_opened:
  assumes "opens_ok True l" "\<forall>z\<in>set V. \<not> is_open z" "prefix es (V @ [EvOpenWrite p])"
  shows "opens_ok False (l @ es)"
proof (cases "es = V @ [EvOpenWrite p]")
  case True
  from assms(1,2) have lv: "opens_ok True (l @ V)" by (rule opens_ok_append_quiet)
  show ?thesis
    unfolding opens_ok_def
  proof (intro allI impI)
    fix pre p' post
    assume eq: "l @ es = pre @ EvOpenWrite p' # post"
    show "(\<exists>j post'. post = EvJsonDump p' j # post') \<or> \<not> False \<and> post = []"
    proof (cases post rule: rev_cases)
      case Nil
      then show ?thesis by simp
    next
      case (snoc post1 z)
      with eq True have "l @ V = pre @ EvOpenWrite p' # post1" by simp
      with lv obtain j' post' where "post1 = EvJsonDump p' j' # post'"
        unfolding opens_ok_def by blast
      with snoc show ?thesis by simp
    qed
  qed
next
  case False
  with assms(3) have "prefix es V"
    by (auto simp: prefix_def append_eq_append_conv2 Cons_eq_append_conv)
  then have "set es \<subseteq> set V" by (rule set_mono_prefix)
  with assms(2) have "\<forall>z\<in>set es. \<not> is_open z" by blast
  with assms(1) have "opens_ok True (l @ es)" by (rule opens_ok_append_quiet)
  then show ?thesis by (rule opens_ok_weaken)
qed

lemma answered_Nil [simp]: "answered finished []"
  by (simp add: answered_def)

lemma answered_weaken: "answered True l \<Longrightarrow> answered finished l"
  by (simp add: answered_def resp_ok_weaken opens_ok_weaken)

lemma answered_append_quiet:
  assumes "answered True l" "\<forall>z\<in>set es. \<not> is_export z" "\<forall>z\<in>set es. \<not> is_open z"
  shows "answered True (l @ es)"
  using assms by (simp add: answered_def resp_ok_append_quiet opens_ok_append_quiet)

subsection \<open>One pass through the loop over the folds\<close>

lemma not_unit_isl: "r \<noteq> Inr () \<Longrightarrow> isl (r :: error + unit)"
  by (cases r) auto

lemma verified_beforeI:
  assumes "mk = [] \<or> mk = [EvMkdir (curr_output_dir a c f)]"
    and "warn = [] \<or> (\<exists>msg. warn = warning_events msg)"
    and "\<exists>r dn tr pl dir fl ck.
           subseq [EvConvertDatasetName r, EvGetOutputFolder dn tr pl c, EvInitialize dir fl ck] pre0"
  shows "verified_before a
           (pre0 @ verify_events (curr_output_dir a c f) prm oname mk shp dyn x m y out0 warn)
           (curr_output_dir a c f @ [''config.json''])"
  unfolding verified_before_def
  apply (rule exI [where x = pre0], rule exI [where x = c], rule exI [where x = f])
  apply (rule exI [where x = prm], rule exI [where x = oname], rule exI [where x = mk])
  apply (rule exI [where x = shp], rule exI [where x = dyn], rule exI [where x = x])
  apply (rule exI [where x = m], rule exI [where x = y], rule exI [where x = out0])
  apply (rule exI [where x = warn])
  using assms by simp

lemma verify_events_quiet:
  assumes "mk = [] \<or> mk = [EvMkdir d]" "warn = [] \<or> (\<exists>msg. warn = warning_events msg)"
  shows "\<forall>z\<in>set (verify_events d prm oname mk shp dyn x m y out0 warn). \<not> is_init z"
  using assms
  by (auto simp: verify_events_def export_events_def reload_events_def warning_events_def
      is_init_def)

lemma export_fold_inv:
  assumes run: "export_fold env a dn c dj props config oname (f, prm) st = (r, st')"
    and h: "hist (ok env a) (trace st)" and rs: "answered True (trace st)"
    and ctx: "ctx_fold c ck (trace st)"
    and c: "c \<in> set (configurations a)"
    and init: "initialize_from_trained_model_folder env r0 dir0 (folds a) ck = Inr (lop, config0)"
    and fp: "(f, prm) \<in> set (zip (folds a) lop)"
    and nm: "default_names a \<longrightarrow> oname = derived_name ck"
    and on: "oname \<in> set (pending (initial_names a))"
  shows "hist (ok env a) (trace st') \<and> answered (\<not> isl r) (trace st') \<and> ctx_fold c ck (trace st') \<and>
         \<not> script_value_error r"
proof -
  let ?d = "curr_output_dir a c f"
  let ?q = "?d @ [oname]"
  let ?cfg = "?d @ [''config.json'']"
  let ?l = "trace st"
  let ?shp = "input_shape a config"
  let ?dyn = "use_dynamic_axes a"
  note T = export_fold_trace [OF run]
  from T have nv: "\<not> script_value_error r" by (rule conjunct1)
  from T [THEN conjunct2] obtain es mk x m y out0 warn where all:
    "trace st' = ?l @ es \<and>
     (mk = [] \<or> mk = [EvMkdir ?d]) \<and>
     (warn = [] \<or> (\<exists>msg. warn = warning_events msg)) \<and>
     (r \<noteq> Inr () \<and>
        prefix es (verify_events ?d prm oname mk ?shp ?dyn x m y out0 warn @ [EvOpenWrite ?cfg]) \<or>
        (\<exists>j. es = verify_events ?d prm oname mk ?shp ?dyn x m y out0 warn @
                   [EvOpenWrite ?cfg, EvJsonDump ?cfg j] \<and>
             config_dict a c f config dn dj props = Inr j))"
    by (elim exE) (rule that)
  from all have tr: "trace st' = ?l @ es" by (rule conjunct1)
  from all [THEN conjunct2] have mk: "mk = [] \<or> mk = [EvMkdir ?d]" by (rule conjunct1)
  from all [THEN conjunct2, THEN conjunct2] have
    warn: "warn = [] \<or> (\<exists>msg. warn = warning_events msg)" by (rule conjunct1)
  from all [THEN conjunct2, THEN conjunct2, THEN conjunct2] have
    shape: "r \<noteq> Inr () \<and>
        prefix es (verify_events ?d prm oname mk ?shp ?dyn x m y out0 warn @ [EvOpenWrite ?cfg]) \<or>
        (\<exists>j. es = verify_events ?d prm oname mk ?shp ?dyn x m y out0 warn @
                   [EvOpenWrite ?cfg, EvJsonDump ?cfg j] \<and>
             config_dict a c f config dn dj props = Inr j)" .
  let ?V = "verify_events ?d prm oname mk ?shp ?dyn x m y out0 warn"
  let ?A = "[EvLoadStateDict prm, EvNetworkEval] @ mk @ [EvTorchRand ?shp]"
  let ?C = "\<lambda>rest. [EvAssertAllclose y out0] @ warn @ [EvPrint (exported_message ?q)] @ rest"
  have blk: "?V @ rest = ?A @ [EvNetworkCall prm x, EvOnnxExport ?q prm x ?dyn] @
                 reload_events ?q m x @ ?C rest" for rest
    by (simp add: verify_events_def export_events_def)
  from ctx have lc: "last_checkpoint ?l = Some ck"
    and cc: "current_configuration ?l = Some c"
    and sub: "\<exists>r dn tr pl dir fl.
         subseq [EvConvertDatasetName r, EvGetOutputFolder dn tr pl c, EvInitialize dir fl ck] ?l"
    by (simp_all add: ctx_fold_def)
  have V: "hist_from (ok env a) ?l ?V"
    by (rule ok_verify_events [OF c init fp mk warn lc cc nm on])
  from mk warn obtain vs where vs: "?V = EvLoadStateDict prm # vs"
    and quietC: "\<forall>z\<in>set vs. \<not> is_context z"
    by (rule verify_events_pass)
  have PV: "processing env a (?l @ ?V) c f"
    unfolding vs using processing_in_pass [OF c init fp lc cc quietC] by simp
  have PW: "processing env a (?l @ ?V @ [EvOpenWrite ?cfg]) c f"
  proof -
    from quietC have "\<forall>z\<in>set (vs @ [EvOpenWrite ?cfg]). \<not> is_context z" by simp
    from processing_in_pass [OF c init fp lc cc this] show ?thesis
      unfolding vs by simp
  qed
  have OW: "ok env a (?l @ ?V) (EvOpenWrite ?cfg)"
  proof -
    have "placed env a (?l @ ?V) (EvOpenWrite ?cfg)"
      using PV unfolding placed_def by auto
    moreover have "verified_before a (?l @ ?V) ?cfg"
      by (rule verified_beforeI [OF mk warn]) (use sub in blast)
    ultimately show ?thesis by (simp add: ok_def)
  qed
  have quietV: "\<forall>z\<in>set ?V. \<not> is_init z"
    using mk warn by (rule verify_events_quiet)
  have cc_keep: "current_configuration (?l @ es') = Some c"
    if "set es' \<subseteq> set (?V @ [EvOpenWrite ?cfg, EvJsonDump ?cfg j'])" for es' j'
  proof -
    have "\<forall>z\<in>set ?V. case z of EvGetOutputFolder dn tr pl c' \<Rightarrow> False | _ \<Rightarrow> True"
      using mk warn
      by (auto simp: verify_events_def export_events_def reload_events_def warning_events_def)
    with that have q: "\<forall>z\<in>set es'. case z of EvGetOutputFolder dn tr pl c' \<Rightarrow> False | _ \<Rightarrow> True"
      by auto
    have "current_configuration (?l @ es') = current_configuration ?l"
      using q
    proof (induction es' rule: rev_induct)
      case Nil
      show ?case by simp
    next
      case (snoc z zs)
      then have "current_configuration (?l @ zs) = current_configuration ?l" by simp
      moreover from snoc.prems have
        "current_configuration ((?l @ zs) @ [z]) = current_configuration (?l @ zs)"
        by (cases z) (simp_all add: current_configuration_append)
      ultimately show ?case by simp
    qed
    with cc show ?thesis by simp
  qed
  have quietO: "\<forall>z\<in>set ?V. \<not> is_open z"
    using mk warn
    by (auto simp: verify_events_def export_events_def reload_events_def warning_events_def)
  from rs have rs': "resp_ok True ?l" and op: "opens_ok True ?l"
    by (simp_all add: answered_def)
  have A: "\<forall>z\<in>set ?A. \<not> is_export z"
    using mk by auto
  have C: "\<forall>z\<in>set (?C rest). \<not> is_export z" if "\<forall>z\<in>set rest. \<not> is_export z" for rest
    using warn that by (auto simp: warning_events_def)
  have sub': "\<exists>r dn tr pl dir fl.
         subseq [EvConvertDatasetName r, EvGetOutputFolder dn tr pl c, EvInitialize dir fl ck] (?l @ es)"
  proof -
    from sub obtain r0 dn0 tr0 pl0 dir0 fl0 where
      "subseq [EvConvertDatasetName r0, EvGetOutputFolder dn0 tr0 pl0 c, EvInitialize dir0 fl0 ck] ?l"
      by blast
    then have
      "subseq [EvConvertDatasetName r0, EvGetOutputFolder dn0 tr0 pl0 c, EvInitialize dir0 fl0 ck]
         (?l @ es)"
      by (rule list_emb_prefix)
    then show ?thesis by blast
  qed
  from shape show ?thesis
  proof
    assume fail: "r \<noteq> Inr () \<and> prefix es (?V @ [EvOpenWrite ?cfg])"
    then have pre: "prefix es (?V @ [EvOpenWrite ?cfg])" and r: "isl r"
      by (simp_all add: not_unit_isl)
    have "hist_from (ok env a) ?l (?V @ [EvOpenWrite ?cfg])"
      using V OW by (simp add: hist_from_append)
    from hist_from_prefix [OF this pre] h have 1: "hist (ok env a) (trace st')"
      by (simp add: tr hist_append)
    have C1: "\<forall>z\<in>set (?C [EvOpenWrite ?cfg]). \<not> is_export z"
      by (rule C) simp
    from pre have pre': "prefix es (?A @ [EvNetworkCall prm x, EvOnnxExport ?q prm x ?dyn] @
                 reload_events ?q m x @ ?C [EvOpenWrite ?cfg])"
      unfolding blk .
    have 2: "answered False (trace st')"
    proof -
      have "resp_ok False (trace st')"
        unfolding tr by (rule resp_ok_False, rule resp_ok_block [OF rs' A C1 pre'])
      moreover have "opens_ok False (trace st')"
        unfolding tr by (rule opens_ok_opened [OF op quietO pre])
      ultimately show ?thesis by (simp add: answered_def)
    qed
    have 3: "ctx_fold c ck (trace st')"
    proof -
      from pre have "set es \<subseteq> set (?V @ [EvOpenWrite ?cfg])"
        by (rule set_mono_prefix)
      with quietV have "\<forall>z\<in>set es. \<not> is_init z"
        by (auto simp: is_init_def)
      then have "last_checkpoint (trace st') = Some ck"
        by (simp add: tr last_checkpoint_quiet lc)
      moreover from pre have "set es \<subseteq> set (?V @ [EvOpenWrite ?cfg, EvJsonDump ?cfg JNull])"
        by (auto dest: set_mono_prefix)
      then have "current_configuration (trace st') = Some c"
        unfolding tr by (rule cc_keep)
      ultimately show ?thesis using sub' by (simp add: ctx_fold_def tr)
    qed
    from 1 2 3 nv r show ?thesis by simp
  next
    assume "\<exists>j. es = ?V @ [EvOpenWrite ?cfg, EvJsonDump ?cfg j] \<and>
             config_dict a c f config dn dj props = Inr j"
    then obtain j where es: "es = ?V @ [EvOpenWrite ?cfg, EvJsonDump ?cfg j]"
      and j: "config_dict a c f config dn dj props = Inr j" by blast
    have "getitem j ''configuration'' = Inr (JStr c) \<and> getitem j ''fold'' = Inr (fold_json f)"
      using j by (auto simp: config_dict_def getitem_def split: sum.splits)
    with PW have "placed env a (?l @ ?V @ [EvOpenWrite ?cfg]) (EvJsonDump ?cfg j)"
      unfolding placed_def by auto
    with config_dict_documented [OF j] have JD: "ok env a (?l @ ?V @ [EvOpenWrite ?cfg]) (EvJsonDump ?cfg j)"
      by (simp add: ok_def)
    have 1: "hist (ok env a) (trace st')"
      using h V OW JD by (simp add: tr es hist_append hist_from_append)
    have C2: "\<forall>z\<in>set (?C [EvOpenWrite ?cfg, EvJsonDump ?cfg j]). \<not> is_export z"
      by (rule C) simp
    have full: "es = ?A @ [EvNetworkCall prm x, EvOnnxExport ?q prm x ?dyn] @
                 reload_events ?q m x @ ?C [EvOpenWrite ?cfg, EvJsonDump ?cfg j]"
      unfolding es blk ..
    then have pre': "prefix es (?A @ [EvNetworkCall prm x, EvOnnxExport ?q prm x ?dyn] @
                 reload_events ?q m x @ ?C [EvOpenWrite ?cfg, EvJsonDump ?cfg j])"
      by simp
    have 2: "answered True (trace st')"
    proof -
      from resp_ok_block [OF rs' A C2 pre'] full have "resp_ok True (trace st')"
        unfolding tr by simp
      moreover have "opens_ok True (trace st')"
        unfolding tr es by (rule opens_ok_dumped [OF op quietO])
      ultimately show ?thesis by (simp add: answered_def)
    qed
    have 3: "ctx_fold c ck (trace st')"
    proof -
      from quietV have "\<forall>z\<in>set es. \<not> is_init z"
        by (auto simp: es is_init_def)
      then have "last_checkpoint (trace st') = Some ck"
        by (simp add: tr last_checkpoint_quiet lc)
      moreover have "current_configuration (trace st') = Some c"
        unfolding tr by (rule cc_keep [of _ j]) (simp add: es)
      ultimately show ?thesis using sub' by (simp add: ctx_fold_def tr)
    qed
    from 1 2 3 nv show ?thesis by (auto intro: answered_weaken)
  qed
qed

subsection \<open>The loops\<close>

lemma for_each_rule:
  assumes "for_each body xs s = (r, s')" and "I s"
    and step: "\<And>x s r s'. x \<in> set xs \<Longrightarrow> I s \<Longrightarrow> body x s = (r, s') \<Longrightarrow>
                 Q r s' \<and> (\<not> isl r \<longrightarrow> I s')"
    and fin: "\<And>s. I s \<Longrightarrow> Q (Inr ()) s"
  shows "Q r s'"
  using assms(1,2,3)
proof (induction xs arbitrary: s)
  case Nil
  then show ?case using fin by simp
next
  case (Cons x xs)
  obtain r1 s1 where b: "body x s = (r1, s1)" by (cases "body x s")
  from Cons.prems(3) [OF _ Cons.prems(2) b] have q: "Q r1 s1" and i: "\<not> isl r1 \<longrightarrow> I s1"
    by simp_all
  show ?case
  proof (cases r1)
    case (Inl e)
    with Cons.prems(1) b q show ?thesis by simp
  next
    case (Inr u)
    with Cons.prems(1) b have "for_each body xs s1 = (r, s')" by simp
    moreover from Inr i have "I s1" by simp
    ultimately show ?thesis
      using Cons.prems(3) by (intro Cons.IH) auto
  qed
qed

lemma load_json_trace:
  assumes "load_json p st = (r, st')"
  shows "trace st' = trace st @ [EvLoadJson p] \<and> fs st' = fs st \<and> \<not> script_value_error r"
  using assms
  by (auto simp: load_json_def split: sum.splits content.splits dest: open_read_error)

lemma ok_quiet_events [simp]:
  "ok env a pre (EvPrint s)"
  "ok env a pre (EvConvertDatasetName r)"
  "ok env a pre (EvGetOutputFolder dn tr pl c)"
  "ok env a pre (EvLoadJson p)"
  "ok env a pre (EvInitialize d fl ck) = (ck \<in> set (save_checkpoints a))"
  by (simp_all add: ok_def placed_def)

lemma export_checkpoint_inv:
  assumes run: "export_checkpoint env a dn c dir dj props (ck, oname) st = (r, st')"
    and h: "hist (ok env a) (trace st)" and rs: "answered True (trace st)"
    and ctx: "ctx_config c (trace st)"
    and c: "c \<in> set (configurations a)"
    and nm: "default_names a \<longrightarrow> oname = derived_name ck"
    and ck: "ck \<in> set (save_checkpoints a)"
    and on: "oname \<in> set (pending (initial_names a))"
  shows "hist (ok env a) (trace st') \<and> answered (\<not> isl r) (trace st') \<and> ctx_config c (trace st') \<and>
         \<not> script_value_error r"
proof -
  define st1 where "st1 = st\<lparr>trace := trace st @ [EvInitialize dir (folds a) ck]\<rparr>"
  let ?I = "\<lambda>s. hist (ok env a) (trace s) \<and> answered True (trace s) \<and> ctx_fold c ck (trace s)"
  let ?Q = "\<lambda>r s. hist (ok env a) (trace s) \<and> answered (\<not> isl r) (trace s) \<and>
                  ctx_fold c ck (trace s) \<and> \<not> script_value_error r"
  have h1: "hist (ok env a) (trace st1)"
    using h ck by (simp add: st1_def hist_append)
  have rs1: "answered True (trace st1)"
    unfolding st1_def using answered_append_quiet [OF rs, of "[EvInitialize dir (folds a) ck]"]
    by simp
  have ctx1: "ctx_fold c ck (trace st1)"
  proof -
    from ctx obtain r0 dn0 tr0 pl0 where
      "subseq [EvConvertDatasetName r0, EvGetOutputFolder dn0 tr0 pl0 c] (trace st)"
      unfolding ctx_config_def by (elim conjE exE) (rule that)
    then have "subseq ([EvConvertDatasetName r0, EvGetOutputFolder dn0 tr0 pl0 c] @
                 [EvInitialize dir (folds a) ck]) (trace st @ [EvInitialize dir (folds a) ck])"
      by (rule list_emb_append_mono) simp
    then have "\<exists>r dn tr pl dir' fl.
         subseq [EvConvertDatasetName r, EvGetOutputFolder dn tr pl c, EvInitialize dir' fl ck]
           (trace st1)"
      unfolding st1_def by (intro exI) simp
    moreover from ctx have "current_configuration (trace st1) = Some c"
      by (simp add: ctx_config_def st1_def current_configuration_append)
    ultimately show ?thesis
      by (simp add: ctx_fold_def st1_def last_checkpoint_append)
  qed
  have down: "ctx_config c l" if "ctx_fold c ck l" for l
  proof -
    from that obtain r0 dn0 tr0 pl0 dir0 fl0 where
      s: "subseq [EvConvertDatasetName r0, EvGetOutputFolder dn0 tr0 pl0 c, EvInitialize dir0 fl0 ck] l"
      unfolding ctx_fold_def by (elim conjE exE) (rule that)
    have "subseq [EvConvertDatasetName r0, EvGetOutputFolder dn0 tr0 pl0 c]
            [EvConvertDatasetName r0, EvGetOutputFolder dn0 tr0 pl0 c, EvInitialize dir0 fl0 ck]"
      by simp
    from subseq_order.trans [OF this s]
    have "\<exists>r dn tr pl. subseq [EvConvertDatasetName r, EvGetOutputFolder dn tr pl c] l"
      by (intro exI)
    moreover from that have "current_configuration l = Some c"
      by (simp add: ctx_fold_def)
    ultimately show ?thesis
      by (simp add: ctx_config_def)
  qed
  from run have E:
    "(case initialize_from_trained_model_folder env (fs st) dir (folds a) ck of
        Inl m \<Rightarrow> (Inl (Raised m), st1)
      | Inr (lop, config) \<Rightarrow>
          for_each (export_fold env a dn c dj props config oname) (zip (folds a) lop) st1) = (r, st')"
    by (simp add: export_checkpoint_def st1_def split: sum.splits prod.splits)
  show ?thesis
  proof (cases "initialize_from_trained_model_folder env (fs st) dir (folds a) ck")
    case (Inl m)
    with E have "r = Inl (Raised m)" "st' = st1" by simp_all
    with h1 rs1 ctx1 show ?thesis
      by (simp add: answered_weaken down)
  next
    case (Inr lc)
    obtain lop config where lc: "lc = (lop, config)" by (cases lc)
    from E Inr lc have loop:
      "for_each (export_fold env a dn c dj props config oname) (zip (folds a) lop) st1 = (r, st')"
      by simp
    have "?Q r st'"
    proof (rule for_each_rule [where I = ?I and Q = ?Q, OF loop])
      show "?I st1" using h1 rs1 ctx1 by simp
    next
      fix x s r2 s2
      assume x: "x \<in> set (zip (folds a) lop)" and i: "?I s"
        and b: "export_fold env a dn c dj props config oname x s = (r2, s2)"
      obtain f prm where fp: "x = (f, prm)" by (cases x)
      from x fp have f: "(f, prm) \<in> set (zip (folds a) lop)" by simp
      from Inr lc have init:
        "initialize_from_trained_model_folder env (fs st) dir (folds a) ck = Inr (lop, config)"
        by simp
      from i have i1: "hist (ok env a) (trace s)" and i2: "answered True (trace s)"
        and i3: "ctx_fold c ck (trace s)" by simp_all
      from export_fold_inv [OF b [unfolded fp] i1 i2 i3 c init f nm on]
      show "?Q r2 s2 \<and> (\<not> isl r2 \<longrightarrow> ?I s2)" by auto
    next
      fix s assume "?I s"
      then show "?Q (Inr ()) s" by simp
    qed
    then show ?thesis by (simp add: down)
  qed
qed


lemma zip_derived:
  assumes "(ck, oname) \<in> set (zip (save_checkpoints a) (pending names))" and "names_ok a names"
  shows "default_names a \<longrightarrow> oname = derived_name ck"
proof
  assume "default_names a"
  with assms(2) consider "names = NameGenerator (map derived_name (save_checkpoints a))"
    | "names = NameGenerator []"
    unfolding names_ok_def by blast
  then show "oname = derived_name ck"
  proof cases
    case 1
    with assms(1) show ?thesis
      by (auto simp: pending_def zip_map2 zip_same_conv_map)
  next
    case 2
    with assms(1) show ?thesis by (simp add: pending_def)
  qed
qed

lemma names_ok_after_zip:
  "names_ok a names \<Longrightarrow> names_ok a (after_zip (length (save_checkpoints a)) names)"
  by (auto simp: names_ok_def after_zip_def pending_def split: name_source.splits
      dest: in_set_dropD)

lemma names_ok_initial: "names_ok a (initial_names a)"
  by (auto simp: names_ok_def initial_names_def default_names_def split: option.splits)

lemma ctx_top_append: "ctx_top l \<Longrightarrow> ctx_top (l @ es)"
  unfolding ctx_top_def by (meson list_emb_prefix)

lemma ctx_config_top: "ctx_config c l \<Longrightarrow> ctx_top l"
proof -
  assume "ctx_config c l"
  then obtain r0 dn0 tr0 pl0 where
    s: "subseq [EvConvertDatasetName r0, EvGetOutputFolder dn0 tr0 pl0 c] l"
    unfolding ctx_config_def by (elim conjE exE) (rule that)
  have "subseq [EvConvertDatasetName r0] [EvConvertDatasetName r0, EvGetOutputFolder dn0 tr0 pl0 c]"
    by simp
  from subseq_order.trans [OF this s] show "ctx_top l"
    unfolding ctx_top_def by (intro exI)
qed

lemma ctx_config_append:
  assumes "ctx_config c l" and quiet: "\<forall>z\<in>set es. \<not> is_context z"
  shows "ctx_config c (l @ es)"
proof -
  from assms(1) obtain r dn tr pl where
    s: "subseq [EvConvertDatasetName r, EvGetOutputFolder dn tr pl c] l"
    unfolding ctx_config_def by (elim conjE exE) (rule that)
  from s have "subseq [EvConvertDatasetName r, EvGetOutputFolder dn tr pl c] (l @ es)"
    by (rule list_emb_prefix)
  then have "\<exists>r dn tr pl. subseq [EvConvertDatasetName r, EvGetOutputFolder dn tr pl c] (l @ es)"
    by (intro exI)
  moreover from assms(1) context_quiet(1) [OF quiet, of l]
  have "current_configuration (l @ es) = Some c"
    by (simp add: ctx_config_def)
  ultimately show ?thesis by (simp add: ctx_config_def)
qed

lemma configuration_body_inv:
  assumes run: "configuration_body env a dn c names st = (r, st')"
    and h: "hist (ok env a) (trace st)" and rs: "answered True (trace st)"
    and ctx: "ctx_top (trace st)"
    and c: "c \<in> set (configurations a)"
    and nm: "names_ok a names"
  shows "hist (ok env a) (trace st') \<and> answered (\<not> isl r) (trace st') \<and> ctx_top (trace st') \<and>
         \<not> script_value_error r \<and> (\<forall>names'. r = Inr names' \<longrightarrow> names_ok a names')"
proof -
  let ?dir = "get_output_folder env dn (trainer a) (plans_identifier a) c"
  let ?hd = "[EvPrint (''Configuration '' @ c),
              EvGetOutputFolder dn (trainer a) (plans_identifier a) c]"
  define st2 where "st2 = st\<lparr>trace := trace st @ ?hd\<rparr>"
  let ?I = "\<lambda>s. hist (ok env a) (trace s) \<and> answered True (trace s) \<and> ctx_config c (trace s)"
  let ?Q = "\<lambda>r s. hist (ok env a) (trace s) \<and> answered (\<not> isl r) (trace s) \<and>
                  ctx_config c (trace s) \<and> \<not> script_value_error r"
  have ext: "?I (s\<lparr>trace := trace s @ es\<rparr>)"
    if "?I s" "hist_from (ok env a) (trace s) es" "\<forall>z\<in>set es. \<not> is_export z"
       "\<forall>z\<in>set es. \<not> is_open z" "\<forall>z\<in>set es. \<not> is_context z" for s es
    using that by (simp add: hist_append answered_append_quiet ctx_config_append)
  have ext': "?I s'"
    if "?I s" "trace s' = trace s @ es" "hist_from (ok env a) (trace s) es" "\<forall>z\<in>set es. \<not> is_export z"
       "\<forall>z\<in>set es. \<not> is_open z" "\<forall>z\<in>set es. \<not> is_context z"
    for s s' es
    using that by (simp add: hist_append answered_append_quiet ctx_config_append)
  have fin: "?thesis" if "?I st'" "isl r" "\<not> script_value_error r"
    using that by (auto simp: answered_weaken ctx_config_top)
  have i2: "?I st2"
  proof -
    from ctx obtain r0 where "subseq [EvConvertDatasetName r0] (trace st)"
      unfolding ctx_top_def by (elim exE) (rule that)
    then have "subseq ([EvConvertDatasetName r0] @
                 [EvGetOutputFolder dn (trainer a) (plans_identifier a) c]) (trace st @ ?hd)"
      by (rule list_emb_append_mono) simp
    then have "\<exists>r dn tr pl. subseq [EvConvertDatasetName r, EvGetOutputFolder dn tr pl c] (trace st2)"
      unfolding st2_def by (intro exI) simp
    then have "ctx_config c (trace st2)"
      by (simp add: ctx_config_def st2_def current_configuration_append)
    moreover have "hist (ok env a) (trace st2)"
      using h by (simp add: st2_def hist_append)
    moreover have "answered True (trace st2)"
      unfolding st2_def using answered_append_quiet [OF rs, of ?hd] by simp
    ultimately show ?thesis by simp
  qed
  from run have E:
    "and_then (load_json (?dir @ [''dataset.json''])) (\<lambda>dataset_json.
     and_then (load_json (?dir @ [''plans.json''])) (\<lambda>plans.
     and_then (lift (getitem plans ''foreground_intensity_properties_per_channel'')) (\<lambda>props st.
       if \<not> isdir (fs st) ?dir then
         (if strict a then raise (RuntimeError (missing_model_message dn c)) st
          else and_then (print (skipping_message c)) (\<lambda>_. ret names) st)
       else
         and_then
           (for_each (export_checkpoint env a dn c ?dir dataset_json props)
              (zip (save_checkpoints a) (pending names)))
           (\<lambda>_. ret (after_zip (length (save_checkpoints a)) names)) st))) st2 = (r, st')"
    by (simp add: configuration_body_def st2_def Let_def)
  from E show ?thesis
  proof (cases rule: and_then_cases)
    case (fail e)
    from load_json_trace [OF fail(1)] have "trace st' = trace st2 @ [EvLoadJson (?dir @ [''dataset.json''])]"
      by simp
    then have "?I st'"
      by (rule ext' [OF i2]) simp_all
    with fail load_json_trace [OF fail(1)] show ?thesis by (intro fin) simp_all
  next
    case (ok dataset_json s3)
    from load_json_trace [OF ok(1)] have "trace s3 = trace st2 @ [EvLoadJson (?dir @ [''dataset.json''])]"
      by simp
    then have i3: "?I s3"
      by (rule ext' [OF i2]) simp_all
    from ok(2) show ?thesis
    proof (cases rule: and_then_cases)
      case (fail e)
      from load_json_trace [OF fail(1)] have "trace st' = trace s3 @ [EvLoadJson (?dir @ [''plans.json''])]"
        by simp
      then have "?I st'"
        by (rule ext' [OF i3]) simp_all
      with fail load_json_trace [OF fail(1)] show ?thesis by (intro fin) simp_all
    next
      case (ok plans s4)
      from load_json_trace [OF ok(1)] have "trace s4 = trace s3 @ [EvLoadJson (?dir @ [''plans.json''])]"
        by simp
      then have i4: "?I s4"
        by (rule ext' [OF i3]) simp_all
      show ?thesis
      proof (cases "getitem plans ''foreground_intensity_properties_per_channel''")
        case (Inl e)
        with ok(2) have "r = Inl e" "st' = s4" by simp_all
        with i4 getitem_no_value_error [of plans _ ] Inl show ?thesis
          by (intro fin) auto
      next
        case (Inr props)
        show ?thesis
        proof (cases "isdir (fs s4) ?dir")
          case False
          show ?thesis
          proof (cases "strict a")
            case True
            with ok(2) Inr False have "r = Inl (RuntimeError (missing_model_message dn c))" "st' = s4"
              by (simp_all add: raise_def)
            with i4 show ?thesis by (intro fin) simp_all
          next
            case nonstrict: False
            with ok(2) Inr False have r: "r = Inr names"
              and s: "st' = s4\<lparr>trace := trace s4 @ [EvPrint (skipping_message c)]\<rparr>"
              by (simp_all add: ret_def)
            have "?I st'" unfolding s by (rule ext [OF i4]) simp_all
            with r nm show ?thesis by (auto simp: ctx_config_top)
          qed
        next
          case True
          with ok(2) Inr have L:
            "and_then
               (for_each (export_checkpoint env a dn c ?dir dataset_json props)
                  (zip (save_checkpoints a) (pending names)))
               (\<lambda>_. ret (after_zip (length (save_checkpoints a)) names)) s4 = (r, st')"
            by simp
          have loop: "?Q r1 s1"
            if "for_each (export_checkpoint env a dn c ?dir dataset_json props)
                  (zip (save_checkpoints a) (pending names)) s4 = (r1, s1)" for r1 s1
          proof (rule for_each_rule [where I = ?I and Q = ?Q, OF that])
            show "?I s4" by (rule i4)
          next
            fix x s r2 s2
            assume x: "x \<in> set (zip (save_checkpoints a) (pending names))" and i: "?I s"
              and b: "export_checkpoint env a dn c ?dir dataset_json props x s = (r2, s2)"
            obtain ck oname where co: "x = (ck, oname)" by (cases x)
            from i have j1: "hist (ok env a) (trace s)" and j2: "answered True (trace s)"
              and j3: "ctx_config c (trace s)" by simp_all
            from x co have ck: "ck \<in> set (save_checkpoints a)"
              by (auto dest: set_zip_leftD)
            from x co nm have on: "oname \<in> set (pending (initial_names a))"
              by (auto simp: names_ok_def dest: set_zip_rightD)
            from export_checkpoint_inv [OF b [unfolded co] j1 j2 j3 c
                zip_derived [OF x [unfolded co] nm] ck on]
            show "?Q r2 s2 \<and> (\<not> isl r2 \<longrightarrow> ?I s2)" by auto
          next
            fix s assume "?I s"
            then show "?Q (Inr ()) s" by simp
          qed
          from L show ?thesis
          proof (cases rule: and_then_cases)
            case (fail e)
            from loop [OF fail(1)] fail(2) show ?thesis
              by (auto simp: ctx_config_top)
          next
            case (ok u s5)
            from ok(2) have r: "r = Inr (after_zip (length (save_checkpoints a)) names)" "st' = s5"
              by (simp_all add: ret_def)
            from loop [OF ok(1)] r names_ok_after_zip [OF nm] show ?thesis
              by (auto simp: ctx_config_top)
          qed
        qed
      qed
    qed
  qed
qed


lemma export_configuration_inv:
  assumes run: "export_configuration env a dn c (names, st) = (r, (names', st'))"
    and h: "hist (ok env a) (trace st)" and rs: "answered True (trace st)"
    and ctx: "ctx_top (trace st)"
    and c: "c \<in> set (configurations a)"
    and nm: "names_ok a names"
  shows "hist (ok env a) (trace st') \<and> answered (\<not> isl r) (trace st') \<and> ctx_top (trace st') \<and>
         \<not> script_value_error r \<and> names_ok a names'"
proof -
  obtain r1 s1 where b: "configuration_body env a dn c names st = (r1, s1)"
    by (cases "configuration_body env a dn c names st")
  note inv = configuration_body_inv [OF b h rs ctx c nm]
  show ?thesis
  proof (cases r1)
    case (Inl e)
    with run b have "r = Inl e" "names' = names" "st' = s1"
      by (simp_all add: export_configuration_def)
    with inv Inl nm show ?thesis by simp
  next
    case (Inr n1)
    with run b have "r = Inr ()" "names' = n1" "st' = s1"
      by (simp_all add: export_configuration_def)
    with inv Inr show ?thesis by simp
  qed
qed

lemma export_onnx_model_inv:
  assumes run: "export_onnx_model env a st = (r, st')" and empty: "trace st = []"
  shows "hist (ok env a) (trace st') \<and> answered (\<not> isl r) (trace st') \<and>
         (script_value_error r \<longleftrightarrow> batch_size a < 0)"
proof (cases "batch_size a < 0")
  case True
  with run have "r = Inl (ValueError batch_size_message)" "st' = st"
    by (simp_all add: export_onnx_model_def raise_def)
  with True empty show ?thesis by simp
next
  case False
  define st1 where "st1 = st\<lparr>trace := trace st @ [EvConvertDatasetName (dataset_name_or_id a)]\<rparr>"
  have h1: "hist (ok env a) (trace st1)" and ctx1: "ctx_top (trace st1)"
    by (simp_all add: st1_def empty hist_def ctx_top_def)
  have rs1: "answered True (trace st1)"
    using answered_append_quiet [of "[]" "[EvConvertDatasetName (dataset_name_or_id a)]"]
    by (simp add: st1_def empty)
  show ?thesis
  proof (cases "maybe_convert_to_dataset_name env (dataset_name_or_id a)")
    case (Inl m)
    with run False have "r = Inl (Raised m)" "st' = st1"
      by (simp_all add: export_onnx_model_def st1_def callee_def)
    with h1 rs1 False show ?thesis by (simp add: answered_weaken)
  next
    case (Inr dn)
    let ?I = "\<lambda>ns. hist (ok env a) (trace (snd ns)) \<and> answered True (trace (snd ns)) \<and>
                    ctx_top (trace (snd ns)) \<and> names_ok a (fst ns)"
    let ?Q = "\<lambda>r ns. hist (ok env a) (trace (snd ns)) \<and> answered (\<not> isl r) (trace (snd ns)) \<and>
                    \<not> script_value_error r"
    obtain r2 n2 s2 where loop:
      "for_each (export_configuration env a dn) (configurations a) (initial_names a, st1) =
         (r2, (n2, s2))"
      by (metis prod.exhaust)
    with run False Inr have r: "r = r2" "st' = s2"
      by (simp_all add: export_onnx_model_def st1_def Let_def callee_def)
    have "?Q r2 (n2, s2)"
    proof (rule for_each_rule [where I = ?I and Q = ?Q, OF loop])
      show "?I (initial_names a, st1)"
        using h1 rs1 ctx1 names_ok_initial by simp
    next
      fix c ns r3 ns3
      assume c: "c \<in> set (configurations a)" and i: "?I ns"
        and b: "export_configuration env a dn c ns = (r3, ns3)"
      obtain names s where ns: "ns = (names, s)" by (cases ns)
      obtain names3 s3 where ns3: "ns3 = (names3, s3)" by (cases ns3)
      from i ns have j1: "hist (ok env a) (trace s)" and j2: "answered True (trace s)"
        and j3: "ctx_top (trace s)" and j4: "names_ok a names" by simp_all
      from export_configuration_inv [OF b [unfolded ns ns3] j1 j2 j3 c j4]
      show "?Q r3 ns3 \<and> (\<not> isl r3 \<longrightarrow> ?I ns3)" by (auto simp: ns3)
    next
      fix ns assume "?I ns"
      then show "?Q (Inr ()) ns" by simp
    qed
    with r False show ?thesis by simp
  qed
qed

subsection \<open>Members of a record\<close>

lemma demo_run:
  "(case export_onnx_model demo_env demo_args demo_state of
      (r, st') \<Rightarrow> r = Inr () \<and> trace st' = demo_trace)"
  by code_simp

lemma demo_run_result: "fst (export_onnx_model demo_env demo_args demo_state) = Inr ()"
  using demo_run by (simp split: prod.splits)

lemma demo_run_trace: "trace (snd (export_onnx_model demo_env demo_args demo_state)) = demo_trace"
  using demo_run by (simp split: prod.splits)

lemma demo_state_trace: "trace demo_state = []"
  by (simp add: demo_state_def)

lemma hist_split: "hist R l \<Longrightarrow> l = pre @ ev # post \<Longrightarrow> R pre ev"
  by (simp add: hist_def hist_from_def)

lemma hist_member: "hist R l \<Longrightarrow> ev \<in> set l \<Longrightarrow> \<exists>pre. R pre ev"
  by (metis hist_split split_list)


section \<open>The claims about whole runs\<close>

text \<open>
  Claim C9, as stated, at a concrete input: \<open>batch_size\<close> is 0 and the \<^verbatim>\<open>dataset.json\<close>
  of the first configuration is an empty file. The run ends with the
  \<^verbatim>\<open>json.JSONDecodeError\<close> of \<^verbatim>\<open>load_json\<close>, which is a \<^verbatim>\<open>ValueError\<close>, although
  \<open>batch_size\<close> is not negative.
\<close>

theorem unparsable_dataset_json_raises_value_error:
  "(case export_onnx_model demo_env demo_args \<lparr>fs = unparsable_fs, trace = [], rng = 0\<rparr> of
      (r, st') \<Rightarrow>
        \<not> batch_size demo_args < 0 \<and>
        r = Inl (JSONDecodeError [''results'', ''Dataset001_Demo'',
               ''nnUNetTrainer__nnUNetPlans__2d'', ''dataset.json'']) \<and>
        (case r of Inl e \<Rightarrow> is_value_error e | Inr u \<Rightarrow> False))"
  by code_simp

text \<open>
  Claim C9, amended. The \<^verbatim>\<open>ValueError\<close> of line 40, the only one the function raises
  itself, is the result exactly when \<open>batch_size\<close> is negative, and then the function
  returns the state it was called in: nothing has been resolved, loaded, recorded or
  written. (The constructor \<open>ValueError\<close> is the exception of a \<^verbatim>\<open>raise\<close> statement of the
  script; a \<^verbatim>\<open>ValueError\<close> that comes out of a call the script makes is a
  \<open>JSONDecodeError\<close> or a \<open>Raised\<close>.)
\<close>

theorem own_value_error_iff_negative_batch_size:
  assumes "trace st = []"
  shows "((\<exists>m. fst (export_onnx_model env a st) = Inl (ValueError m)) \<longleftrightarrow> batch_size a < 0) \<and>
         (batch_size a < 0 \<longrightarrow>
            export_onnx_model env a st = (Inl (ValueError batch_size_message), st))"
proof -
  obtain r st' where run: "export_onnx_model env a st = (r, st')"
    by (cases "export_onnx_model env a st")
  from export_onnx_model_inv [OF run assms] have "script_value_error r \<longleftrightarrow> batch_size a < 0"
    by simp
  then have "(\<exists>m. fst (export_onnx_model env a st) = Inl (ValueError m)) \<longleftrightarrow> batch_size a < 0"
    by (simp add: run script_value_error_def)
  moreover have "batch_size a < 0 \<longrightarrow>
      export_onnx_model env a st = (Inl (ValueError batch_size_message), st)"
    by (simp add: export_onnx_model_def raise_def)
  ultimately show ?thesis by simp
qed

theorem own_value_error_iff_negative_batch_size_witness:
  "export_onnx_model demo_env (demo_args\<lparr>batch_size := - 1\<rparr>) demo_state =
     (Inl (ValueError ''batch_size must be non-negative''), demo_state) \<and>
   (\<nexists>m. fst (export_onnx_model demo_env demo_args demo_state) = Inl (ValueError m))"
  using own_value_error_iff_negative_batch_size [of demo_state demo_env "demo_args\<lparr>batch_size := - 1\<rparr>"]
    own_value_error_iff_negative_batch_size [of demo_state demo_env demo_args]
  by (simp add: demo_state_def demo_args_def batch_size_message_def)




lemma split_at_absent: "d \<notin> set s \<Longrightarrow> split_at d s = [s]"
  by (induction s) auto

lemma plain_name_parts: "plain_name n \<Longrightarrow> components n = [n] \<and> \<not> absolute n"
  by (cases n) (auto simp: plain_name_def components_def absolute_def split_at_absent)

lemma parse_snoc: "parse (d @ [n]) = join_segment (parse d) n"
  by (simp add: parse_def)

lemma walk_append:
  "walk t p cur (cs @ cs') = (case walk t p cur cs of Inl e \<Rightarrow> Inl e | Inr D \<Rightarrow> walk t p D cs')"
  by (induction cs arbitrary: cur) (auto split: option.splits node.splits)

lemma walk_named: "walk t p cur cs = Inr D \<Longrightarrow> walk t p' cur cs = Inr D"
  by (induction cs arbitrary: cur) (auto split: option.splits node.splits)

lemma inside_plain:
  assumes "plain_name n"
  shows "inside d n (d @ [n])"
proof -
  obtain ab cs where d: "parse d = (ab, cs)" by (cases "parse d")
  from plain_name_parts [OF assms] have q: "parse (d @ [n]) = (ab, cs @ [n])"
    by (simp add: parse_snoc join_segment_def d)
  have "locate r (d @ [n]) = Inr (D @ [n])"
    if D: "locate r d = Inr D" and dir: "lookup (tree r) D = Some (Dir es)" for r D es
  proof -
    from D d have "walk (tree r) d (start r ab) cs = Inr D"
      by (simp add: locate_def)
    then have "walk (tree r) (d @ [n]) (start r ab) cs = Inr D"
      by (rule walk_named)
    with dir assms show ?thesis
      by (simp add: locate_def q walk_append plain_name_def)
  qed
  with assms show ?thesis
    unfolding inside_def by blast
qed

lemma plain_fold_name: "CHR ''/'' \<notin> set s \<Longrightarrow> plain_name (''fold_'' @ s)"
  by (simp add: plain_name_def)

lemma in_scheme_plain:
  assumes "plain_names a" "c \<in> set (configurations a)" "f \<in> set (folds a)"
  shows "in_scheme a c f"
proof -
  from assms have 1: "plain_name c" by (simp add: plain_names_def)
  from assms have "CHR ''/'' \<notin> set (fold_str f)" by (simp add: plain_names_def)
  then have 2: "plain_name (''fold_'' @ fold_str f)" by (rule plain_fold_name)
  from inside_plain [OF 1, of "output_dir a"] inside_plain [OF 2, of "output_dir a @ [c]"]
  show ?thesis
    by (simp add: in_scheme_def curr_output_dir_def)
qed

lemma processing_requested: "processing env a pre c f \<Longrightarrow> c \<in> set (configurations a) \<and> f \<in> set (folds a)"
  by (auto simp: processing_def dest: set_zip_leftD)

text \<open>
  Claim C4, as stated, at a concrete input: one configuration, one fold, and the output
  name \<^verbatim>\<open>../model.onnx\<close>. The run ends without an exception. The metadata file is in
  \<^verbatim>\<open>out/2d/fold_0\<close>, but the exported artifact is not: the exporter has been handed
  \<^verbatim>\<open>out/2d/fold_0/../model.onnx\<close>, and the file is beside the directory, in \<^verbatim>\<open>out/2d\<close>.
\<close>

theorem parent_output_name_leaves_directory:
  "(case export_onnx_model demo_env
          (demo_args\<lparr>configurations := [''2d''], output_names := Some [''../model.onnx'']\<rparr>)
          demo_state of
      (r, st') \<Rightarrow>
        r = Inr () \<and>
        iterdir (fs st') [''out'', ''2d'', ''fold_0''] = Inr [''config.json''] \<and>
        iterdir (fs st') [''out'', ''2d''] = Inr [''fold_0'', ''model.onnx''] \<and>
        open_read (fs st') [''out'', ''2d'', ''model.onnx''] = Inr (OnnxBytes (OnnxModel 7)))"
  by code_simp

text \<open>
  Claim C4, amended. When the configurations, the folds and the output names are plain
  names, every directory the function creates and every file it writes belongs to the
  configuration \<open>c\<close> and the fold \<open>f\<close> it is processing at that moment: the directory is
  \<open>output_dir/c/fold_f\<close>, the exporter writes the parameters of that fold to an entry of
  this directory, and the metadata, which names \<open>c\<close> and \<open>f\<close>, goes to the entry
  \<^verbatim>\<open>config.json\<close> of this directory.
\<close>

theorem plain_names_placed_by_configuration_and_fold:
  assumes "export_onnx_model env a st = (r, st')" and "trace st = []"
    and "plain_names a"
    and "trace st' = pre @ ev # post"
  shows "located env a pre ev"
proof -
  from export_onnx_model_inv [OF assms(1,2)] have "hist (ok env a) (trace st')"
    by simp
  from hist_split [OF this assms(4)] have pl: "placed env a pre ev"
    by (simp add: ok_def)
  have sch: "in_scheme a c f" if "processing env a pre c f" for c f
    using processing_requested [OF that] assms(3) by (simp add: in_scheme_plain)
  have cfg: "inside d ''config.json'' (d @ [''config.json''])" for d
    by (rule inside_plain) (simp add: plain_name_def)
  show ?thesis
  proof (cases ev)
    case (EvOnnxExport q prm x dyn)
    with pl obtain c f n where p: "processing env a pre c f" "current_params pre = Some prm"
      "n \<in> set (pending (initial_names a))" "q = curr_output_dir a c f @ [n]"
      by (auto simp: placed_def)
    from p(3) assms(3) have "plain_name n" by (simp add: plain_names_def)
    from inside_plain [OF this, of "curr_output_dir a c f"] p sch [OF p(1)] EvOnnxExport
    show ?thesis by (auto simp: located_def)
  next
    case (EvMkdir d)
    with pl obtain c f where p: "processing env a pre c f" "d = curr_output_dir a c f"
      by (auto simp: placed_def)
    with sch [OF p(1)] EvMkdir show ?thesis
      unfolding located_def by auto
  next
    case (EvOpenWrite p)
    with pl obtain c f where p: "processing env a pre c f"
      "p = curr_output_dir a c f @ [''config.json'']"
      by (auto simp: placed_def)
    with sch [OF p(1)] cfg [of "curr_output_dir a c f"] EvOpenWrite show ?thesis
      unfolding located_def by auto
  next
    case (EvJsonDump p j)
    with pl obtain c f where p: "processing env a pre c f"
      "p = curr_output_dir a c f @ [''config.json'']"
      "getitem j ''configuration'' = Inr (JStr c)" "getitem j ''fold'' = Inr (fold_json f)"
      by (auto simp: placed_def)
    with sch [OF p(1)] cfg [of "curr_output_dir a c f"] EvJsonDump show ?thesis
      unfolding located_def by auto
  qed (simp_all add: located_def)
qed

lemma demo_plain_names: "plain_names demo_args"
  by (simp add: plain_names_def plain_name_def demo_args_def initial_names_def pending_def
      derived_name_def fold_str_def show_int_def show_nat_digit digit_char_def)

lemma demo_run_files:
  "(case export_onnx_model demo_env demo_args demo_state of
      (r, st') \<Rightarrow>
        iterdir (fs st') (curr_output_dir demo_args ''2d'' (FoldInt 0)) =
          Inr [''checkpoint_final.onnx'', ''config.json''])"
  by code_simp

theorem plain_names_placed_by_configuration_and_fold_witness:
  "located demo_env demo_args
     (demo_resolved @ demo_loaded @ [EvNetworkCall (Params 0) demo_input])
     (EvOnnxExport demo_artifact (Params 0) demo_input True) \<and>
   located demo_env demo_args
     (demo_resolved @ demo_loaded @
      [EvNetworkCall (Params 0) demo_input, EvOnnxExport demo_artifact (Params 0) demo_input True] @
      demo_reloaded @ demo_compared @ [EvOpenWrite demo_config_json])
     (EvJsonDump demo_config_json demo_metadata) \<and>
   demo_artifact = curr_output_dir demo_args ''2d'' (FoldInt 0) @ [''checkpoint_final.onnx''] \<and>
   demo_config_json = curr_output_dir demo_args ''2d'' (FoldInt 0) @ [''config.json''] \<and>
   iterdir (fs (snd (export_onnx_model demo_env demo_args demo_state)))
     (curr_output_dir demo_args ''2d'' (FoldInt 0)) = Inr [''checkpoint_final.onnx'', ''config.json'']"
  using plain_names_placed_by_configuration_and_fold [OF surjective_pairing demo_state_trace
      demo_plain_names,
      where pre = "demo_resolved @ demo_loaded @ [EvNetworkCall (Params 0) demo_input]"
        and ev = "EvOnnxExport demo_artifact (Params 0) demo_input True"
        and post = "demo_reloaded @ demo_compared @
           [EvOpenWrite demo_config_json, EvJsonDump demo_config_json demo_metadata] @
           demo_second" and env = demo_env,
      unfolded demo_run_trace]
    plain_names_placed_by_configuration_and_fold [OF surjective_pairing demo_state_trace
      demo_plain_names,
      where pre = "demo_resolved @ demo_loaded @
          [EvNetworkCall (Params 0) demo_input, EvOnnxExport demo_artifact (Params 0) demo_input True] @
          demo_reloaded @ demo_compared @ [EvOpenWrite demo_config_json]"
        and ev = "EvJsonDump demo_config_json demo_metadata"
        and post = demo_second and env = demo_env,
      unfolded demo_run_trace]
    demo_run_files
  by (simp add: demo_trace_def demo_artifact_def demo_config_json_def curr_output_dir_def
      demo_args_def fold_str_def show_int_def show_nat_digit digit_char_def split: prod.splits)

lemma region_run:
  "(case export_onnx_model demo_env demo_args \<lparr>fs = region_fs, trace = [], rng = 0\<rparr> of
      (r, st') \<Rightarrow>
        r = Inl (TypeError ''unhashable'') \<and>
        open_read (fs st') demo_artifact = Inr (OnnxBytes (OnnxModel 7)) \<and>
        open_read (fs st') demo_config_json = Inr EmptyFile \<and>
        trace st' =
          (demo_resolved @ demo_loaded @
           [EvNetworkCall (Params 0) demo_input,
            EvOnnxExport demo_artifact (Params 0) demo_input True] @
           demo_reloaded @ demo_compared) @ [EvOpenWrite demo_config_json])"
  by code_simp

text \<open>
  Claim C5, as stated, at a concrete input: the labels of the dataset are region-based, so
  the comprehension of line 187 raises \<^verbatim>\<open>TypeError\<close> (a list is not hashable). Line 154 has
  opened \<^verbatim>\<open>config.json\<close> before: the run leaves the exported artifact beside a metadata
  file that is empty, and so holds none of the keys.
\<close>

theorem region_labels_leave_empty_metadata:
  "(case export_onnx_model demo_env demo_args \<lparr>fs = region_fs, trace = [], rng = 0\<rparr> of
      (r, st') \<Rightarrow>
        r = Inl (TypeError ''unhashable'') \<and>
        open_read (fs st') demo_artifact = Inr (OnnxBytes (OnnxModel 7)) \<and>
        open_read (fs st') demo_config_json = Inr EmptyFile)"
  using region_run by (simp split: prod.splits)

text \<open>
  Claim C5, amended. Whenever the function opens a metadata file, the next thing it does is
  dump a dictionary into it, and every dictionary it dumps has the keys
  \<^verbatim>\<open>configuration\<close>, \<^verbatim>\<open>fold\<close>, \<^verbatim>\<open>model_parameters\<close> and \<^verbatim>\<open>dataset_parameters\<close>; the
  model parameters have the keys for the batch size, the patch size, the spacing, the
  normalization schemes and the six architecture parameters; the dataset parameters have
  the keys for the dataset name, the number of channels, the channels, the number of classes
  and the class names; and every channel has a name and its foreground properties. The one
  exception is a run that ends with an exception right after the opening (the dictionary
  could not be built): the record then ends with the opening.
\<close>

theorem opened_metadata_gets_documented_keys:
  assumes "export_onnx_model env a st = (r, st')" and "trace st = []"
    and "trace st' = pre @ ev # post"
  shows "(\<forall>p. ev = EvOpenWrite p \<longrightarrow>
            (\<exists>j post'. post = EvJsonDump p j # post' \<and> documented j) \<or> (isl r \<and> post = [])) \<and>
         (\<forall>p j. ev = EvJsonDump p j \<longrightarrow> documented j \<and> (\<exists>pre'. pre = pre' @ [EvOpenWrite p]))"
proof -
  note inv = export_onnx_model_inv [OF assms(1,2)]
  from inv have h: "hist (ok env a) (trace st')" by simp
  from inv have op: "opens_ok (\<not> isl r) (trace st')" by (simp add: answered_def)
  have dump: "documented j \<and> (\<exists>pre'. pre = pre' @ [EvOpenWrite p])" if "ev = EvJsonDump p j" for p j
    using hist_split [OF h assms(3)] that by (simp add: ok_def)
  have opened: "(\<exists>j post'. post = EvJsonDump p j # post' \<and> documented j) \<or> (isl r \<and> post = [])"
    if ev: "ev = EvOpenWrite p" for p
  proof -
    from op assms(3) ev have "(\<exists>j post'. post = EvJsonDump p j # post') \<or> (isl r \<and> post = [])"
      unfolding opens_ok_def by simp
    then show ?thesis
    proof
      assume "\<exists>j post'. post = EvJsonDump p j # post'"
      then obtain j post' where post: "post = EvJsonDump p j # post'" by blast
      with assms(3) have "trace st' = (pre @ [ev]) @ EvJsonDump p j # post'" by simp
      from hist_split [OF h this] have "documented j" by (simp add: ok_def)
      with post show ?thesis by blast
    next
      assume "isl r \<and> post = []"
      then show ?thesis by blast
    qed
  qed
  from dump opened show ?thesis by blast
qed

theorem opened_metadata_gets_documented_keys_witness:
  "documented demo_metadata \<and>
   trace (snd (export_onnx_model demo_env demo_args demo_state)) =
     (demo_resolved @ demo_loaded @
      [EvNetworkCall (Params 0) demo_input, EvOnnxExport demo_artifact (Params 0) demo_input True] @
      demo_reloaded @ demo_compared) @
     EvOpenWrite demo_config_json # EvJsonDump demo_config_json demo_metadata # demo_second \<and>
   isl (fst (export_onnx_model demo_env demo_args \<lparr>fs = region_fs, trace = [], rng = 0\<rparr>))"
  using opened_metadata_gets_documented_keys [OF surjective_pairing demo_state_trace,
      of demo_env demo_args
        "demo_resolved @ demo_loaded @
         [EvNetworkCall (Params 0) demo_input, EvOnnxExport demo_artifact (Params 0) demo_input True] @
         demo_reloaded @ demo_compared"
        "EvOpenWrite demo_config_json"
        "EvJsonDump demo_config_json demo_metadata # demo_second"]
    opened_metadata_gets_documented_keys [OF surjective_pairing,
      of "\<lparr>fs = region_fs, trace = [], rng = 0\<rparr>" demo_env demo_args
        "demo_resolved @ demo_loaded @
         [EvNetworkCall (Params 0) demo_input, EvOnnxExport demo_artifact (Params 0) demo_input True] @
         demo_reloaded @ demo_compared"
        "EvOpenWrite demo_config_json" "[]"]
    region_run
  by (simp add: demo_run_trace demo_trace_def split: prod.splits)

text \<open>
  Claim C7. When the function opens a metadata file for writing, the record up to that
  point ends with the calls of one pass through the fold loop in their order: the
  parameters are loaded into the network, the input is drawn, the network is run, the
  exporter is called, the exported file is loaded, checked and run, the outputs are
  compared, and the message of the export is printed; and before these the dataset name and
  the trained model folder of the configuration have been resolved and the predictor has
  been initialised. The dictionary is dumped right after the file has been opened.
\<close>

theorem metadata_written_after_verification:
  assumes "export_onnx_model env a st = (r, st')" and "trace st = []"
    and "trace st' = pre @ ev # post"
  shows "(\<forall>p. ev = EvOpenWrite p \<longrightarrow> verified_before a pre p) \<and>
         (\<forall>p j. ev = EvJsonDump p j \<longrightarrow> (\<exists>pre'. pre = pre' @ [EvOpenWrite p]))"
proof -
  from export_onnx_model_inv [OF assms(1,2)] have "hist (ok env a) (trace st')"
    by simp
  from hist_split [OF this assms(3)] show ?thesis
    by (auto simp: ok_def)
qed

theorem metadata_written_after_verification_witness:
  "verified_before demo_args
     (demo_resolved @ demo_loaded @
      [EvNetworkCall (Params 0) demo_input, EvOnnxExport demo_artifact (Params 0) demo_input True] @
      demo_reloaded @ demo_compared)
     demo_config_json \<and>
   trace (snd (export_onnx_model demo_env demo_args demo_state)) =
     (demo_resolved @ demo_loaded @
      [EvNetworkCall (Params 0) demo_input, EvOnnxExport demo_artifact (Params 0) demo_input True] @
      demo_reloaded @ demo_compared) @
     EvOpenWrite demo_config_json # EvJsonDump demo_config_json demo_metadata # demo_second"
  using metadata_written_after_verification [OF surjective_pairing demo_state_trace,
      of demo_env demo_args
        "demo_resolved @ demo_loaded @
         [EvNetworkCall (Params 0) demo_input, EvOnnxExport demo_artifact (Params 0) demo_input True] @
         demo_reloaded @ demo_compared"
        "EvOpenWrite demo_config_json"
        "EvJsonDump demo_config_json demo_metadata # demo_second"]
  by (simp add: demo_run_trace demo_trace_def)



subsection \<open>A comparison that finds a difference\<close>

lemma with_warnings_simps [simp]:
  "with_warnings cmp [] = []"
  "with_warnings cmp (l @ es) = with_warnings cmp l @ with_warnings cmp es"
  "with_warnings cmp (ev # l) = ev # warning_after cmp ev @ with_warnings cmp l"
  by (simp_all add: with_warnings_def)

lemma agreeD:
  "agree R m0 m \<Longrightarrow> R s0 s \<Longrightarrow> fst (m s) = fst (m0 s0) \<and> R (snd (m0 s0)) (snd (m s))"
  by (simp add: agree_def)

lemma agreeI:
  "(\<And>s0 s. R s0 s \<Longrightarrow> fst (m s) = fst (m0 s0) \<and> R (snd (m0 s0)) (snd (m s))) \<Longrightarrow> agree R m0 m"
  by (simp add: agree_def)

lemma agree_and_then:
  assumes m: "agree R m0 m" and f: "\<And>x. agree R (f0 x) (f x)"
  shows "agree R (and_then m0 f0) (and_then m f)"
proof (rule agreeI)
  fix s0 s assume R: "R s0 s"
  obtain r0 t0 where m0: "m0 s0 = (r0, t0)" by (cases "m0 s0")
  obtain r t where m1: "m s = (r, t)" by (cases "m s")
  from agreeD [OF m R] m0 m1 have r: "r = r0" and t: "R t0 t" by simp_all
  show "fst (and_then m f s) = fst (and_then m0 f0 s0) \<and>
        R (snd (and_then m0 f0 s0)) (snd (and_then m f s))"
  proof (cases r0)
    case (Inl e)
    with m0 m1 r t show ?thesis by (simp add: and_then_def)
  next
    case (Inr x)
    with m0 m1 r agreeD [OF f t, of x] show ?thesis by (simp add: and_then_def)
  qed
qed

lemma agree_for_each:
  assumes f: "\<And>x. x \<in> set xs \<Longrightarrow> agree R (f0 x) (f x)"
  shows "agree R (for_each f0 xs) (for_each f xs)"
  using f
proof (induction xs)
  case Nil
  show ?case by (simp add: agree_def)
next
  case (Cons x xs)
  have hd: "agree R (f0 x) (f x)" by (rule Cons.prems) simp
  have tl: "agree R (for_each f0 xs) (for_each f xs)"
    by (rule Cons.IH) (simp add: Cons.prems)
  show ?case
  proof (rule agreeI)
    fix s0 s assume R: "R s0 s"
    obtain r0 t0 where m0: "f0 x s0 = (r0, t0)" by (cases "f0 x s0")
    obtain r t where m1: "f x s = (r, t)" by (cases "f x s")
    from agreeD [OF hd R] m0 m1 have r: "r = r0" and t: "R t0 t" by simp_all
    show "fst (for_each f (x # xs) s) = fst (for_each f0 (x # xs) s0) \<and>
          R (snd (for_each f0 (x # xs) s0)) (snd (for_each f (x # xs) s))"
    proof (cases r0)
      case (Inl e)
      with m0 m1 r t show ?thesis by simp
    next
      case (Inr u)
      with m0 m1 r agreeD [OF tl t] show ?thesis by simp
    qed
  qed
qed

lemma agree_const [simp]:
  "agree R (ret x) (ret x)"
  "agree R (raise e) (raise e)"
  "agree R (callee c) (callee c)"
  "agree R (callee_check d) (callee_check d)"
  "agree R (lift c') (lift c')"
  by (auto simp: agree_def stmt_defs split: sum.splits option.splits)

lemma agree_emit:
  "warning_after cmp ev = [] \<Longrightarrow> agree (warned cmp) (emit ev) (emit ev)"
  by (simp add: agree_def emit_def warned_def)

lemma agree_print [simp]: "agree (warned cmp) (print s) (print s)"
  by (simp add: print_def agree_emit warning_after_def)

lemma agree_case_prod:
  "(\<And>a b. agree R (f0 a b) (f a b)) \<Longrightarrow> agree R (case_prod f0 p) (case_prod f p)"
  by (cases p) simp

lemma passing_simps [simp]:
  "torch_rand (passing env) = torch_rand env"
  "network_call (passing env) = network_call env"
  "torch_onnx_export (passing env) = torch_onnx_export env"
  "check_model (passing env) = check_model env"
  "inference_session (passing env) = inference_session env"
  "session_run (passing env) = session_run env"
  "maybe_convert_to_dataset_name (passing env) = maybe_convert_to_dataset_name env"
  "get_output_folder (passing env) = get_output_folder env"
  "initialize_from_trained_model_folder (passing env) = initialize_from_trained_model_folder env"
  "assert_allclose (passing env) = (\<lambda>y out0. None)"
  by (simp_all add: passing_def)

lemma agree_load_json: "agree (warned cmp) (load_json p) (load_json p)"
  by (auto simp: agree_def warned_def load_json_def stmt_defs warning_after_def
      split: sum.splits content.splits)

lemma agree_write_to: "agree (warned cmp) (write_to p c) (write_to p c)"
  by (auto simp: agree_def warned_def write_to_def split: sum.splits)

lemma agree_prepare_output_dir:
  "agree (warned cmp) (prepare_output_dir d) (prepare_output_dir d)"
  by (auto simp: agree_def warned_def prepare_output_dir_def stmt_defs warning_after_def
      split: sum.splits)

lemma agree_draw_rand: "agree (warned cmp) (draw_rand (passing env) shp) (draw_rand env shp)"
  by (auto simp: agree_def warned_def draw_rand_def stmt_defs warning_after_def
      split: sum.splits)

lemma agree_read_onnx: "agree (warned cmp) (read_onnx p) (read_onnx p)"
  by (auto simp: agree_def warned_def read_onnx_def split: sum.splits content.splits)


lemma agree_run_and_export:
  "agree (warned cmp) (run_and_export (passing env) a prm shp dyn p) (run_and_export env a prm shp dyn p)"
  unfolding run_and_export_def call_network_def onnx_export_def
  by (intro agree_and_then agree_draw_rand agree_emit agree_const agree_write_to)
    (simp_all add: warning_after_def)

lemma agree_export_artifact:
  "agree (warned cmp) (export_artifact (passing env) a config prm p) (export_artifact env a config prm p)"
  by (simp add: export_artifact_def agree_run_and_export)

lemma agree_reload_and_run:
  "agree (warned cmp) (reload_and_run (passing env) p x) (reload_and_run env p x)"
  unfolding reload_and_run_def onnx_load_def onnx_checker_def create_session_def run_session_def
  by (intro agree_and_then agree_emit agree_const agree_read_onnx)
    (simp_all add: warning_after_def)

lemma agree_compare_outputs:
  "agree (warned (assert_allclose env)) (compare_outputs (passing env) y outs) (compare_outputs env y outs)"
  by (auto simp: agree_def warned_def compare_outputs_def stmt_defs warning_after_def
      warning_events_def split: list.splits option.splits)

lemma agree_write_metadata:
  "agree (warned cmp) (write_metadata a c f config dn dj props p)
     (write_metadata a c f config dn dj props p)"
proof (cases "config_dict a c f config dn dj props")
  case (Inl e)
  then show ?thesis
    unfolding write_metadata_def
    by (intro agree_and_then agree_emit agree_write_to) (simp_all add: warning_after_def)
next
  case (Inr d)
  have "agree (warned cmp) (and_then (emit (EvJsonDump p d)) (\<lambda>_. write_to p (JsonText d)))
          (and_then (emit (EvJsonDump p d)) (\<lambda>_. write_to p (JsonText d)))"
    by (intro agree_and_then agree_emit agree_write_to) (simp add: warning_after_def)
  with Inr show ?thesis
    unfolding write_metadata_def
    by (intro agree_and_then agree_emit agree_write_to) (simp_all add: warning_after_def)
qed

lemma agree_export_fold:
  "agree (warned (assert_allclose env))
     (export_fold (passing env) a dn c dj props config oname fp)
     (export_fold env a dn c dj props config oname fp)"
proof -
  obtain f prm where fp: "fp = (f, prm)" by (cases fp)
  show ?thesis
    unfolding export_fold_def fp prod.case
    by (intro agree_and_then agree_emit agree_prepare_output_dir agree_export_artifact
        agree_case_prod agree_reload_and_run agree_compare_outputs agree_print
        agree_write_metadata)
      (simp_all add: warning_after_def)
qed


lemma agree_export_checkpoint:
  "agree (warned (assert_allclose env))
     (export_checkpoint (passing env) a dn c dir dj props cn)
     (export_checkpoint env a dn c dir dj props cn)"
proof -
  let ?R = "warned (assert_allclose env)"
  obtain ck oname where cn: "cn = (ck, oname)" by (cases cn)
  have loop: "agree ?R
      (and_then (callee init) (\<lambda>(lp, config).
         for_each (export_fold (passing env) a dn c dj props config oname) (zip (folds a) lp)))
      (and_then (callee init) (\<lambda>(lp, config).
         for_each (export_fold env a dn c dj props config oname) (zip (folds a) lp)))"
    for init
    by (intro agree_and_then agree_const agree_case_prod agree_for_each agree_export_fold)
  have body: "agree ?R
      (\<lambda>st. and_then (callee (initialize_from_trained_model_folder env (fs st) dir (folds a) ck))
         (\<lambda>(lp, config).
            for_each (export_fold (passing env) a dn c dj props config oname) (zip (folds a) lp)) st)
      (\<lambda>st. and_then (callee (initialize_from_trained_model_folder env (fs st) dir (folds a) ck))
         (\<lambda>(lp, config).
            for_each (export_fold env a dn c dj props config oname) (zip (folds a) lp)) st)"
  proof (rule agreeI)
    fix s0 s assume R: "?R s0 s"
    then have "fs s = fs s0" by (simp add: warned_def)
    with agreeD [OF loop R, of "initialize_from_trained_model_folder env (fs s0) dir (folds a) ck"]
    show "fst (and_then (callee (initialize_from_trained_model_folder env (fs s) dir (folds a) ck))
             (\<lambda>(lp, config).
                for_each (export_fold env a dn c dj props config oname) (zip (folds a) lp)) s) =
          fst (and_then (callee (initialize_from_trained_model_folder env (fs s0) dir (folds a) ck))
             (\<lambda>(lp, config).
                for_each (export_fold (passing env) a dn c dj props config oname) (zip (folds a) lp)) s0) \<and>
          ?R (snd (and_then (callee (initialize_from_trained_model_folder env (fs s0) dir (folds a) ck))
             (\<lambda>(lp, config).
                for_each (export_fold (passing env) a dn c dj props config oname) (zip (folds a) lp)) s0))
             (snd (and_then (callee (initialize_from_trained_model_folder env (fs s) dir (folds a) ck))
             (\<lambda>(lp, config).
                for_each (export_fold env a dn c dj props config oname) (zip (folds a) lp)) s))"
      by simp
  qed
  have ev: "agree ?R (emit (EvInitialize dir (folds a) ck)) (emit (EvInitialize dir (folds a) ck))"
    by (rule agree_emit) (simp add: warning_after_def)
  show ?thesis
    unfolding export_checkpoint_def cn prod.case passing_simps
    by (rule agree_and_then [OF ev body])
qed

lemma agree_configuration_body:
  "agree (warned (assert_allclose env))
     (configuration_body (passing env) a dn c names)
     (configuration_body env a dn c names)"
proof -
  let ?R = "warned (assert_allclose env)"
  let ?dir = "get_output_folder env dn (trainer a) (plans_identifier a) c"
  have loop: "agree ?R
      (and_then (for_each (export_checkpoint (passing env) a dn c ?dir dj props)
          (zip (save_checkpoints a) (pending names)))
         (\<lambda>_. ret (after_zip (length (save_checkpoints a)) names)))
      (and_then (for_each (export_checkpoint env a dn c ?dir dj props)
          (zip (save_checkpoints a) (pending names)))
         (\<lambda>_. ret (after_zip (length (save_checkpoints a)) names)))"
    for dj props
    by (intro agree_and_then agree_for_each agree_export_checkpoint agree_const)
  have skip: "agree ?R (and_then (print (skipping_message c)) (\<lambda>_. ret names))
      (and_then (print (skipping_message c)) (\<lambda>_. ret names))"
    by (intro agree_and_then agree_print agree_const)
  have tail: "agree ?R
      (\<lambda>st. if \<not> isdir (fs st) ?dir then
               (if strict a then raise (RuntimeError (missing_model_message dn c)) st
                else and_then (print (skipping_message c)) (\<lambda>_. ret names) st)
             else
               and_then (for_each (export_checkpoint (passing env) a dn c ?dir dj props)
                   (zip (save_checkpoints a) (pending names)))
                 (\<lambda>_. ret (after_zip (length (save_checkpoints a)) names)) st)
      (\<lambda>st. if \<not> isdir (fs st) ?dir then
               (if strict a then raise (RuntimeError (missing_model_message dn c)) st
                else and_then (print (skipping_message c)) (\<lambda>_. ret names) st)
             else
               and_then (for_each (export_checkpoint env a dn c ?dir dj props)
                   (zip (save_checkpoints a) (pending names)))
                 (\<lambda>_. ret (after_zip (length (save_checkpoints a)) names)) st)"
    for dj props
  proof (rule agreeI)
    fix s0 s assume R: "?R s0 s"
    then have fs: "fs s = fs s0" by (simp add: warned_def)
    have rs: "agree ?R (raise (RuntimeError (missing_model_message dn c)) :: state \<Rightarrow> (error + name_source) \<times> state)
        (raise (RuntimeError (missing_model_message dn c)))"
      by simp
    from agreeD [OF loop R, of dj props] agreeD [OF skip R] agreeD [OF rs R]
    show "fst (if \<not> isdir (fs s) ?dir then
               (if strict a then raise (RuntimeError (missing_model_message dn c)) s
                else and_then (print (skipping_message c)) (\<lambda>_. ret names) s)
             else
               and_then (for_each (export_checkpoint env a dn c ?dir dj props)
                   (zip (save_checkpoints a) (pending names)))
                 (\<lambda>_. ret (after_zip (length (save_checkpoints a)) names)) s) =
          fst (if \<not> isdir (fs s0) ?dir then
               (if strict a then raise (RuntimeError (missing_model_message dn c)) s0
                else and_then (print (skipping_message c)) (\<lambda>_. ret names) s0)
             else
               and_then (for_each (export_checkpoint (passing env) a dn c ?dir dj props)
                   (zip (save_checkpoints a) (pending names)))
                 (\<lambda>_. ret (after_zip (length (save_checkpoints a)) names)) s0) \<and>
          ?R (snd (if \<not> isdir (fs s0) ?dir then
               (if strict a then raise (RuntimeError (missing_model_message dn c)) s0
                else and_then (print (skipping_message c)) (\<lambda>_. ret names) s0)
             else
               and_then (for_each (export_checkpoint (passing env) a dn c ?dir dj props)
                   (zip (save_checkpoints a) (pending names)))
                 (\<lambda>_. ret (after_zip (length (save_checkpoints a)) names)) s0))
             (snd (if \<not> isdir (fs s) ?dir then
               (if strict a then raise (RuntimeError (missing_model_message dn c)) s
                else and_then (print (skipping_message c)) (\<lambda>_. ret names) s)
             else
               and_then (for_each (export_checkpoint env a dn c ?dir dj props)
                   (zip (save_checkpoints a) (pending names)))
                 (\<lambda>_. ret (after_zip (length (save_checkpoints a)) names)) s))"
      by (simp add: fs)
  qed
  have ev: "agree ?R (emit (EvGetOutputFolder dn (trainer a) (plans_identifier a) c))
      (emit (EvGetOutputFolder dn (trainer a) (plans_identifier a) c))"
    by (rule agree_emit) (simp add: warning_after_def)
  show ?thesis
    unfolding configuration_body_def passing_simps Let_def
    by (intro agree_and_then agree_print ev agree_load_json agree_const tail)
qed


lemma agree_export_configuration:
  "agree (\<lambda>ns0 ns. fst ns0 = fst ns \<and> warned (assert_allclose env) (snd ns0) (snd ns))
     (export_configuration (passing env) a dn c) (export_configuration env a dn c)"
proof (rule agreeI)
  fix ns0 ns :: "name_source \<times> state"
  assume R: "fst ns0 = fst ns \<and> warned (assert_allclose env) (snd ns0) (snd ns)"
  obtain names s0 where ns0: "ns0 = (names, s0)" by (cases ns0)
  with R obtain s where ns: "ns = (names, s)" by (cases ns) simp
  from R ns0 ns have W: "warned (assert_allclose env) s0 s" by simp
  obtain q0 t0 where b0: "configuration_body (passing env) a dn c names s0 = (q0, t0)"
    by (cases "configuration_body (passing env) a dn c names s0")
  obtain q t where b: "configuration_body env a dn c names s = (q, t)"
    by (cases "configuration_body env a dn c names s")
  from agreeD [OF agree_configuration_body W, of a dn c names] b0 b
  have q: "q = q0" and t: "warned (assert_allclose env) t0 t" by simp_all
  show "fst (export_configuration env a dn c ns) = fst (export_configuration (passing env) a dn c ns0) \<and>
        fst (snd (export_configuration (passing env) a dn c ns0)) =
          fst (snd (export_configuration env a dn c ns)) \<and>
        warned (assert_allclose env) (snd (snd (export_configuration (passing env) a dn c ns0)))
          (snd (snd (export_configuration env a dn c ns)))"
    using b0 b q t by (cases q0) (simp_all add: export_configuration_def ns0 ns)
qed

lemma agree_export_onnx_model:
  "agree (warned (assert_allclose env)) (export_onnx_model (passing env) a) (export_onnx_model env a)"
proof (rule agreeI)
  let ?cmp = "assert_allclose env"
  let ?R2 = "\<lambda>ns0 ns. fst ns0 = fst ns \<and> warned ?cmp (snd ns0) (snd ns)"
  fix s0 s assume W: "warned ?cmp s0 s"
  define ev where "ev = EvConvertDatasetName (dataset_name_or_id a)"
  define t0 where "t0 = s0\<lparr>trace := trace s0 @ [ev]\<rparr>"
  define t where "t = s\<lparr>trace := trace s @ [ev]\<rparr>"
  from W have W1: "warned ?cmp t0 t"
    by (simp add: warned_def t0_def t_def ev_def warning_after_def)
  show "fst (export_onnx_model env a s) = fst (export_onnx_model (passing env) a s0) \<and>
        warned ?cmp (snd (export_onnx_model (passing env) a s0)) (snd (export_onnx_model env a s))"
  proof (cases "batch_size a < 0")
    case True
    with W show ?thesis by (simp add: export_onnx_model_def raise_def)
  next
    case False
    show ?thesis
    proof (cases "maybe_convert_to_dataset_name env (dataset_name_or_id a)")
      case (Inl m)
      with False W1 show ?thesis
        by (simp add: export_onnx_model_def t0_def t_def ev_def callee_def)
    next
      case (Inr dn)
      have loop: "agree ?R2 (for_each (export_configuration (passing env) a dn) (configurations a))
          (for_each (export_configuration env a dn) (configurations a))"
        by (intro agree_for_each agree_export_configuration)
      obtain q0 n0 u0 where l0:
        "for_each (export_configuration (passing env) a dn) (configurations a) (initial_names a, t0) =
           (q0, (n0, u0))"
        by (metis prod.exhaust)
      obtain q n u where l1:
        "for_each (export_configuration env a dn) (configurations a) (initial_names a, t) =
           (q, (n, u))"
        by (metis prod.exhaust)
      from W1 have "?R2 (initial_names a, t0) (initial_names a, t)" by simp
      from agreeD [OF loop this] l0 l1 have "q = q0" "warned ?cmp u0 u"
        by simp_all
      with False Inr l0 l1 show ?thesis
        by (simp add: export_onnx_model_def Let_def t0_def t_def ev_def callee_def)
    qed
  qed
qed


lemma passing_failing_env: "passing failing_env = demo_env"
  by (simp add: passing_def failing_env_def demo_env_def)

lemma failing_env_comparison:
  "assert_allclose failing_env = (\<lambda>y out0. Some ''Not equal to tolerance'')"
  by (simp add: failing_env_def)

text \<open>
  Claim C6. Take any run, and the run from the same state in which every comparison finds
  the outputs equal. The two runs end with the same result (the same exception, or none),
  the same files and the same number of random tensors drawn, and the record of the first
  is the record of the second with the three warning lines printed right after each
  comparison that found a difference. So a failed comparison is answered by the warning
  alone: it raises nothing, it changes no file, and every later call (the message of the
  export, the metadata file, the remaining folds, checkpoints and configurations) is made as
  if the comparison had succeeded, with no call repeated or added.
\<close>

theorem parity_failure_warns_and_continues:
  assumes "export_onnx_model env a st = (r, st')"
    and "export_onnx_model (passing env) a st = (r0, st0)"
    and "trace st = []"
  shows "r = r0 \<and> fs st' = fs st0 \<and> rng st' = rng st0 \<and>
         trace st' = with_warnings (assert_allclose env) (trace st0)"
proof -
  from assms(3) have "warned (assert_allclose env) st st"
    by (simp add: warned_def)
  from agreeD [OF agree_export_onnx_model this, of a] assms(1,2) show ?thesis
    by (simp add: warned_def)
qed

theorem parity_failure_warns_and_continues_witness:
  "fst (export_onnx_model failing_env demo_args demo_state) = Inr () \<and>
   fs (snd (export_onnx_model failing_env demo_args demo_state)) =
     fs (snd (export_onnx_model demo_env demo_args demo_state)) \<and>
   trace (snd (export_onnx_model failing_env demo_args demo_state)) =
     demo_resolved @ demo_loaded @
     [EvNetworkCall (Params 0) demo_input, EvOnnxExport demo_artifact (Params 0) demo_input True] @
     demo_reloaded @
     [EvAssertAllclose (Tensor [1, 1, 4, 4] 100) (Tensor [1, 1, 4, 4] 101)] @
     warning_events ''Not equal to tolerance'' @
     [EvPrint ''Exported out/2d/fold_0/checkpoint_final.onnx'',
      EvOpenWrite demo_config_json, EvJsonDump demo_config_json demo_metadata] @ demo_second"
  using parity_failure_warns_and_continues [OF surjective_pairing surjective_pairing
      demo_state_trace, of failing_env demo_args,
      unfolded passing_failing_env demo_run_trace demo_run_result failing_env_comparison]
  by (simp add: demo_trace_def demo_resolved_def demo_loaded_def demo_reloaded_def
      demo_compared_def demo_second_def warning_after_def)

end
